theory Spec2Isabelle
  imports Main "HOL-Library.Word"
begin

section \<open>Machine types and the sandbox record\<close>

text \<open>
  The model fixes an LP64 platform: \<open>unsigned\<close> is 32 bits wide, \<open>size_t\<close> and pointers
  are 64 bits wide. Arithmetic on words wraps around, as C's unsigned arithmetic does.
  The header that declares \<open>lua_sandbox\<close> and \<open>output_data\<close> is not part of the
  sources at hand; the fields below are the ones \<open>lua_sandbox_private.c\<close> reads and
  writes, and the counters have type \<open>unsigned\<close>, the type the file casts to before it
  stores into them.
\<close>

type_synonym unsigned = "32 word"
type_synonym size_t = "64 word"
type_synonym ptr = "64 word"

definition NULL :: ptr where
  "NULL = 0"

datatype lsb_usage_type = LSB_UT_MEMORY | LSB_UT_INSTRUCTION | LSB_UT_OUTPUT

datatype lsb_usage_stat = LSB_US_LIMIT | LSB_US_CURRENT | LSB_US_MAXIMUM

datatype lsb_state = LSB_UNKNOWN | LSB_RUNNING | LSB_TERMINATED

text \<open>
  The output buffer. \<open>data\<close> is the allocated region itself, a list of exactly
  \<open>size\<close> bytes in a well-formed buffer; the field \<open>size\<close> of the C struct is
  called \<open>size'\<close> here, since \<open>size\<close> is a constant of HOL.
\<close>

record output_data =
  maxsize :: size_t
  size' :: size_t
  pos :: size_t
  data :: "char list"

record lua_sandbox =
  lua :: "ptr option"
  state :: lsb_state
  output' :: output_data
  require_path :: "string option"
  usage :: "lsb_usage_type \<Rightarrow> lsb_usage_stat \<Rightarrow> unsigned"
  error_message :: string

definition set_usage ::
  "lsb_usage_type \<Rightarrow> lsb_usage_stat \<Rightarrow> unsigned \<Rightarrow> lua_sandbox \<Rightarrow> lua_sandbox" where
  "set_usage t s v lsb = lsb\<lparr>usage := (usage lsb)(t := (usage lsb t)(s := v))\<rparr>"

section \<open>The allocation interposer\<close>

text \<open>
  \<open>memory_manager\<close> calls \<open>free\<close> or \<open>realloc\<close> of the C library. The library's
  answer to \<open>realloc\<close> is a parameter of the model (\<open>NULL\<close> is failure); the calls
  made are returned next to the result, so that a refusal without a call can be told
  from a failed call.
\<close>

datatype libc_call = Free ptr | Realloc ptr size_t

definition memory_manager ::
  "(ptr \<Rightarrow> size_t \<Rightarrow> ptr) \<Rightarrow> lua_sandbox \<Rightarrow> ptr \<Rightarrow> size_t \<Rightarrow> size_t
     \<Rightarrow> ptr \<times> lua_sandbox \<times> libc_call list" where
  "memory_manager realloc lsb p osize nsize =
     (if nsize = 0 then
        (NULL,
         set_usage LSB_UT_MEMORY LSB_US_CURRENT
           (usage lsb LSB_UT_MEMORY LSB_US_CURRENT - ucast osize) lsb,
         [Free p])
      else
        let new_state_memory =
              (ucast ((ucast (usage lsb LSB_UT_MEMORY LSB_US_CURRENT) :: size_t)
                        + nsize - osize) :: unsigned)
        in if 0 = usage lsb LSB_UT_MEMORY LSB_US_LIMIT
              \<or> new_state_memory \<le> usage lsb LSB_UT_MEMORY LSB_US_LIMIT
           then
             let nptr = realloc p nsize
             in if nptr \<noteq> NULL then
                  let lsb1 = set_usage LSB_UT_MEMORY LSB_US_CURRENT new_state_memory lsb;
                      lsb2 = (if usage lsb1 LSB_UT_MEMORY LSB_US_CURRENT
                                   > usage lsb1 LSB_UT_MEMORY LSB_US_MAXIMUM
                              then set_usage LSB_UT_MEMORY LSB_US_MAXIMUM
                                     (usage lsb1 LSB_UT_MEMORY LSB_US_CURRENT) lsb1
                              else lsb1)
                  in (nptr, lsb2, [Realloc p nsize])
                else (NULL, lsb, [Realloc p nsize])
           else (NULL, lsb, []))"

text \<open>
  The value the interposer calls \<open>new_state_memory\<close>: the sum is formed in
  \<open>size_t\<close> and cut to \<open>unsigned\<close>.
\<close>

definition projected :: "lua_sandbox \<Rightarrow> size_t \<Rightarrow> size_t \<Rightarrow> unsigned" where
  "projected lsb osize nsize =
     ucast ((ucast (usage lsb LSB_UT_MEMORY LSB_US_CURRENT) :: size_t) + nsize - osize)"

section \<open>Termination of a sandbox\<close>

text \<open>
  \<open>lua_close\<close> belongs to the engine. What it does to the sandbox is to hand every
  block the engine still owns back to the registered allocator, one call with
  \<open>nsize = 0\<close> for each; the blocks (address and size) are a parameter.
\<close>

fun lua_close :: "(ptr \<times> size_t) list \<Rightarrow> lua_sandbox \<Rightarrow> lua_sandbox" where
  "lua_close [] lsb = lsb"
| "lua_close ((p, osize) # blocks) lsb =
     lua_close blocks (fst (snd (memory_manager (\<lambda>_ _. NULL) lsb p osize 0)))"

definition sandbox_terminate :: "(ptr \<times> size_t) list \<Rightarrow> lua_sandbox \<Rightarrow> lua_sandbox" where
  "sandbox_terminate blocks lsb =
     (let lsb1 = (case lua lsb of
                    Some h \<Rightarrow> (lua_close blocks lsb)\<lparr>lua := None\<rparr>
                  | None \<Rightarrow> lsb);
          lsb2 = set_usage LSB_UT_MEMORY LSB_US_CURRENT 0 lsb1
      in lsb2\<lparr>state := LSB_TERMINATED\<rparr>)"

section \<open>The output buffer\<close>

text \<open>
  A C string is given by its bytes; it ends before the first zero byte. The bytes a
  C function reads through a \<open>const char*\<close> are \<open>c_str s\<close> followed by a zero.
\<close>

definition NUL :: char where
  "NUL = CHR 0x00"

definition c_str :: "string \<Rightarrow> string" where
  "c_str s = takeWhile (\<lambda>c. c \<noteq> NUL) s"

definition strlen :: "string \<Rightarrow> size_t" where
  "strlen s = of_nat (length (c_str s))"

text \<open>
  The C library and the platform are parameters: \<open>win32\<close> is the compile-time
  switch \<open>_WIN32\<close>, \<open>malloc_ok n\<close> says whether a request for \<open>n\<close> bytes
  (\<open>malloc\<close> or \<open>realloc\<close>) is granted, \<open>junk\<close> is what uninitialised memory holds.
\<close>

record libc =
  win32 :: bool
  malloc_ok :: "size_t \<Rightarrow> bool"
  junk :: char

text \<open>
  A C function either returns or runs into undefined behaviour (a write outside the
  allocated region), which is \<open>Fault\<close>. A loop that does not end is the value
  \<open>None\<close> of the enclosing option type.
\<close>

datatype 'a res = Fault | Ret 'a

definition write_at :: "char list \<Rightarrow> nat \<Rightarrow> char list \<Rightarrow> char list option" where
  "write_at d i bs =
     (if i + length bs \<le> length d
      then Some (take i d @ bs @ drop (i + length bs) d)
      else None)"

text \<open>The loop \<open>while (needed >= newsize - output->pos) newsize *= 2;\<close>\<close>

partial_function (option) grow_newsize :: "size_t \<Rightarrow> size_t \<Rightarrow> size_t \<Rightarrow> size_t option" where
  "grow_newsize needed p newsize =
     (if needed \<ge> newsize - p then grow_newsize needed p (newsize * 2) else Some newsize)"

definition realloc_output :: "libc \<Rightarrow> output_data \<Rightarrow> size_t \<Rightarrow> (int \<times> output_data) option" where
  "realloc_output lc out needed =
     (if maxsize out \<noteq> 0 \<and> needed + pos out > maxsize out then Some (1, out)
      else
        case grow_newsize needed (pos out) (size' out * 2) of
          None \<Rightarrow> None
        | Some newsize0 \<Rightarrow>
            let newsize = (if maxsize out \<noteq> 0 \<and> newsize0 > maxsize out
                           then maxsize out else newsize0)
            in if \<not> malloc_ok lc newsize then Some (1, out)
               else Some (0, out\<lparr>data := take (unat newsize) (data out)
                                          @ replicate (unat newsize - length (data out)) (junk lc),
                                  size' := newsize\<rparr>))"

definition appends :: "libc \<Rightarrow> output_data \<Rightarrow> string \<Rightarrow> (int \<times> output_data) res option" where
  "appends lc out str =
     (let needed = strlen str + 1
      in case (if size' out - pos out < needed then realloc_output lc out needed
               else Some (0, out)) of
           None \<Rightarrow> None
         | Some (r, out1) \<Rightarrow>
             if r \<noteq> 0 then Some (Ret (1, out1))
             else
               (case write_at (data out1) (unat (pos out1))
                       (take (unat needed) (c_str str @ [NUL])) of
                  None \<Rightarrow> Some Fault
                | Some d \<Rightarrow> Some (Ret (0, out1\<lparr>data := d, pos := pos out1 + (needed - 1)\<rparr>))))"

definition appendc :: "libc \<Rightarrow> output_data \<Rightarrow> char \<Rightarrow> (int \<times> output_data) res option" where
  "appendc lc out ch =
     (let needed = 2
      in case (if size' out - pos out < needed then realloc_output lc out needed
               else Some (0, out)) of
           None \<Rightarrow> None
         | Some (r, out1) \<Rightarrow>
             if r \<noteq> 0 then Some (Ret (1, out1))
             else
               (case write_at (data out1) (unat (pos out1)) [ch] of
                  None \<Rightarrow> Some Fault
                | Some d1 \<Rightarrow>
                    let pos1 = pos out1 + 1
                    in (case write_at d1 (unat pos1) [NUL] of
                          None \<Rightarrow> Some Fault
                        | Some d2 \<Rightarrow> Some (Ret (0, out1\<lparr>data := d2, pos := pos1\<rparr>)))))"

text \<open>
  \<open>appendf\<close> is only ever called with the format \<open>"%s"\<close> and one string; the model
  is \<open>appendf\<close> at that format. \<open>vsnprintf_s lc n s\<close> gives the bytes
  \<open>vsnprintf(ptr, n, "%s", s)\<close> stores and the \<open>int\<close> it returns: the whole string
  and its zero when they fit into \<open>n\<close> bytes; otherwise the C99 function stores the
  cut string with its zero and returns the full length, and the Windows one returns
  \<open>-1\<close>, as the comment in \<open>appendf\<close> says.
\<close>

definition INT_MAX :: int where
  "INT_MAX = 2147483647"

definition vsnprintf_s :: "libc \<Rightarrow> nat \<Rightarrow> string \<Rightarrow> string \<times> int" where
  "vsnprintf_s lc n s =
     (let l = length (c_str s)
      in if int l > INT_MAX then ([], - 1)
         else if l < n then (c_str s @ [NUL], int l)
         else if win32 lc then (take n (c_str s), - 1)
         else (if n = 0 then [] else take (n - 1) (c_str s) @ [NUL], int l))"

text \<open>
  One pass through the body of the \<open>do ... while (1)\<close> loop of \<open>appendf\<close>: it ends
  the call (\<open>Stop\<close>: a \<open>return\<close>, the \<open>break\<close>, or a write outside the region), or
  it goes round again with a larger buffer (\<open>Again\<close>); \<open>None\<close> is the inner loop
  not ending.
\<close>

datatype round = Again output_data | Stop "(int \<times> output_data) res"

definition appendf_round :: "libc \<Rightarrow> output_data \<Rightarrow> string \<Rightarrow> round option" where
  "appendf_round lc out s =
     (let remaining = sint (ucast (size' out - pos out) :: 32 word);
          pr = vsnprintf_s lc (unat (of_int remaining :: size_t)) s
      in case write_at (data out) (unat (pos out)) (fst pr) of
           None \<Rightarrow> Some (Stop Fault)
         | Some d \<Rightarrow>
             let out1 = out\<lparr>data := d\<rparr>;
                 needed = (if snd pr = - 1 then remaining else snd pr)
             in if needed \<ge> remaining then
                  if maxsize out1 \<noteq> 0
                     \<and> (size' out1 \<ge> maxsize out1 \<or> pos out1 + of_int needed \<ge> maxsize out1)
                  then Some (Stop (Ret (1, out1)))
                  else
                    (case grow_newsize (of_int needed) (pos out1) (size' out1 * 2) of
                       None \<Rightarrow> None
                     | Some newsize0 \<Rightarrow>
                         let newsize = (if maxsize out1 \<noteq> 0 \<and> newsize0 > maxsize out1
                                        then maxsize out1 else newsize0)
                         in if \<not> malloc_ok lc newsize then Some (Stop (Ret (1, out1)))
                            else if unat (pos out1) \<le> unat newsize
                                    \<and> unat (pos out1) \<le> length (data out1)
                            then Some (Again
                                   (out1\<lparr>data := take (unat (pos out1)) (data out1)
                                                   @ replicate (unat newsize - unat (pos out1)) (junk lc),
                                          size' := newsize\<rparr>))
                            else Some (Stop Fault))
                else Some (Stop (Ret (0, out1\<lparr>pos := pos out1 + of_int needed\<rparr>))))"

partial_function (option) appendf ::
  "libc \<Rightarrow> output_data \<Rightarrow> string \<Rightarrow> (int \<times> output_data) res option" where
  "appendf lc out s =
     (case appendf_round lc out s of
        None \<Rightarrow> None
      | Some (Stop r) \<Rightarrow> Some r
      | Some (Again out') \<Rightarrow> appendf lc out' s)"

definition update_output_stats :: "lua_sandbox \<Rightarrow> lua_sandbox" where
  "update_output_stats lsb =
     (let lsb1 = set_usage LSB_UT_OUTPUT LSB_US_CURRENT (ucast (pos (output' lsb))) lsb
      in if usage lsb1 LSB_UT_OUTPUT LSB_US_CURRENT > usage lsb1 LSB_UT_OUTPUT LSB_US_MAXIMUM
         then set_usage LSB_UT_OUTPUT LSB_US_MAXIMUM (usage lsb1 LSB_UT_OUTPUT LSB_US_CURRENT) lsb1
         else lsb1)"


section \<open>The engine: values, tables and the stack\<close>

text \<open>
  The engine is not part of these sources. What the sandbox code needs of its C
  interface is modelled here after the engine's reference manual: a stack of values,
  tables with string keys and an optional metatable, the table of globals behind
  \<open>LUA_GLOBALSINDEX\<close>, and the metatables shared by the values of the types that
  are not tables. Tables are read and written raw: metamethods of the tables the
  sandbox code touches are not modelled. A number is the bit pattern of its double.
  \<open>events\<close> is a ghost field, the log of the loaders run and the files executed.
\<close>

type_synonym lua_Number = "64 word"

datatype lua_value =
    LNil | LBoolean bool | LLightuserdata ptr | LNumber lua_Number | LString string
  | LTable nat | LFunction nat | LUserdata nat | LThread nat

datatype lua_type =
    LUA_TNONE | LUA_TNIL | LUA_TBOOLEAN | LUA_TLIGHTUSERDATA | LUA_TNUMBER | LUA_TSTRING
  | LUA_TTABLE | LUA_TFUNCTION | LUA_TUSERDATA | LUA_TTHREAD

fun type_of_value :: "lua_value \<Rightarrow> lua_type" where
  "type_of_value LNil = LUA_TNIL"
| "type_of_value (LBoolean b) = LUA_TBOOLEAN"
| "type_of_value (LLightuserdata p) = LUA_TLIGHTUSERDATA"
| "type_of_value (LNumber x) = LUA_TNUMBER"
| "type_of_value (LString s) = LUA_TSTRING"
| "type_of_value (LTable r) = LUA_TTABLE"
| "type_of_value (LFunction r) = LUA_TFUNCTION"
| "type_of_value (LUserdata r) = LUA_TUSERDATA"
| "type_of_value (LThread r) = LUA_TTHREAD"

record ltable =
  tfields :: "string \<Rightarrow> lua_value"
  metatable :: "nat option"

datatype lua_CFunction =
    luaopen_string | luaopen_math | luaopen_table | luaopen_os
  | luaopen_circular_buffer | luaopen_bloom_filter | luaopen_hyperloglog
  | luaopen_lpeg | luaopen_pb | luaopen_cjson_safe

datatype event = Called lua_CFunction | DoFile string

record lua_State =
  stack :: "lua_value list"
  tables :: "ltable list"
  globals :: nat
  type_metatable :: "lua_type \<Rightarrow> nat option"
  udata_metatable :: "nat \<Rightarrow> nat option"
  events :: "event list"

text \<open>
  A call into the engine returns, raises an error value, or is outside what the
  model covers (\<open>Undef\<close>: a stack index with nothing behind it, a format that reads
  an argument that was not passed).
\<close>

datatype 'a exec = Undef | Raise lua_value | Return 'a

definition bind_exec ::
  "'a exec \<times> lua_State \<Rightarrow> ('a \<Rightarrow> lua_State \<Rightarrow> 'b exec \<times> lua_State) \<Rightarrow> 'b exec \<times> lua_State" where
  "bind_exec m f =
     (case m of
        (Return x, L) \<Rightarrow> f x L
      | (Raise e, L) \<Rightarrow> (Raise e, L)
      | (Undef, L) \<Rightarrow> (Undef, L))"

text \<open>
  The collaborators: the library loaders and the file executor of the engine, the
  serializers of the sandbox that live in other files, and the constants of headers
  that are not at hand.
  \<^item> \<open>cfunction f L\<close>: \<open>lua_call\<close> of the loader \<open>f\<close> with no argument and one
    result: the error it raises or the value it returns, and the engine state it leaves;
  \<^item> \<open>dofile fn L\<close>: \<open>luaL_dofile\<close>: the error value or the values the chunk returns;
  \<^item> \<open>number2str\<close>: the engine's conversion of a number to a string;
  \<^item> \<open>typerror L narg\<close>: the error value of a failed \<open>luaL_checkstring\<close>;
  \<^item> \<open>index_error v\<close>: the error value the engine raises when \<open>v\<close>, not a table,
    is indexed.
\<close>

record engine =
  cfunction :: "lua_CFunction \<Rightarrow> lua_State \<Rightarrow> (lua_value + lua_value) \<times> lua_State"
  dofile :: "string \<Rightarrow> lua_State \<Rightarrow> (lua_value + lua_value list) \<times> lua_State"
  number2str :: "lua_Number \<Rightarrow> string"
  typerror :: "lua_State \<Rightarrow> int \<Rightarrow> lua_value"
  index_error :: "lua_value \<Rightarrow> lua_value"
  serialize_double :: "output_data \<Rightarrow> lua_Number \<Rightarrow> int \<times> output_data"
  serialize_kvp_as_json :: "lua_State \<Rightarrow> lua_sandbox \<Rightarrow> int \<times> lua_State \<times> lua_sandbox"
  userdata_type :: "lua_State \<Rightarrow> nat \<Rightarrow> ptr"
  output_circular_buffer :: "lua_State \<Rightarrow> ptr \<Rightarrow> output_data \<Rightarrow> int \<times> output_data"
  sizeof_table_ref :: size_t
  LSB_ERROR_SIZE :: nat

subsection \<open>The C interface of the engine\<close>

definition LUA_GLOBALSINDEX :: int where
  "LUA_GLOBALSINDEX = - 10002"

definition index2adr :: "lua_State \<Rightarrow> int \<Rightarrow> lua_value option" where
  "index2adr L idx =
     (if idx = LUA_GLOBALSINDEX then Some (LTable (globals L))
      else if 0 < idx \<and> idx \<le> int (length (stack L)) then Some (stack L ! nat (idx - 1))
      else if idx < 0 \<and> - idx \<le> int (length (stack L))
      then Some (stack L ! nat (int (length (stack L)) + idx))
      else None)"

definition lua_type :: "lua_State \<Rightarrow> int \<Rightarrow> lua_type" where
  "lua_type L idx = (case index2adr L idx of None \<Rightarrow> LUA_TNONE | Some v \<Rightarrow> type_of_value v)"

definition lua_istable :: "lua_State \<Rightarrow> int \<Rightarrow> bool" where
  "lua_istable L idx = (lua_type L idx = LUA_TTABLE)"

definition lua_isnil :: "lua_State \<Rightarrow> int \<Rightarrow> bool" where
  "lua_isnil L idx = (lua_type L idx = LUA_TNIL)"

definition lua_gettop :: "lua_State \<Rightarrow> int" where
  "lua_gettop L = int (length (stack L))"

definition lua_push :: "lua_value \<Rightarrow> lua_State \<Rightarrow> lua_State" where
  "lua_push v L = L\<lparr>stack := stack L @ [v]\<rparr>"

definition lua_pop :: "lua_State \<Rightarrow> nat \<Rightarrow> lua_State" where
  "lua_pop L n = L\<lparr>stack := take (length (stack L) - n) (stack L)\<rparr>"

definition lua_pushvalue :: "lua_State \<Rightarrow> int \<Rightarrow> unit exec \<times> lua_State" where
  "lua_pushvalue L idx =
     (case index2adr L idx of
        None \<Rightarrow> (Undef, L)
      | Some v \<Rightarrow> (Return (), lua_push v L))"

definition lua_getfield :: "engine \<Rightarrow> lua_State \<Rightarrow> int \<Rightarrow> string \<Rightarrow> unit exec \<times> lua_State" where
  "lua_getfield eng L idx k =
     (case index2adr L idx of
        None \<Rightarrow> (Undef, L)
      | Some (LTable r) \<Rightarrow>
          if r < length (tables L) then (Return (), lua_push (tfields (tables L ! r) k) L)
          else (Undef, L)
      | Some v \<Rightarrow> (Raise (index_error eng v), L))"

definition lua_setfield :: "engine \<Rightarrow> lua_State \<Rightarrow> int \<Rightarrow> string \<Rightarrow> unit exec \<times> lua_State" where
  "lua_setfield eng L idx k =
     (if stack L = [] then (Undef, L)
      else
        case index2adr L idx of
          None \<Rightarrow> (Undef, L)
        | Some (LTable r) \<Rightarrow>
            if r < length (tables L)
            then (Return (),
                  L\<lparr>stack := butlast (stack L),
                    tables := (tables L)[r := (tables L ! r)
                                \<lparr>tfields := (tfields (tables L ! r))(k := last (stack L))\<rparr>]\<rparr>)
            else (Undef, L)
        | Some v \<Rightarrow> (Raise (index_error eng v), L))"

definition lua_newtable :: "lua_State \<Rightarrow> lua_State" where
  "lua_newtable L =
     L\<lparr>stack := stack L @ [LTable (length (tables L))],
       tables := tables L @ [\<lparr>tfields = (\<lambda>k. LNil), metatable = None\<rparr>]\<rparr>"

definition set_metatable_of :: "lua_value \<Rightarrow> nat option \<Rightarrow> lua_State \<Rightarrow> lua_State" where
  "set_metatable_of obj mt L =
     (case obj of
        LTable r \<Rightarrow> L\<lparr>tables := (tables L)[r := (tables L ! r)\<lparr>metatable := mt\<rparr>]\<rparr>
      | LUserdata u \<Rightarrow> L\<lparr>udata_metatable := (udata_metatable L)(u := mt)\<rparr>
      | v \<Rightarrow> L\<lparr>type_metatable := (type_metatable L)(type_of_value v := mt)\<rparr>)"

definition lua_setmetatable :: "lua_State \<Rightarrow> int \<Rightarrow> unit exec \<times> lua_State" where
  "lua_setmetatable L objindex =
     (if stack L = [] then (Undef, L)
      else
        case index2adr L objindex of
          None \<Rightarrow> (Undef, L)
        | Some obj \<Rightarrow>
            (case last (stack L) of
               LNil \<Rightarrow> (Return (), lua_pop (set_metatable_of obj None L) 1)
             | LTable m \<Rightarrow> (Return (), lua_pop (set_metatable_of obj (Some m) L) 1)
             | v \<Rightarrow> (Undef, L)))"

definition lua_tostring :: "engine \<Rightarrow> lua_State \<Rightarrow> int \<Rightarrow> string option" where
  "lua_tostring eng L idx =
     (case index2adr L idx of
        Some (LString s) \<Rightarrow> Some s
      | Some (LNumber x) \<Rightarrow> Some (number2str eng x)
      | _ \<Rightarrow> None)"

definition luaL_checkstring :: "engine \<Rightarrow> lua_State \<Rightarrow> int \<Rightarrow> string exec \<times> lua_State" where
  "luaL_checkstring eng L narg =
     (case index2adr L narg of
        Some (LString s) \<Rightarrow> (Return (c_str s), L)
      | Some (LNumber x) \<Rightarrow>
          (Return (c_str (number2str eng x)),
           L\<lparr>stack := (stack L)[nat (narg - 1) := LString (number2str eng x)]\<rparr>)
      | _ \<Rightarrow> (Raise (typerror eng L narg), L))"

text \<open>\<open>lua_pushcfunction(lua, f); lua_call(lua, 0, 1);\<close>\<close>

definition lua_call_0_1 :: "engine \<Rightarrow> lua_CFunction \<Rightarrow> lua_State \<Rightarrow> unit exec \<times> lua_State" where
  "lua_call_0_1 eng f L =
     (case cfunction eng f L of
        (Inl e, L') \<Rightarrow> (Raise e, L'\<lparr>stack := stack L, events := events L @ [Called f]\<rparr>)
      | (Inr v, L') \<Rightarrow>
          (Return (), L'\<lparr>stack := stack L @ [v], events := events L @ [Called f]\<rparr>))"

definition luaL_dofile :: "engine \<Rightarrow> lua_State \<Rightarrow> string \<Rightarrow> int \<times> lua_State" where
  "luaL_dofile eng L fn =
     (case dofile eng fn L of
        (Inl e, L') \<Rightarrow> (1, L'\<lparr>stack := stack L @ [e], events := events L @ [DoFile fn]\<rparr>)
      | (Inr vs, L') \<Rightarrow> (0, L'\<lparr>stack := stack L @ vs, events := events L @ [DoFile fn]\<rparr>))"

subsection \<open>Error messages\<close>

text \<open>
  \<open>luaL_error\<close> builds its message from a format and arguments by the engine's own
  formatter, which knows \<open>%s\<close>, \<open>%c\<close>, \<open>%d\<close>, \<open>%f\<close>, \<open>%p\<close> and \<open>%%\<close>, and copies
  any other pair that starts with \<open>%\<close>. \<open>pushvfstring\<close> is that formatter for the
  conversions this file uses; it is \<open>None\<close> where the C function would read an
  argument that was not passed or read past the end of the format. The position the
  engine may put in front of the message (\<open>luaL_where\<close>) is not modelled: the message
  of the model is the text the sandbox code asks for.
\<close>

datatype fmt_arg = ArgS "string option" | ArgD int | ArgC char

fun dec_nat :: "nat \<Rightarrow> string" where
  "dec_nat n =
     (if n < 10 then [char_of (48 + n)]
      else dec_nat (n div 10) @ [char_of (48 + n mod 10)])"

definition dec_int :: "int \<Rightarrow> string" where
  "dec_int i = (if i < 0 then CHR ''-'' # dec_nat (nat (- i)) else dec_nat (nat i))"

fun pushvfstring :: "string \<Rightarrow> fmt_arg list \<Rightarrow> string option" where
  "pushvfstring [] args = Some []"
| "pushvfstring [c] args = (if c = CHR ''%'' then None else Some [c])"
| "pushvfstring (c # d # fmt) args =
     (if c \<noteq> CHR ''%'' then map_option ((#) c) (pushvfstring (d # fmt) args)
      else if d = CHR ''s'' then
        (case args of
           ArgS s # rest \<Rightarrow>
             map_option ((@) (case s of None \<Rightarrow> ''(null)'' | Some t \<Rightarrow> c_str t))
               (pushvfstring fmt rest)
         | _ \<Rightarrow> None)
      else if d = CHR ''c'' then
        (case args of
           ArgC ch # rest \<Rightarrow>
             map_option ((@) (if ch = NUL then [] else [ch])) (pushvfstring fmt rest)
         | _ \<Rightarrow> None)
      else if d = CHR ''d'' then
        (case args of
           ArgD i # rest \<Rightarrow> map_option ((@) (dec_int i)) (pushvfstring fmt rest)
         | _ \<Rightarrow> None)
      else if d = CHR ''f'' \<or> d = CHR ''p'' then None
      else if d = CHR ''%'' then map_option ((#) CHR ''%'') (pushvfstring fmt args)
      else map_option (\<lambda>r. c # d # r) (pushvfstring fmt args))"

definition luaL_error :: "string \<Rightarrow> fmt_arg list \<Rightarrow> 'a exec" where
  "luaL_error fmt args =
     (case pushvfstring (c_str fmt) args of
        None \<Rightarrow> Undef
      | Some m \<Rightarrow> Raise (LString m))"

section \<open>The library gate\<close>

text \<open>
  The two loops of \<open>load_library\<close> have the same body, \<open>lua_pushnil\<close> followed by
  \<open>lua_setfield\<close> at an index: \<open>LUA_GLOBALSINDEX\<close> in the first, \<open>-2\<close> in the second.
  The list \<open>disable\<close> is the array without its closing \<open>NULL\<close>.
\<close>

fun clear_fields :: "engine \<Rightarrow> int \<Rightarrow> string list \<Rightarrow> lua_State \<Rightarrow> unit exec \<times> lua_State" where
  "clear_fields eng idx [] L = (Return (), L)"
| "clear_fields eng idx (d # ds) L =
     bind_exec (lua_setfield eng (lua_push LNil L) idx d) (\<lambda>u L'. clear_fields eng idx ds L')"

definition load_library ::
  "engine \<Rightarrow> lua_State \<Rightarrow> string \<Rightarrow> lua_CFunction \<Rightarrow> string list \<Rightarrow> unit exec \<times> lua_State" where
  "load_library eng L table f disable =
     bind_exec (lua_call_0_1 eng f L) (\<lambda>u L1.
       if strlen table = 0 then clear_fields eng LUA_GLOBALSINDEX disable L1
       else
         bind_exec (clear_fields eng (- 2) disable L1) (\<lambda>u L2.
           lua_setmetatable (lua_newtable L2) (- 2)))"

section \<open>The require resolver\<close>

definition package_table :: string where
  "package_table = ''package''"

definition loaded_table :: string where
  "loaded_table = ''loaded''"

definition disable_none :: "string list" where
  "disable_none = []"

definition LUA_STRLIBNAME :: string where
  "LUA_STRLIBNAME = ''string''"

definition LUA_MATHLIBNAME :: string where
  "LUA_MATHLIBNAME = ''math''"

definition LUA_TABLIBNAME :: string where
  "LUA_TABLIBNAME = ''table''"

definition LUA_OSLIBNAME :: string where
  "LUA_OSLIBNAME = ''os''"

text \<open>
  Modelled from the spec: the names \<open>lsb_circular_buffer_table\<close>,
  \<open>lsb_bloom_filter_table\<close> and \<open>lsb_hyperloglog_table\<close> are defined in files that are
  not at hand; the values are the library names of the table of built-in libraries.
\<close>

definition lsb_circular_buffer_table :: string where
  "lsb_circular_buffer_table = ''circular_buffer''"

definition lsb_bloom_filter_table :: string where
  "lsb_bloom_filter_table = ''bloom_filter''"

definition lsb_hyperloglog_table :: string where
  "lsb_hyperloglog_table = ''hyperloglog''"

definition PATH_DELIMITER :: "libc \<Rightarrow> char" where
  "PATH_DELIMITER lc = (if win32 lc then CHR 0x5C else CHR ''/'')"

definition MAX_PATH :: int where
  "MAX_PATH = 255"

definition squote :: char where
  "squote = CHR 0x27"

text \<open>\<open>isalnum\<close> in the C locale.\<close>

definition isalnum :: "char \<Rightarrow> bool" where
  "isalnum c =
     (let n = (of_char c :: nat)
      in (48 \<le> n \<and> n \<le> 57) \<or> (65 \<le> n \<and> n \<le> 90) \<or> (97 \<le> n \<and> n \<le> 122))"

text \<open>
  The loop over \<open>name[i]\<close>: \<open>True\<close> when it runs to the end of the name, \<open>False\<close>
  when it stops at a character that is neither a letter, a digit nor an underscore.
\<close>

fun name_ok :: "string \<Rightarrow> bool" where
  "name_ok [] = True"
| "name_ok (c # cs) = (if \<not> isalnum c \<and> c \<noteq> CHR ''_'' then False else name_ok cs)"

text \<open>
  \<open>snprintf(fn, MAX_PATH, "%s%c%s.lua", ...)\<close>: the text asked for, the \<open>int\<close>
  returned (negative when the length is not an \<open>int\<close>) and what is stored in \<open>fn\<close>.
\<close>

definition path_text :: "libc \<Rightarrow> string \<Rightarrow> string \<Rightarrow> string" where
  "path_text lc root name = c_str root @ [PATH_DELIMITER lc] @ c_str name @ ''.lua''"

definition snprintf_path :: "libc \<Rightarrow> string \<Rightarrow> string \<Rightarrow> int \<times> string" where
  "snprintf_path lc root name =
     (let full = path_text lc root name
      in (if int (length full) > INT_MAX then - 1 else int (length full),
          take (nat (MAX_PATH - 1)) full))"

text \<open>The last branch of \<open>require_library\<close>: a module that is not built in.\<close>

definition require_external ::
  "libc \<Rightarrow> engine \<Rightarrow> ptr \<Rightarrow> lua_sandbox \<Rightarrow> string \<Rightarrow> lua_State \<Rightarrow> unit exec \<times> lua_State" where
  "require_external lc eng luserdata lsb name L =
     (if luserdata = NULL then
        (luaL_error ''require_library() invalid lightuserdata'' [], L)
      else
        case require_path lsb of
          None \<Rightarrow> (luaL_error ''require_library() external modules are disabled'' [], L)
        | Some root \<Rightarrow>
            if \<not> name_ok name then
              (luaL_error (''invalid module name '' @ [squote] @ ''%s'' @ [squote])
                 [ArgS (Some name)], L)
            else
              let pr = snprintf_path lc root name
              in if fst pr < 0 \<or> fst pr \<ge> MAX_PATH then
                   (luaL_error ''require_path exceeded %d'' [ArgD MAX_PATH], L)
                 else
                   (case luaL_dofile eng L (snd pr) of
                      (rc, L1) \<Rightarrow>
                        if rc \<noteq> 0 then
                          (luaL_error ''%s'' [ArgS (lua_tostring eng L1 (- 1))], L1)
                        else lua_setmetatable (lua_newtable L1) (- 2)))"

text \<open>The chain of \<open>strcmp\<close> tests.\<close>

definition require_load ::
  "libc \<Rightarrow> engine \<Rightarrow> ptr \<Rightarrow> lua_sandbox \<Rightarrow> string \<Rightarrow> lua_State \<Rightarrow> unit exec \<times> lua_State" where
  "require_load lc eng luserdata lsb name L =
     (if name = LUA_STRLIBNAME then load_library eng L name luaopen_string disable_none
      else if name = LUA_MATHLIBNAME then load_library eng L name luaopen_math disable_none
      else if name = LUA_TABLIBNAME then load_library eng L name luaopen_table disable_none
      else if name = LUA_OSLIBNAME then
        load_library eng L name luaopen_os
          [''execute'', ''exit'', ''remove'', ''rename'', ''setlocale'', ''tmpname'']
      else if name = lsb_circular_buffer_table then
        load_library eng L name luaopen_circular_buffer disable_none
      else if name = lsb_bloom_filter_table then
        load_library eng L name luaopen_bloom_filter disable_none
      else if name = lsb_hyperloglog_table then
        load_library eng L name luaopen_hyperloglog disable_none
      else if name = ''lpeg'' then load_library eng L name luaopen_lpeg disable_none
      else if name = ''pb'' then load_library eng L name luaopen_pb disable_none
      else if name = ''cjson'' then
        bind_exec
          (load_library eng L name luaopen_cjson_safe
             [''encode'', ''encode_sparse_array'', ''encode_max_depth'',
              ''encode_number_precision'', ''encode_keep_buffer'', ''encode_invalid_numbers''])
          (\<lambda>u L1. bind_exec (lua_pushvalue L1 (- 1)) (\<lambda>u L2.
             lua_setfield eng L2 LUA_GLOBALSINDEX name))
      else require_external lc eng luserdata lsb name L)"

text \<open>
  \<open>require_library\<close>. The result \<open>Return 1\<close> says that one value is returned, the
  value on top of the stack of the state that comes with it. \<open>luserdata\<close> is what
  \<open>lua_touserdata\<close> finds in the first upvalue, and \<open>lsb\<close> the sandbox it points to.
\<close>

definition require_library ::
  "libc \<Rightarrow> engine \<Rightarrow> ptr \<Rightarrow> lua_sandbox \<Rightarrow> lua_State \<Rightarrow> int exec \<times> lua_State" where
  "require_library lc eng luserdata lsb L0 =
     bind_exec (luaL_checkstring eng L0 1) (\<lambda>name L1.
     bind_exec (lua_getfield eng L1 LUA_GLOBALSINDEX package_table) (\<lambda>u L2.
       if \<not> lua_istable L2 (- 1) then
         (luaL_error ''%s table is missing'' [ArgS (Some package_table)], L2)
       else
     bind_exec (lua_getfield eng L2 (- 1) loaded_table) (\<lambda>u L3.
       if \<not> lua_istable L3 (- 1) then
         (luaL_error ''%s.%s table is missing''
            [ArgS (Some package_table), ArgS (Some loaded_table)], L3)
       else
     bind_exec (lua_getfield eng L3 (- 1) name) (\<lambda>u L4.
       if \<not> lua_isnil L4 (- 1) then (Return 1, L4)
       else
         let L5 = lua_pop L4 1;
             pos = lua_gettop L5
         in
     bind_exec (lua_setfield eng (lua_push (LBoolean True) L5) pos name) (\<lambda>u L6.
     bind_exec (require_load lc eng luserdata lsb name L6) (\<lambda>u L7.
     bind_exec (lua_pushvalue L7 (- 1)) (\<lambda>u L8.
     bind_exec (lua_setfield eng L8 pos name) (\<lambda>u L9.
       (Return 1, L9)))))))))"

section \<open>The guest function output\<close>

text \<open>
  One round of the loop of \<open>output\<close>: the \<open>switch\<close> on the type of argument \<open>i\<close>.
  The result is the new value of \<open>result\<close> with the states; \<open>None\<close> is a loop of
  \<open>appendf\<close> that does not end, \<open>Fault\<close> a write outside the buffer.
\<close>

definition set_output :: "lua_sandbox \<Rightarrow> output_data \<Rightarrow> lua_sandbox" where
  "set_output lsb out = lsb\<lparr>output' := out\<rparr>"

definition append_result ::
  "lua_State \<Rightarrow> lua_sandbox \<Rightarrow> (int \<times> output_data) res option
     \<Rightarrow> (int \<times> lua_State \<times> lua_sandbox) res option" where
  "append_result L lsb r =
     (case r of
        None \<Rightarrow> None
      | Some Fault \<Rightarrow> Some Fault
      | Some (Ret (rc, out)) \<Rightarrow> Some (Ret (if rc \<noteq> 0 then 1 else 0, L, set_output lsb out)))"

definition output_arg ::
  "libc \<Rightarrow> engine \<Rightarrow> lua_State \<Rightarrow> lua_sandbox \<Rightarrow> nat
     \<Rightarrow> (int \<times> lua_State \<times> lua_sandbox) res option" where
  "output_arg lc eng L lsb i =
     (case index2adr L (int i) of
        Some (LNumber x) \<Rightarrow>
          append_result L lsb (Some (Ret (serialize_double eng (output' lsb) x)))
      | Some (LString s) \<Rightarrow> append_result L lsb (appendf lc (output' lsb) s)
      | Some LNil \<Rightarrow> append_result L lsb (appends lc (output' lsb) ''nil'')
      | Some (LBoolean b) \<Rightarrow>
          append_result L lsb (appendf lc (output' lsb) (if b then ''true'' else ''false''))
      | Some (LTable r) \<Rightarrow>
          if \<not> malloc_ok lc (64 * sizeof_table_ref eng) then
            Some (Ret (1, L,
              lsb\<lparr>error_message :=
                    take (LSB_ERROR_SIZE eng - 1) ''json table serialization out of memory''\<rparr>))
          else
            (case lua_pushvalue (lua_push LNil L) (int i) of
               (Return u, L1) \<Rightarrow>
                 (case serialize_kvp_as_json eng L1 lsb of
                    (rc, L2, lsb1) \<Rightarrow>
                      if rc = 0 then
                        (case appendc lc (output' lsb1) (CHR 0x0A) of
                           None \<Rightarrow> None
                         | Some Fault \<Rightarrow> Some Fault
                         | Some (Ret (rc', out)) \<Rightarrow>
                             Some (Ret (rc', lua_pop L2 2, set_output lsb1 out)))
                      else Some (Ret (rc, lua_pop L2 2, lsb1)))
             | _ \<Rightarrow> Some Fault)
      | Some (LUserdata u) \<Rightarrow>
          let ud = userdata_type eng L i
          in if ud \<noteq> NULL then
               append_result L lsb (Some (Ret (output_circular_buffer eng L ud (output' lsb))))
             else Some (Ret (0, L, lsb))
      | _ \<Rightarrow> Some (Ret (0, L, lsb)))"

text \<open>The loop \<open>for (int i = 1; result == 0 && i <= n; ++i)\<close>.\<close>

function output_loop ::
  "libc \<Rightarrow> engine \<Rightarrow> nat \<Rightarrow> nat \<Rightarrow> int \<Rightarrow> lua_State \<Rightarrow> lua_sandbox
     \<Rightarrow> (int \<times> lua_State \<times> lua_sandbox) res option" where
  "output_loop lc eng n i result L lsb =
     (if result = 0 \<and> i \<le> n then
        (case output_arg lc eng L lsb i of
           None \<Rightarrow> None
         | Some Fault \<Rightarrow> Some Fault
         | Some (Ret (result', L', lsb')) \<Rightarrow> output_loop lc eng n (i + 1) result' L' lsb')
      else Some (Ret (result, L, lsb)))"
  by pat_completeness auto
termination
  by (relation "measure (\<lambda>(lc, eng, n, i, result, L, lsb). n + 1 - i)") auto

text \<open>
  \<open>output\<close> itself (the name is a keyword of Isabelle, hence \<open>output_fn\<close>). The last
  call passes the error slot to \<open>luaL_error\<close> as the format.
\<close>

definition output_fn ::
  "libc \<Rightarrow> engine \<Rightarrow> ptr \<Rightarrow> lua_State \<Rightarrow> lua_sandbox
     \<Rightarrow> (int exec \<times> lua_State \<times> lua_sandbox) option" where
  "output_fn lc eng luserdata L lsb =
     (if NULL = luserdata then
        Some (luaL_error ''output() invalid lightuserdata'' [], L, lsb)
      else
        let n = nat (lua_gettop L)
        in if n = 0 then
             Some (luaL_error ''output() must have at least one argument'' [], L, lsb)
           else
             (case output_loop lc eng n 1 0 L lsb of
                None \<Rightarrow> None
              | Some Fault \<Rightarrow> Some (Undef, L, lsb)
              | Some (Ret (result, L1, lsb1)) \<Rightarrow>
                  let lsb2 = update_output_stats lsb1
                  in if result \<noteq> 0 then
                       if c_str (error_message lsb2) = [] then
                         Some (luaL_error ''output_limit exceeded'' [], L1, lsb2)
                       else Some (luaL_error (error_message lsb2) [], L1, lsb2)
                     else Some (Return 0, L1, lsb2)))"

text \<open>
  The loop of \<open>output\<close> as the specification words it: the arguments are taken from
  left to right, and the first one whose append fails ends the processing. This
  definition follows the specification; \<open>output_loop\<close> above follows the code.
\<close>

fun output_seq ::
  "libc \<Rightarrow> engine \<Rightarrow> nat list \<Rightarrow> lua_State \<Rightarrow> lua_sandbox
     \<Rightarrow> (int \<times> lua_State \<times> lua_sandbox) res option" where
  "output_seq lc eng [] L lsb = Some (Ret (0, L, lsb))"
| "output_seq lc eng (i # is) L lsb =
     (case output_arg lc eng L lsb i of
        None \<Rightarrow> None
      | Some Fault \<Rightarrow> Some Fault
      | Some (Ret (r, L', lsb')) \<Rightarrow>
          if r \<noteq> 0 then Some (Ret (r, L', lsb')) else output_seq lc eng is L' lsb')"

text \<open>
  The words of the specification about the gate: \<open>clear_denied ds t\<close> is the table
  \<open>t\<close> with every name of the deny list \<open>ds\<close> set to nil, and the marker is a table
  with no entry and no metatable.
\<close>

definition clear_denied :: "string list \<Rightarrow> ltable \<Rightarrow> ltable" where
  "clear_denied ds t = t\<lparr>tfields := (\<lambda>k. if k \<in> set ds then LNil else tfields t k)\<rparr>"

definition empty_table :: ltable where
  "empty_table = \<lparr>tfields = (\<lambda>k. LNil), metatable = None\<rparr>"

text \<open>
  The tables \<open>package\<close> (reference \<open>p\<close>) and \<open>package.loaded\<close> (reference \<open>l\<close>)
  are in place in the engine state \<open>L\<close>.
\<close>

definition package_ready :: "lua_State \<Rightarrow> nat \<Rightarrow> nat \<Rightarrow> bool" where
  "package_ready L p l =
     (globals L < length (tables L)
      \<and> tfields (tables L ! globals L) package_table = LTable p
      \<and> p < length (tables L)
      \<and> tfields (tables L ! p) loaded_table = LTable l
      \<and> l < length (tables L))"

text \<open>The names the chain of \<open>strcmp\<close> tests of \<open>require_library\<close> knows.\<close>

definition builtin_libraries :: "string list" where
  "builtin_libraries =
     [LUA_STRLIBNAME, LUA_MATHLIBNAME, LUA_TABLIBNAME, LUA_OSLIBNAME,
      lsb_circular_buffer_table, lsb_bloom_filter_table, lsb_hyperloglog_table,
      ''lpeg'', ''pb'', ''cjson'']"

text \<open>
  The state in which the module is looked for: \<open>package\<close> and \<open>package.loaded\<close> are
  on the stack and \<open>package.loaded[name]\<close> holds the mark \<open>true\<close>.
\<close>

definition marked :: "lua_State \<Rightarrow> nat \<Rightarrow> nat \<Rightarrow> string \<Rightarrow> lua_State" where
  "marked L p l name =
     L\<lparr>stack := stack L @ [LTable p, LTable l],
       tables := (tables L)[l := (tables L ! l)
                   \<lparr>tfields := (tfields (tables L ! l))(name := LBoolean True)\<rparr>]\<rparr>"

section \<open>The invariants of the quota table\<close>

text \<open>
  The invariant of the specification, for the two resources this file keeps counters
  of: \<open>CURRENT \<le> MAXIMUM\<close>, and \<open>CURRENT \<le> LIMIT\<close> when \<open>LIMIT\<close> is not zero.
\<close>

definition quota_inv :: "lua_sandbox \<Rightarrow> bool" where
  "quota_inv lsb =
     (usage lsb LSB_UT_MEMORY LSB_US_CURRENT \<le> usage lsb LSB_UT_MEMORY LSB_US_MAXIMUM
      \<and> (usage lsb LSB_UT_MEMORY LSB_US_LIMIT \<noteq> 0 \<longrightarrow>
            usage lsb LSB_UT_MEMORY LSB_US_CURRENT \<le> usage lsb LSB_UT_MEMORY LSB_US_LIMIT)
      \<and> usage lsb LSB_UT_OUTPUT LSB_US_CURRENT \<le> usage lsb LSB_UT_OUTPUT LSB_US_MAXIMUM
      \<and> (usage lsb LSB_UT_OUTPUT LSB_US_LIMIT \<noteq> 0 \<longrightarrow>
            usage lsb LSB_UT_OUTPUT LSB_US_CURRENT \<le> usage lsb LSB_UT_OUTPUT LSB_US_LIMIT))"

text \<open>
  The invariant of the output buffer: \<open>pos \<le> size\<close>, the region has \<open>size\<close> bytes,
  and \<open>size\<close> is not above a ceiling that is not zero.
\<close>

definition out_inv :: "output_data \<Rightarrow> bool" where
  "out_inv out =
     (pos out \<le> size' out \<and> length (data out) = unat (size' out)
      \<and> (maxsize out \<noteq> 0 \<longrightarrow> size' out \<le> maxsize out))"

text \<open>
  The sandbox is created outside this file. \<open>output_limit_ok\<close> says what the creation
  is taken to establish: the buffer is well-formed and its ceiling is the output limit
  of the quota table.
\<close>

definition output_limit_ok :: "lua_sandbox \<Rightarrow> bool" where
  "output_limit_ok lsb =
     (out_inv (output' lsb)
      \<and> maxsize (output' lsb) = ucast (usage lsb LSB_UT_OUTPUT LSB_US_LIMIT))"

text \<open>
  What is taken of the serializers that live in other files: they keep the ceiling of
  the buffer and its invariant, and the JSON serializer, which is handed the whole
  sandbox, leaves the quota table alone.
\<close>

definition output_keeps :: "output_data \<Rightarrow> output_data \<Rightarrow> bool" where
  "output_keeps out out' = (maxsize out' = maxsize out \<and> (out_inv out \<longrightarrow> out_inv out'))"

text \<open>
  The same for a call that may fault: said of the buffer it returns, when it returns.
\<close>

definition keeps_on_return :: "output_data \<Rightarrow> (int \<times> output_data) res \<Rightarrow> bool" where
  "keeps_on_return out y = (\<forall>r out'. y = Ret (r, out') \<longrightarrow> output_keeps out out')"

definition serializers_ok :: "engine \<Rightarrow> bool" where
  "serializers_ok eng =
     ((\<forall>out x. output_keeps out (snd (serialize_double eng out x)))
      \<and> (\<forall>L p out. output_keeps out (snd (output_circular_buffer eng L p out)))
      \<and> (\<forall>L lsb. usage (snd (snd (serialize_kvp_as_json eng L lsb))) = usage lsb
                  \<and> output_keeps (output' lsb)
                       (output' (snd (snd (serialize_kvp_as_json eng L lsb))))))"

section \<open>Example states\<close>

text \<open>Concrete states on which the theorems below are instantiated.\<close>

definition example_output :: output_data where
  "example_output = \<lparr>maxsize = 8, size' = 4, pos = 0, data = [NUL, NUL, NUL, NUL]\<rparr>"

definition example_usage :: "lsb_usage_type \<Rightarrow> lsb_usage_stat \<Rightarrow> unsigned" where
  "example_usage =
     (\<lambda>t s. 0)
       (LSB_UT_MEMORY :=
          (\<lambda>s. 0)(LSB_US_LIMIT := 100, LSB_US_CURRENT := 40, LSB_US_MAXIMUM := 60),
        LSB_UT_OUTPUT := (\<lambda>s. 0)(LSB_US_LIMIT := 8))"

definition example_sandbox :: lua_sandbox where
  "example_sandbox =
     \<lparr>lua = Some 1, state = LSB_RUNNING, output' = example_output, require_path = None,
      usage = example_usage, error_message = []\<rparr>"

definition example_libc :: libc where
  "example_libc = \<lparr>win32 = False, malloc_ok = (\<lambda>n. True), junk = CHR ''?''\<rparr>"

definition example_full :: output_data where
  "example_full = \<lparr>maxsize = 4, size' = 4, pos = 4, data = ''abcd''\<rparr>"

text \<open>
  An engine state with the tables \<open>package\<close> and \<open>package.loaded\<close> in place: table 0
  is the table of globals, table 1 is \<open>package\<close>, table 2 is \<open>package.loaded\<close>.
\<close>

definition example_lua :: lua_State where
  "example_lua =
     \<lparr>stack = [],
      tables = [\<lparr>tfields = (\<lambda>k. LNil)(''package'' := LTable 1), metatable = None\<rparr>,
                \<lparr>tfields = (\<lambda>k. LNil)(''loaded'' := LTable 2), metatable = None\<rparr>,
                \<lparr>tfields = (\<lambda>k. LNil), metatable = None\<rparr>],
      globals = 0,
      type_metatable = (\<lambda>t. None),
      udata_metatable = (\<lambda>u. None),
      events = []\<rparr>"

text \<open>
  Collaborators for the examples. Every loader makes a new table with the functions
  \<open>execute\<close> and \<open>clock\<close>. The chunk behind every file is
  \<open>local v = x; x = true; return v\<close>. The JSON serializer fails with a message of its
  own.
\<close>

definition example_engine :: engine where
  "example_engine =
     \<lparr>cfunction = (\<lambda>f L.
        (Inr (LTable (length (tables L))),
         L\<lparr>tables := tables L @
              [\<lparr>tfields = (\<lambda>k. LNil)(''execute'' := LFunction 1, ''clock'' := LFunction 2),
                metatable = None\<rparr>]\<rparr>)),
      dofile = (\<lambda>fn L.
        (Inr [tfields (tables L ! globals L) ''x''],
         L\<lparr>tables := (tables L)[globals L := (tables L ! globals L)
              \<lparr>tfields := (tfields (tables L ! globals L))(''x'' := LBoolean True)\<rparr>]\<rparr>)),
      number2str = (\<lambda>x. ''0''),
      typerror = (\<lambda>L narg. LString ''bad argument''),
      index_error = (\<lambda>v. LString ''attempt to index''),
      serialize_double = (\<lambda>out x. (0, out)),
      serialize_kvp_as_json = (\<lambda>L lsb. (1, L, lsb\<lparr>error_message := ''circular reference''\<rparr>)),
      userdata_type = (\<lambda>L i. NULL),
      output_circular_buffer = (\<lambda>L p out. (0, out)),
      sizeof_table_ref = 16,
      LSB_ERROR_SIZE = 256\<rparr>"

text \<open>
  A call of \<open>output\<close> with four arguments on a buffer of at most 8 bytes, and the
  buffer after the first and after the second argument.
\<close>

definition example_lua_args :: lua_State where
  "example_lua_args = example_lua\<lparr>stack := [LNil, LNil, LNil, LString ''a'']\<rparr>"

definition example_out_nil :: output_data where
  "example_out_nil = \<lparr>maxsize = 8, size' = 4, pos = 3, data = ''nil'' @ [NUL]\<rparr>"

definition example_out_nilnil :: output_data where
  "example_out_nilnil = \<lparr>maxsize = 8, size' = 8, pos = 6, data = ''nilnil'' @ [NUL, CHR ''?'']\<rparr>"

text \<open>A sandbox whose buffer is full and whose error slot holds a message with a percent sign.\<close>

definition example_lua_nil :: lua_State where
  "example_lua_nil = example_lua\<lparr>stack := [LNil]\<rparr>"

definition example_sandbox_percent :: lua_sandbox where
  "example_sandbox_percent =
     example_sandbox\<lparr>output' := example_full, error_message := ''50%% used''\<rparr>"

text \<open>The engine state after a loader of \<open>example_engine\<close> has run on \<open>example_lua\<close>.\<close>

definition example_lua_os :: lua_State where
  "example_lua_os =
     example_lua\<lparr>tables := tables example_lua @
        [\<lparr>tfields = (\<lambda>k. LNil)(''execute'' := LFunction 1, ''clock'' := LFunction 2),
          metatable = None\<rparr>]\<rparr>"

text \<open>Calls of \<open>require\<close>: the argument on the stack, and sandboxes with a module root.\<close>

definition example_lua_bad :: lua_State where
  "example_lua_bad = example_lua\<lparr>stack := [LString ''a.b'']\<rparr>"

definition example_sandbox_root :: lua_sandbox where
  "example_sandbox_root = example_sandbox\<lparr>require_path := Some ''/mods''\<rparr>"

definition example_lua_mod :: lua_State where
  "example_lua_mod = example_lua\<lparr>stack := [LString ''mod'']\<rparr>"

definition example_sandbox_long :: lua_sandbox where
  "example_sandbox_long = example_sandbox\<lparr>require_path := Some (replicate 250 (CHR ''r''))\<rparr>"

definition example_lua_req_os :: lua_State where
  "example_lua_req_os = example_lua\<lparr>stack := [LString ''os'']\<rparr>"

text \<open>The engine state after \<open>require("mod")\<close> has executed the chunk of \<open>example_engine\<close> once.\<close>

definition example_lua_after_mod :: lua_State where
  "example_lua_after_mod =
     \<lparr>stack = [LString ''mod'', LTable 1, LTable 2, LNil],
      tables = [\<lparr>tfields = (\<lambda>k. LNil)(''package'' := LTable 1, ''x'' := LBoolean True),
                  metatable = None\<rparr>,
                \<lparr>tfields = (\<lambda>k. LNil)(''loaded'' := LTable 2), metatable = None\<rparr>,
                \<lparr>tfields = (\<lambda>k. LNil)(''mod'' := LNil), metatable = None\<rparr>,
                \<lparr>tfields = (\<lambda>k. LNil), metatable = None\<rparr>],
      globals = 0,
      type_metatable = (\<lambda>t. None)(LUA_TNIL := Some 3),
      udata_metatable = (\<lambda>u. None),
      events = [DoFile ''/mods/mod.lua'']\<rparr>"

text \<open>
  A name with a zero byte in it, a call of \<open>require\<close> with that name, and the same call
  in a state where \<open>package.loaded\<close> holds a value under that name.
\<close>

definition example_nul_name :: string where
  "example_nul_name = ''mod'' @ [NUL] @ ''../x''"

definition example_lua_nul :: lua_State where
  "example_lua_nul = example_lua\<lparr>stack := [LString example_nul_name]\<rparr>"

definition example_lua_nul_cached :: lua_State where
  "example_lua_nul_cached =
     example_lua\<lparr>stack := [LString example_nul_name],
       tables := [\<lparr>tfields = (\<lambda>k. LNil)(''package'' := LTable 1), metatable = None\<rparr>,
                  \<lparr>tfields = (\<lambda>k. LNil)(''loaded'' := LTable 2), metatable = None\<rparr>,
                  \<lparr>tfields = (\<lambda>k. LNil)(example_nul_name := LBoolean True),
                    metatable = None\<rparr>]\<rparr>"

text \<open>
  Calls of \<open>require("a.b")\<close> in an engine state without the global \<open>package\<close>, and in
  one where \<open>package\<close> has no field \<open>loaded\<close>.
\<close>

definition example_lua_no_package :: lua_State where
  "example_lua_no_package =
     example_lua\<lparr>stack := [LString ''a.b''],
       tables := [\<lparr>tfields = (\<lambda>k. LNil), metatable = None\<rparr>]\<rparr>"

definition example_lua_no_loaded :: lua_State where
  "example_lua_no_loaded =
     example_lua\<lparr>stack := [LString ''a.b''],
       tables := [\<lparr>tfields = (\<lambda>k. LNil)(''package'' := LTable 1), metatable = None\<rparr>,
                  \<lparr>tfields = (\<lambda>k. LNil), metatable = None\<rparr>]\<rparr>"

text \<open>
  An engine whose module files hold the chunk
  \<open>local m = {}; package.loaded = m; return m\<close>, and the engine state after
  \<open>require("mod")\<close> has executed that chunk once.
\<close>

definition example_engine_swap :: engine where
  "example_engine_swap =
     example_engine\<lparr>dofile := (\<lambda>fn L.
        case tfields (tables L ! globals L) ''package'' of
          LTable p \<Rightarrow>
            (Inr [LTable (length (tables L))],
             L\<lparr>tables := (tables L)[p := (tables L ! p)
                  \<lparr>tfields := (tfields (tables L ! p))(''loaded'' := LTable (length (tables L)))\<rparr>]
                  @ [\<lparr>tfields = (\<lambda>k. LNil), metatable = None\<rparr>]\<rparr>)
        | v \<Rightarrow> (Inl (index_error example_engine v), L))\<rparr>"

definition example_lua_after_swap :: lua_State where
  "example_lua_after_swap =
     \<lparr>stack = [LString ''mod'', LTable 1, LTable 2, LTable 3],
      tables = [\<lparr>tfields = (\<lambda>k. LNil)(''package'' := LTable 1), metatable = None\<rparr>,
                \<lparr>tfields = (\<lambda>k. LNil)(''loaded'' := LTable 3), metatable = None\<rparr>,
                \<lparr>tfields = (\<lambda>k. LNil)(''mod'' := LTable 3), metatable = None\<rparr>,
                \<lparr>tfields = (\<lambda>k. LNil), metatable = Some 4\<rparr>,
                \<lparr>tfields = (\<lambda>k. LNil), metatable = None\<rparr>],
      globals = 0,
      type_metatable = (\<lambda>t. None),
      udata_metatable = (\<lambda>u. None),
      events = [DoFile ''/mods/mod.lua'']\<rparr>"

text \<open>
  A sandbox with a memory limit of 1 GiB and nothing allocated, a C library that grants
  every request, and the sandbox after three calls of the allocator: a block of 1 GiB
  is allocated, a block of 3 GiB is allocated, the first block is freed.
\<close>

definition example_fresh :: lua_sandbox where
  "example_fresh =
     example_sandbox\<lparr>usage := (\<lambda>t s. 0)(LSB_UT_MEMORY := (\<lambda>s. 0)(LSB_US_LIMIT := 1073741824))\<rparr>"

definition example_realloc :: "ptr \<Rightarrow> size_t \<Rightarrow> ptr" where
  "example_realloc p n = (if n = 1073741824 then 4096 else 2147483648)"

definition example_after_first :: lua_sandbox where
  "example_after_first =
     fst (snd (memory_manager example_realloc example_fresh 0 0 1073741824))"

definition example_after_second :: lua_sandbox where
  "example_after_second =
     fst (snd (memory_manager example_realloc example_after_first 0 0 3221225472))"

definition example_after_free :: lua_sandbox where
  "example_after_free =
     fst (snd (memory_manager example_realloc example_after_second 4096 1073741824 0))"

section \<open>The allocation interposer: what a call does\<close>

lemma usage_set_usage:
  "usage (set_usage t s v lsb) t' s' = (if t' = t \<and> s' = s then v else usage lsb t' s')"
  by (simp add: set_usage_def)

lemma set_usage_fields:
  "lua (set_usage t s v lsb) = lua lsb"
  "state (set_usage t s v lsb) = state lsb"
  "output' (set_usage t s v lsb) = output' lsb"
  "require_path (set_usage t s v lsb) = require_path lsb"
  "error_message (set_usage t s v lsb) = error_message lsb"
  by (simp_all add: set_usage_def)

lemma memory_manager_free:
  "memory_manager realloc lsb p osize 0 =
     (NULL, set_usage LSB_UT_MEMORY LSB_US_CURRENT
              (usage lsb LSB_UT_MEMORY LSB_US_CURRENT - ucast osize) lsb, [Free p])"
  by (simp add: memory_manager_def)

text \<open>
  What a call does, in the arithmetic of the machine. A request with \<open>nsize = 0\<close> frees
  the block, takes \<open>osize\<close>, cut to the width of the counter, from \<open>CURRENT[MEMORY]\<close>
  and returns null. A request with \<open>nsize > 0\<close> forms \<open>CURRENT + nsize - osize\<close> in
  \<open>size_t\<close> and cuts it to the width of the counter: that is \<open>projected\<close>. When the
  limit is not zero and \<open>projected\<close> is above it, null is returned, no library call is
  made and the sandbox is unchanged. Otherwise \<open>realloc\<close> is called; when it fails,
  null is returned and the sandbox is unchanged; when it succeeds, its result is
  returned, \<open>CURRENT[MEMORY]\<close> becomes \<open>projected\<close>, \<open>MAXIMUM[MEMORY]\<close> becomes the
  larger of itself and \<open>projected\<close>, and nothing else changes.
\<close>

lemma memory_manager_cases:
  "(nsize = 0 \<longrightarrow>
      memory_manager realloc lsb p osize nsize =
        (NULL,
         lsb\<lparr>usage := (usage lsb)(LSB_UT_MEMORY := (usage lsb LSB_UT_MEMORY)
                  (LSB_US_CURRENT := usage lsb LSB_UT_MEMORY LSB_US_CURRENT - ucast osize))\<rparr>,
         [Free p]))
   \<and> (nsize \<noteq> 0 \<and> usage lsb LSB_UT_MEMORY LSB_US_LIMIT \<noteq> 0
        \<and> projected lsb osize nsize > usage lsb LSB_UT_MEMORY LSB_US_LIMIT \<longrightarrow>
      memory_manager realloc lsb p osize nsize = (NULL, lsb, []))
   \<and> (nsize \<noteq> 0
        \<and> \<not> (usage lsb LSB_UT_MEMORY LSB_US_LIMIT \<noteq> 0
               \<and> projected lsb osize nsize > usage lsb LSB_UT_MEMORY LSB_US_LIMIT)
        \<and> realloc p nsize = NULL \<longrightarrow>
      memory_manager realloc lsb p osize nsize = (NULL, lsb, [Realloc p nsize]))
   \<and> (nsize \<noteq> 0
        \<and> \<not> (usage lsb LSB_UT_MEMORY LSB_US_LIMIT \<noteq> 0
               \<and> projected lsb osize nsize > usage lsb LSB_UT_MEMORY LSB_US_LIMIT)
        \<and> realloc p nsize \<noteq> NULL \<longrightarrow>
      memory_manager realloc lsb p osize nsize =
        (realloc p nsize,
         lsb\<lparr>usage := (usage lsb)(LSB_UT_MEMORY := (usage lsb LSB_UT_MEMORY)
                  (LSB_US_CURRENT := projected lsb osize nsize,
                   LSB_US_MAXIMUM := max (usage lsb LSB_UT_MEMORY LSB_US_MAXIMUM)
                                         (projected lsb osize nsize)))\<rparr>,
         [Realloc p nsize]))"
proof (intro conjI impI)
  assume "nsize = 0"
  then show "memory_manager realloc lsb p osize nsize =
        (NULL,
         lsb\<lparr>usage := (usage lsb)(LSB_UT_MEMORY := (usage lsb LSB_UT_MEMORY)
                  (LSB_US_CURRENT := usage lsb LSB_UT_MEMORY LSB_US_CURRENT - ucast osize))\<rparr>,
         [Free p])"
    by (simp add: memory_manager_def set_usage_def)
next
  assume "nsize \<noteq> 0 \<and> usage lsb LSB_UT_MEMORY LSB_US_LIMIT \<noteq> 0
        \<and> projected lsb osize nsize > usage lsb LSB_UT_MEMORY LSB_US_LIMIT"
  then show "memory_manager realloc lsb p osize nsize = (NULL, lsb, [])"
    by (auto simp add: memory_manager_def projected_def Let_def)
next
  assume "nsize \<noteq> 0
        \<and> \<not> (usage lsb LSB_UT_MEMORY LSB_US_LIMIT \<noteq> 0
               \<and> projected lsb osize nsize > usage lsb LSB_UT_MEMORY LSB_US_LIMIT)
        \<and> realloc p nsize = NULL"
  then show "memory_manager realloc lsb p osize nsize = (NULL, lsb, [Realloc p nsize])"
    by (auto simp add: memory_manager_def projected_def Let_def)
next
  assume a: "nsize \<noteq> 0
        \<and> \<not> (usage lsb LSB_UT_MEMORY LSB_US_LIMIT \<noteq> 0
               \<and> projected lsb osize nsize > usage lsb LSB_UT_MEMORY LSB_US_LIMIT)
        \<and> realloc p nsize \<noteq> NULL"
  have u: "(usage lsb)(LSB_UT_MEMORY := (usage lsb LSB_UT_MEMORY)(LSB_US_CURRENT := c))
             = (usage lsb)(LSB_UT_MEMORY := (usage lsb LSB_UT_MEMORY)
                  (LSB_US_CURRENT := c, LSB_US_MAXIMUM := usage lsb LSB_UT_MEMORY LSB_US_MAXIMUM))" for c
    by (simp add: fun_upd_idem)
  from a show "memory_manager realloc lsb p osize nsize =
        (realloc p nsize,
         lsb\<lparr>usage := (usage lsb)(LSB_UT_MEMORY := (usage lsb LSB_UT_MEMORY)
                  (LSB_US_CURRENT := projected lsb osize nsize,
                   LSB_US_MAXIMUM := max (usage lsb LSB_UT_MEMORY LSB_US_MAXIMUM)
                                         (projected lsb osize nsize)))\<rparr>,
         [Realloc p nsize])"
    apply (simp add: memory_manager_def projected_def Let_def set_usage_def max_def not_less)
    apply (intro conjI impI)
    apply (auto simp: fun_upd_idem fun_eq_iff)
    done
qed

lemma memory_manager_cases_example:
  "memory_manager (\<lambda>p n. 7) example_sandbox 0 10 0
     = (NULL,
        example_sandbox\<lparr>usage := (usage example_sandbox)(LSB_UT_MEMORY :=
            (usage example_sandbox LSB_UT_MEMORY)(LSB_US_CURRENT := 30))\<rparr>,
        [Free 0])
   \<and> memory_manager (\<lambda>p n. 7) example_sandbox 0 0 100 = (NULL, example_sandbox, [])
   \<and> memory_manager (\<lambda>p n. NULL) example_sandbox 0 0 10
       = (NULL, example_sandbox, [Realloc 0 10])
   \<and> memory_manager (\<lambda>p n. 7) example_sandbox 0 0 30
       = (7,
          example_sandbox\<lparr>usage := (usage example_sandbox)(LSB_UT_MEMORY :=
              (usage example_sandbox LSB_UT_MEMORY)
                (LSB_US_CURRENT := 70, LSB_US_MAXIMUM := 70))\<rparr>,
          [Realloc 0 30])"
  using
    memory_manager_cases [where nsize = 0 and realloc = "\<lambda>p n. 7" and lsb = example_sandbox
      and p = 0 and osize = 10]
    memory_manager_cases [where nsize = 100 and realloc = "\<lambda>p n. 7" and lsb = example_sandbox
      and p = 0 and osize = 0]
    memory_manager_cases [where nsize = 10 and realloc = "\<lambda>p n. NULL" and lsb = example_sandbox
      and p = 0 and osize = 0]
    memory_manager_cases [where nsize = 30 and realloc = "\<lambda>p n. 7" and lsb = example_sandbox
      and p = 0 and osize = 0]
  by (simp add: example_sandbox_def example_usage_def projected_def NULL_def)


text \<open>
  As long as the total \<open>CURRENT + nsize - osize\<close> fits the 32 bits of the counter,
  \<open>projected\<close> is that total.
\<close>

lemma projected_exact:
  assumes "unat osize \<le> unat (usage lsb LSB_UT_MEMORY LSB_US_CURRENT) + unat nsize"
    and "unat (usage lsb LSB_UT_MEMORY LSB_US_CURRENT) + unat nsize - unat osize < 2 ^ 32"
  shows "unat (projected lsb osize nsize)
           = unat (usage lsb LSB_UT_MEMORY LSB_US_CURRENT) + unat nsize - unat osize"
proof -
  let ?c = "usage lsb LSB_UT_MEMORY LSB_US_CURRENT"
  let ?n = "unat ?c + unat nsize - unat osize"
  have "(ucast ?c :: size_t) + nsize - osize = of_nat ?n"
    using assms(1) by (simp add: of_nat_diff)
  then have "projected lsb osize nsize = (of_nat ?n :: unsigned)"
    by (simp add: projected_def unsigned_of_nat word_of_nat_eq_iff del: of_nat_add of_nat_diff)
  then show ?thesis
    using assms(2) by (simp add: unat_of_nat del: of_nat_add of_nat_diff)
qed

text \<open>
  C1. The claim: a request with \<open>new_size > 0\<close> for which
  \<open>CURRENT[MEMORY] + new_size - old_size\<close> is above a limit that is not zero returns null
  without reallocating or changing a counter, and a request with \<open>new_size = 0\<close>
  lowers \<open>CURRENT[MEMORY]\<close> by \<open>old_size\<close>. The interposer does not do that when the
  total does not fit the counter. On the example sandbox (limit 100, 40 bytes in use) a
  request for \<open>2^32 + 10\<close> bytes has the total 4294967346, far above the limit; the
  interposer cuts the total to 50, calls \<open>realloc\<close>, returns the block and sets
  \<open>CURRENT[MEMORY]\<close> to 50. A free of 50 bytes leaves \<open>CURRENT[MEMORY]\<close> at
  4294967286.
\<close>

theorem memory_manager_grants_over_limit:
  "usage example_sandbox LSB_UT_MEMORY LSB_US_LIMIT = 100
   \<and> usage example_sandbox LSB_UT_MEMORY LSB_US_CURRENT = 40
   \<and> uint (usage example_sandbox LSB_UT_MEMORY LSB_US_CURRENT) + uint (4294967306 :: size_t)
        - uint (0 :: size_t) = 4294967346
   \<and> memory_manager (\<lambda>p n. 7) example_sandbox 0 0 4294967306
       = (7,
          example_sandbox\<lparr>usage := (usage example_sandbox)(LSB_UT_MEMORY :=
              (usage example_sandbox LSB_UT_MEMORY)(LSB_US_CURRENT := 50))\<rparr>,
          [Realloc 0 4294967306])
   \<and> memory_manager (\<lambda>p n. 7) example_sandbox 0 50 0
       = (NULL,
          example_sandbox\<lparr>usage := (usage example_sandbox)(LSB_UT_MEMORY :=
              (usage example_sandbox LSB_UT_MEMORY)(LSB_US_CURRENT := 4294967286))\<rparr>,
          [Free 0])"
proof -
  have w: "(4294967346 :: unsigned) = 50" "(- 10 :: unsigned) = 4294967286"
    by simp_all
  show ?thesis
    by (simp add: memory_manager_def Let_def set_usage_def example_sandbox_def example_usage_def
          NULL_def w)
qed

section \<open>Termination of a sandbox: what changes and what does not\<close>

lemma lua_close_usage:
  "usage (lua_close blocks lsb) t s =
     (if t = LSB_UT_MEMORY \<and> s = LSB_US_CURRENT
      then usage (lua_close blocks lsb) LSB_UT_MEMORY LSB_US_CURRENT
      else usage lsb t s)"
  by (induction blocks arbitrary: lsb) (auto simp: memory_manager_free usage_set_usage)

lemma lua_close_fields:
  "lua (lua_close blocks lsb) = lua lsb
   \<and> state (lua_close blocks lsb) = state lsb
   \<and> output' (lua_close blocks lsb) = output' lsb
   \<and> require_path (lua_close blocks lsb) = require_path lsb
   \<and> error_message (lua_close blocks lsb) = error_message lsb"
  by (induction blocks arbitrary: lsb) (auto simp: memory_manager_free set_usage_fields)

text \<open>
  C9. From any state, \<open>sandbox_terminate\<close> leaves the sandbox in the state
  \<open>LSB_TERMINATED\<close>, with no engine handle and with \<open>CURRENT[MEMORY]\<close> zero. Every
  other counter of the quota table, \<open>MAXIMUM[MEMORY]\<close> and the instruction and output
  counters among them, is what it was, and so are the output buffer, the module root
  and the error slot.
\<close>

theorem sandbox_terminate_frame:
  "state (sandbox_terminate blocks lsb) = LSB_TERMINATED
   \<and> lua (sandbox_terminate blocks lsb) = None
   \<and> usage (sandbox_terminate blocks lsb) LSB_UT_MEMORY LSB_US_CURRENT = 0
   \<and> (\<forall>t s. (t, s) \<noteq> (LSB_UT_MEMORY, LSB_US_CURRENT) \<longrightarrow>
         usage (sandbox_terminate blocks lsb) t s = usage lsb t s)
   \<and> output' (sandbox_terminate blocks lsb) = output' lsb
   \<and> require_path (sandbox_terminate blocks lsb) = require_path lsb
   \<and> error_message (sandbox_terminate blocks lsb) = error_message lsb"
proof (cases "lua lsb")
  case None
  then show ?thesis
    by (auto simp: sandbox_terminate_def Let_def usage_set_usage set_usage_fields)
next
  case (Some h)
  then show ?thesis
    using lua_close_usage [of blocks lsb]
    by (auto simp: sandbox_terminate_def Let_def usage_set_usage set_usage_fields
          lua_close_fields set_usage_def)
qed

theorem sandbox_terminate_frame_witness:
  "usage (sandbox_terminate [(8, 16), (24, 8)] example_sandbox) LSB_UT_MEMORY LSB_US_MAXIMUM = 60
   \<and> usage (sandbox_terminate [(8, 16), (24, 8)] example_sandbox) LSB_UT_MEMORY LSB_US_LIMIT = 100
   \<and> usage (sandbox_terminate [(8, 16), (24, 8)] example_sandbox) LSB_UT_MEMORY LSB_US_CURRENT = 0
   \<and> state (sandbox_terminate [(8, 16), (24, 8)] example_sandbox) = LSB_TERMINATED
   \<and> lua (sandbox_terminate [(8, 16), (24, 8)] example_sandbox) = None"
  using sandbox_terminate_frame [of "[(8, 16), (24, 8)]" example_sandbox]
  by (simp add: example_sandbox_def example_usage_def)

section \<open>The append primitives of the output buffer\<close>

lemma realloc_output_result:
  assumes "realloc_output lc out needed = Some (r, out1)"
  shows "(r = 1 \<and> out1 = out)
         \<or> (r = 0 \<and> pos out1 = pos out \<and> maxsize out1 = maxsize out
              \<and> length (data out1) = unat (size' out1))"
  using assms
  by (auto simp: realloc_output_def Let_def split: if_splits option.splits)

lemma write_at_Some:
  assumes "write_at d i bs = Some d'"
  shows "i + length bs \<le> length d" and "length d' = length d"
    and "take (length bs) (drop i d') = bs" and "take i d' = take i d"
    and "drop (i + length bs) d' = drop (i + length bs) d"
  using assms by (auto simp: write_at_def split: if_splits)

lemma write_at_nth:
  assumes "write_at d i bs = Some d'" and "k < length bs"
  shows "d' ! (i + k) = bs ! k"
  using assms by (auto simp: write_at_def nth_append split: if_splits)

lemma unat_strlen_needed:
  assumes "length (c_str s) + 1 < 2 ^ 64"
  shows "unat (strlen s + 1) = length (c_str s) + 1"
    and "strlen s + 1 - 1 = (of_nat (length (c_str s)) :: size_t)"
proof -
  have e: "strlen s + 1 = (of_nat (length (c_str s) + 1) :: size_t)"
    by (simp add: strlen_def)
  have "unat (of_nat (length (c_str s) + 1) :: size_t) = length (c_str s) + 1"
    using assms by (simp only: unat_of_nat) simp
  then show "unat (strlen s + 1) = length (c_str s) + 1"
    by (simp only: e)
  show "strlen s + 1 - 1 = (of_nat (length (c_str s)) :: size_t)"
    by (simp add: strlen_def)
qed

lemma unat_add_of_nat:
  fixes p :: size_t
  assumes "unat p + n < 2 ^ 64"
  shows "unat (p + of_nat n) = unat p + n"
proof -
  have "n < 2 ^ 64" using assms by simp
  then have "unat (of_nat n :: size_t) = n" by (simp add: unat_of_nat)
  then show ?thesis using assms by (simp add: unat_add_lem [THEN iffD1])
qed

lemma room_without_realloc:
  fixes p sz needed :: size_t
  assumes "p \<le> sz" and "\<not> sz - p < needed"
  shows "unat p + unat needed \<le> unat sz"
proof -
  have "unat (sz - p) = unat sz - unat p" using assms(1) by (simp add: unat_sub)
  moreover have "unat needed \<le> unat (sz - p)" using assms(2) by (simp add: word_le_nat_alt not_less)
  moreover have "unat p \<le> unat sz" using assms(1) by (simp add: word_le_nat_alt)
  ultimately show ?thesis by simp
qed

lemma appends_success:
  assumes le: "pos out \<le> size' out" and len: "length (c_str s) + 1 < 2 ^ 64"
    and ok: "appends lc out s = Some (Ret (0, out1))"
  shows "unat (pos out1) = unat (pos out) + length (c_str s)
         \<and> unat (pos out1) < length (data out1)
         \<and> data out1 ! unat (pos out1) = NUL
         \<and> take (length (c_str s)) (drop (unat (pos out)) (data out1)) = c_str s"
proof -
  let ?needed = "strlen s + 1"
  let ?bs = "c_str s @ [NUL]"
  have un: "unat ?needed = length (c_str s) + 1" using len by (rule unat_strlen_needed)
  have tk: "take (unat ?needed) ?bs = ?bs" by (simp add: un)
  obtain out0 d where
      pre: "(if size' out - pos out < ?needed then realloc_output lc out ?needed else Some (0, out))
              = Some (0, out0)"
    and wr: "write_at (data out0) (unat (pos out0)) ?bs = Some d"
    and res: "out1 = out0\<lparr>data := d, pos := pos out0 + (?needed - 1)\<rparr>"
    using ok tk
    by (auto simp: appends_def Let_def split: option.splits if_splits prod.splits)
  have p0: "pos out0 = pos out"
    using pre realloc_output_result [of lc out ?needed 0 out0] by (auto split: if_splits)
  have bound: "unat (pos out) + length (c_str s) + 1 < 2 ^ 64"
  proof (cases "size' out - pos out < ?needed")
    case True
    then have "length (data out0) = unat (size' out0)"
      using pre realloc_output_result [of lc out ?needed 0 out0] by auto
    moreover have "unat (pos out0) + length ?bs \<le> length (data out0)"
      using wr by (rule write_at_Some)
    moreover have "unat (size' out0) < 2 ^ 64" using unsigned_less [of "size' out0"] by simp
    ultimately show ?thesis using p0 by simp
  next
    case False
    then have "unat (pos out) + unat ?needed \<le> unat (size' out)"
      using le by (intro room_without_realloc) auto
    moreover have "unat (size' out) < 2 ^ 64" using unsigned_less [of "size' out"] by simp
    ultimately show ?thesis using un by simp
  qed
  have p1: "pos out1 = pos out + of_nat (length (c_str s))"
    using res p0 unat_strlen_needed(2) [OF len] by simp
  have u1: "unat (pos out1) = unat (pos out) + length (c_str s)"
    unfolding p1 using bound by (intro unat_add_of_nat) simp
  have d1: "data out1 = d" using res by simp
  have lend: "unat (pos out) + length ?bs \<le> length d"
    using write_at_Some(1,2) [OF wr] p0 by simp
  have nul: "d ! (unat (pos out0) + length (c_str s)) = ?bs ! length (c_str s)"
    using wr by (rule write_at_nth) simp
  have cp: "take (length ?bs) (drop (unat (pos out0)) d) = ?bs"
    using wr by (rule write_at_Some)
  have "take (length (c_str s)) (take (length ?bs) (drop (unat (pos out0)) d)) = c_str s"
    unfolding cp by simp
  then have cp': "take (length (c_str s)) (drop (unat (pos out)) d) = c_str s"
    using p0 by (simp add: min_def)
  show ?thesis using u1 d1 lend nul p0 cp' by simp
qed

lemma appends_failure:
  assumes "appends lc out s = Some (Ret (r, out1))" and "r \<noteq> 0"
  shows "r = 1 \<and> out1 = out"
proof -
  let ?needed = "strlen s + 1"
  obtain r0 out0 where
      pre: "(if size' out - pos out < ?needed then realloc_output lc out ?needed else Some (0, out))
              = Some (r0, out0)"
    using assms(1) by (auto simp: appends_def Let_def split: option.splits prod.splits)
  have "r0 \<noteq> 0"
    using assms pre by (auto simp: appends_def Let_def split: option.splits if_splits)
  then have "r0 = 1 \<and> out0 = out"
    using pre realloc_output_result [of lc out ?needed r0 out0] by (auto split: if_splits)
  then show ?thesis
    using assms pre by (auto simp: appends_def Let_def split: option.splits if_splits)
qed

lemma appendc_success:
  assumes le: "pos out \<le> size' out"
    and ok: "appendc lc out ch = Some (Ret (0, out1))"
  shows "unat (pos out1) = unat (pos out) + 1
         \<and> unat (pos out1) < length (data out1)
         \<and> data out1 ! unat (pos out1) = NUL
         \<and> data out1 ! unat (pos out) = ch"
proof -
  obtain out0 d1 d2 where
      pre: "(if size' out - pos out < 2 then realloc_output lc out 2 else Some (0, out))
              = Some (0, out0)"
    and wr1: "write_at (data out0) (unat (pos out0)) [ch] = Some d1"
    and wr2: "write_at d1 (unat (pos out0 + 1)) [NUL] = Some d2"
    and res: "out1 = out0\<lparr>data := d2, pos := pos out0 + 1\<rparr>"
    using ok
    by (auto simp: appendc_def Let_def split: option.splits if_splits prod.splits)
  have p0: "pos out0 = pos out"
    using pre realloc_output_result [of lc out 2 0 out0] by (auto split: if_splits)
  have l1: "length d1 = length (data out0)" using wr1 by (rule write_at_Some)
  have in1: "unat (pos out0) + 1 \<le> length (data out0)"
    using write_at_Some(1) [OF wr1] by simp
  have bound: "unat (pos out) + 1 < 2 ^ 64"
  proof (cases "size' out - pos out < 2")
    case True
    then have "length (data out0) = unat (size' out0)"
      using pre realloc_output_result [of lc out 2 0 out0] by auto
    moreover have "unat (size' out0) < 2 ^ 64" using unsigned_less [of "size' out0"] by simp
    ultimately show ?thesis using in1 p0 by simp
  next
    case False
    then have "unat (pos out) + unat (2 :: size_t) \<le> unat (size' out)"
      using le by (intro room_without_realloc) auto
    moreover have "unat (size' out) < 2 ^ 64" using unsigned_less [of "size' out"] by simp
    ultimately show ?thesis by simp
  qed
  have u1: "unat (pos out + 1) = unat (pos out) + 1"
    using unat_add_of_nat [of "pos out" 1] bound by simp
  have nul: "d2 ! (unat (pos out0 + 1) + 0) = [NUL] ! 0"
    using wr2 by (rule write_at_nth) simp
  have l2: "unat (pos out0 + 1) + 1 \<le> length d2"
    using write_at_Some(1,2) [OF wr2] by simp
  have c1: "d1 ! (unat (pos out0) + 0) = [ch] ! 0"
    using wr1 by (rule write_at_nth) simp
  have keep: "take (unat (pos out0 + 1)) d2 = take (unat (pos out0 + 1)) d1"
    using wr2 by (rule write_at_Some)
  have "d2 ! unat (pos out0) = d1 ! unat (pos out0)"
  proof -
    have "unat (pos out0) < unat (pos out0 + 1)" using u1 p0 by simp
    then have "take (unat (pos out0 + 1)) d2 ! unat (pos out0) = d2 ! unat (pos out0)"
      and "take (unat (pos out0 + 1)) d1 ! unat (pos out0) = d1 ! unat (pos out0)"
      by simp_all
    then show ?thesis using keep by simp
  qed
  then show ?thesis using res p0 u1 nul l2 c1 by simp
qed

lemma appendc_failure:
  assumes "appendc lc out ch = Some (Ret (r, out1))" and "r \<noteq> 0"
  shows "r = 1 \<and> out1 = out"
proof -
  obtain r0 out0 where
      pre: "(if size' out - pos out < 2 then realloc_output lc out 2 else Some (0, out))
              = Some (r0, out0)"
    using assms(1) by (auto simp: appendc_def Let_def split: option.splits prod.splits)
  have "r0 \<noteq> 0"
    using assms pre by (auto simp: appendc_def Let_def split: option.splits if_splits)
  then have "r0 = 1 \<and> out0 = out"
    using pre realloc_output_result [of lc out 2 r0 out0] by (auto split: if_splits)
  then show ?thesis
    using assms pre by (auto simp: appendc_def Let_def split: option.splits if_splits)
qed


lemma appends_example_fits: "appends example_libc example_output ''ab''
      = Some (Ret (0, example_output\<lparr>data := ''ab'' @ [NUL, NUL], pos := 2\<rparr>))"
  by (simp add: appends_def example_output_def example_libc_def strlen_def c_str_def NUL_def
          write_at_def)

lemma grow_newsize_example: "grow_newsize 6 0 8 = Some 8"
  by (subst grow_newsize.simps) simp

lemma appends_example_grows: "appends example_libc example_output ''abcde''
      = Some (Ret (0, example_output\<lparr>data := ''abcde'' @ [NUL, CHR ''?'', CHR ''?''], size' := 8, pos := 5\<rparr>))"
proof -
  have r: "replicate 4 c = [c, c, c, c]" for c :: char
    by (simp add: eval_nat_numeral)
  show ?thesis
    by (simp add: appends_def example_output_def example_libc_def strlen_def c_str_def NUL_def
          write_at_def realloc_output_def grow_newsize_example r)
qed

lemma appends_example_full: "appends example_libc example_full ''x'' = Some (Ret (1, example_full))"
  by (simp add: appends_def example_full_def example_libc_def strlen_def c_str_def NUL_def
          write_at_def realloc_output_def)

lemma appendc_example_fits: "appendc example_libc example_output (CHR ''x'')
      = Some (Ret (0, example_output\<lparr>data := ''x'' @ [NUL, NUL, NUL], pos := 1\<rparr>))"
  by (simp add: appendc_def example_output_def example_libc_def NUL_def write_at_def)

lemma appendc_example_full: "appendc example_libc example_full (CHR ''x'') = Some (Ret (1, example_full))"
  by (simp add: appendc_def example_full_def example_libc_def NUL_def
          write_at_def realloc_output_def)

text \<open>
  C6. In a buffer with \<open>pos \<le> size\<close>, an \<open>appends\<close> that returns 0 has moved
  \<open>pos\<close> forward by exactly the length of the string, the string stands in the buffer
  from the old \<open>pos\<close> on, and the byte at the new \<open>pos\<close> is zero (and inside the
  region); an \<open>appendc\<close> that returns 0 has moved \<open>pos\<close> forward by exactly 1, the
  character stands at the old \<open>pos\<close> and a zero at the new one. A call that returns
  anything else returns 1 and leaves the buffer, \<open>pos\<close> included, as it was. The
  string is a C string of the address space: with its closing zero it is shorter than
  \<open>2 ^ 64\<close> bytes.
\<close>

theorem append_advances:
  assumes "pos out \<le> size' out" and "length (c_str s) + 1 < 2 ^ 64"
  shows "(appends lc out s = Some (Ret (0, outs)) \<longrightarrow>
            unat (pos outs) = unat (pos out) + length (c_str s)
            \<and> unat (pos outs) < length (data outs)
            \<and> data outs ! unat (pos outs) = NUL
            \<and> take (length (c_str s)) (drop (unat (pos out)) (data outs)) = c_str s)
         \<and> (appends lc out s = Some (Ret (r, outs)) \<and> r \<noteq> 0 \<longrightarrow> r = 1 \<and> outs = out)
         \<and> (appendc lc out ch = Some (Ret (0, outc)) \<longrightarrow>
              unat (pos outc) = unat (pos out) + 1
              \<and> unat (pos outc) < length (data outc)
              \<and> data outc ! unat (pos outc) = NUL
              \<and> data outc ! unat (pos out) = ch)
         \<and> (appendc lc out ch = Some (Ret (r, outc)) \<and> r \<noteq> 0 \<longrightarrow> r = 1 \<and> outc = out)"
  using appends_success [OF assms, of lc outs] appends_failure [of lc out s r outs]
    appendc_success [OF assms(1), of lc ch outc] appendc_failure [of lc out ch r outc]
  by blast

theorem append_advances_witness:
  "pos example_output \<le> size' example_output
   \<and> length (c_str ''abcde'') + 1 < 2 ^ 64
   \<and> appends example_libc example_output ''abcde''
       = Some (Ret (0, example_output\<lparr>data := ''abcde'' @ [NUL, CHR ''?'', CHR ''?''],
                                        size' := 8, pos := 5\<rparr>))
   \<and> unat (pos (example_output\<lparr>data := ''abcde'' @ [NUL, CHR ''?'', CHR ''?''],
                                 size' := 8, pos := 5\<rparr>))
       = unat (pos example_output) + length (c_str ''abcde'')
   \<and> appendc example_libc example_output (CHR ''x'')
       = Some (Ret (0, example_output\<lparr>data := ''x'' @ [NUL, NUL, NUL], pos := 1\<rparr>))
   \<and> unat (pos (example_output\<lparr>data := ''x'' @ [NUL, NUL, NUL], pos := 1\<rparr>))
       = unat (pos example_output) + 1
   \<and> pos example_full \<le> size' example_full
   \<and> appends example_libc example_full ''x'' = Some (Ret (1, example_full))
   \<and> appendc example_libc example_full (CHR ''x'') = Some (Ret (1, example_full))"
proof -
  have h1: "pos example_output \<le> size' example_output"
    by (simp add: example_output_def)
  have h2: "length (c_str ''abcde'') + 1 < 2 ^ 64"
    by (simp add: c_str_def NUL_def)
  have h3: "pos example_full \<le> size' example_full"
    by (simp add: example_full_def)
  have h4: "length (c_str ''x'') + 1 < 2 ^ 64"
    by (simp add: c_str_def NUL_def)
  note a = append_advances [where out = example_output and s = "''abcde''"
      and lc = example_libc and ch = "CHR ''x''" and r = 0
      and outs = "example_output\<lparr>data := ''abcde'' @ [NUL, CHR ''?'', CHR ''?''],
                                  size' := 8, pos := 5\<rparr>"
      and outc = "example_output\<lparr>data := ''x'' @ [NUL, NUL, NUL], pos := 1\<rparr>", OF h1 h2]
  note b = append_advances [where out = example_full and s = "''x''"
      and lc = example_libc and ch = "CHR ''x''" and r = 1
      and outs = example_full and outc = example_full, OF h3 h4]
  show ?thesis
    using a b h1 h2 h3 appends_example_grows appendc_example_fits appends_example_full
      appendc_example_full
    by simp
qed

section \<open>Facts about the C interface of the engine\<close>

lemma bind_exec_Return [simp]: "bind_exec (Return x, L) f = f x L"
  by (simp add: bind_exec_def)

lemma bind_exec_Raise [simp]: "bind_exec (Raise e, L) f = (Raise e, L)"
  by (simp add: bind_exec_def)

lemma bind_exec_Undef [simp]: "bind_exec (Undef, L) f = (Undef, L)"
  by (simp add: bind_exec_def)

lemma index2adr_globals: "index2adr L LUA_GLOBALSINDEX = Some (LTable (globals L))"
  by (simp add: index2adr_def)

lemma index2adr_top:
  "index2adr (L\<lparr>stack := xs @ [v]\<rparr>) (- 1) = Some v"
  by (simp add: index2adr_def LUA_GLOBALSINDEX_def)

lemma index2adr_below_top:
  "index2adr (L\<lparr>stack := xs @ [v, w]\<rparr>) (- 2) = Some v"
  by (simp add: index2adr_def LUA_GLOBALSINDEX_def nth_append)

section \<open>The guest function output: order of the arguments\<close>

declare output_loop.simps [simp del]

lemma c_str_plain: "NUL \<notin> set s \<Longrightarrow> c_str s = s"
  by (induction s) (auto simp: c_str_def)

lemma pushvfstring_step:
  "c \<noteq> CHR ''%'' \<Longrightarrow> pushvfstring (c # s) args = map_option ((#) c) (pushvfstring s args)"
  by (cases s) simp_all

lemma pushvfstring_plain: "CHR ''%'' \<notin> set s \<Longrightarrow> pushvfstring s args = Some s"
proof (induction s)
  case Nil
  show ?case by simp
next
  case (Cons c s)
  then have c: "c \<noteq> CHR ''%''" and ih: "pushvfstring s args = Some s" by auto
  show ?case unfolding pushvfstring_step [OF c] ih by simp
qed

lemma luaL_error_plain:
  "CHR ''%'' \<notin> set s \<Longrightarrow> NUL \<notin> set s \<Longrightarrow> luaL_error s [] = Raise (LString s)"
  by (simp add: luaL_error_def c_str_plain pushvfstring_plain)

lemma output_loop_seq:
  "output_loop lc eng n i result L lsb =
     (if result = 0 then output_seq lc eng [i..<Suc n] L lsb else Some (Ret (result, L, lsb)))"
proof (induction lc eng n i result L lsb rule: output_loop.induct)
  case (1 lc eng n i result L lsb)
  show ?case
  proof (cases "result = 0 \<and> i \<le> n")
    case True
    then have u: "[i..<Suc n] = i # [Suc i..<Suc n]" by (simp add: upt_conv_Cons)
    show ?thesis
    proof (cases "output_arg lc eng L lsb i")
      case None
      then show ?thesis using True u by (subst output_loop.simps) simp
    next
      case (Some a)
      show ?thesis
      proof (cases a)
        case Fault
        then show ?thesis using True u Some by (subst output_loop.simps) simp
      next
        case (Ret t)
        obtain r L' lsb' where t: "t = (r, L', lsb')" by (cases t)
        have "output_loop lc eng n (i + 1) r L' lsb' =
               (if r = 0 then output_seq lc eng [i + 1..<Suc n] L' lsb' else Some (Ret (r, L', lsb')))"
          using "1.IH" [OF True Some Ret t [symmetric] refl] by simp
        then show ?thesis using True u Some Ret t by (subst output_loop.simps) simp
      qed
    qed
  next
    case False
    then show ?thesis by (subst output_loop.simps) auto
  qed
qed

lemma output_seq_stops:
  assumes "output_seq lc eng xs L lsb = Some (Ret (0, L1, lsb1))"
    and "output_arg lc eng L1 lsb1 x = Some (Ret (r, L2, lsb2))" and "r \<noteq> 0"
  shows "output_seq lc eng (xs @ x # ys) L lsb = Some (Ret (r, L2, lsb2))"
  using assms
proof (induction xs arbitrary: L lsb)
  case Nil
  then show ?case by simp
next
  case (Cons a xs)
  then show ?case
    by (auto split: option.splits res.splits if_splits)
qed

lemma output_seq_append:
  "output_seq lc eng (xs @ ys) L lsb =
     (case output_seq lc eng xs L lsb of
        None \<Rightarrow> None
      | Some Fault \<Rightarrow> Some Fault
      | Some (Ret (r, L', lsb')) \<Rightarrow>
          if r \<noteq> 0 then Some (Ret (r, L', lsb')) else output_seq lc eng ys L' lsb')"
  by (induction xs arbitrary: L lsb) (auto split: option.splits res.splits)

lemma output_fn_no_argument:
  assumes "luserdata \<noteq> NULL" and "stack L = []"
  shows "output_fn lc eng luserdata L lsb =
           Some (Raise (LString ''output() must have at least one argument''), L, lsb)"
proof -
  have "luaL_error ''output() must have at least one argument'' [] =
          (Raise (LString ''output() must have at least one argument'') :: int exec)"
    by (rule luaL_error_plain) (simp_all add: NUL_def)
  then show ?thesis
    using assms by (auto simp: output_fn_def lua_gettop_def)
qed


lemma output_fn_by_seq:
  assumes "luserdata \<noteq> NULL" and "stack L \<noteq> []"
  shows "output_fn lc eng luserdata L lsb =
     (case output_seq lc eng [1..<Suc (length (stack L))] L lsb of
        None \<Rightarrow> None
      | Some Fault \<Rightarrow> Some (Undef, L, lsb)
      | Some (Ret (result, La, lsba)) \<Rightarrow>
          Some (if result \<noteq> 0 then
                  if c_str (error_message (update_output_stats lsba)) = []
                  then luaL_error ''output_limit exceeded'' []
                  else luaL_error (error_message (update_output_stats lsba)) []
                else Return 0,
                La, update_output_stats lsba))"
  using assms
  by (auto simp: output_fn_def lua_gettop_def output_loop_seq Let_def
        split: option.splits res.splits)


lemma example_arg_first:
  "output_arg example_libc example_engine example_lua_args example_sandbox (Suc 0)
     = Some (Ret (0, example_lua_args, example_sandbox\<lparr>output' := example_out_nil\<rparr>))"
  by (simp add: output_arg_def index2adr_def example_lua_args_def example_lua_def
      LUA_GLOBALSINDEX_def append_result_def appends_def example_sandbox_def example_output_def
      example_out_nil_def strlen_def c_str_def NUL_def write_at_def set_output_def)

lemma grow_newsize_example_nil: "grow_newsize 4 3 8 = Some 8"
  by (subst grow_newsize.simps) simp

lemma example_arg_second:
  "output_arg example_libc example_engine example_lua_args
       (example_sandbox\<lparr>output' := example_out_nil\<rparr>) 2
     = Some (Ret (0, example_lua_args, example_sandbox\<lparr>output' := example_out_nilnil\<rparr>))"
proof -
  have r: "replicate 4 c = [c, c, c, c]" for c :: char
    by (simp add: eval_nat_numeral)
  show ?thesis
    by (simp add: output_arg_def index2adr_def example_lua_args_def example_lua_def
      LUA_GLOBALSINDEX_def append_result_def appends_def example_sandbox_def example_libc_def
      example_out_nil_def example_out_nilnil_def strlen_def c_str_def NUL_def write_at_def
      set_output_def realloc_output_def grow_newsize_example_nil r)
qed

lemma example_arg_third:
  "output_arg example_libc example_engine example_lua_args
       (example_sandbox\<lparr>output' := example_out_nilnil\<rparr>) 3
     = Some (Ret (1, example_lua_args, example_sandbox\<lparr>output' := example_out_nilnil\<rparr>))"
  by (simp add: output_arg_def index2adr_def example_lua_args_def example_lua_def
      LUA_GLOBALSINDEX_def append_result_def appends_def example_sandbox_def example_libc_def
      example_out_nilnil_def strlen_def c_str_def NUL_def write_at_def
      set_output_def realloc_output_def)

lemma example_seq_two:
  "output_seq example_libc example_engine [1, 2] example_lua_args example_sandbox
     = Some (Ret (0, example_lua_args, example_sandbox\<lparr>output' := example_out_nilnil\<rparr>))"
  by (simp add: example_arg_first example_arg_second)

text \<open>
  C10. Called with no argument (and with the sandbox in its upvalue), \<open>output\<close> raises
  the error \<open>output() must have at least one argument\<close> and leaves the engine and the
  sandbox, its output buffer included, as they were. Called with arguments, it takes
  them from left to right, as \<open>output_seq\<close> does on the indices \<open>1, ..., n\<close>; and
  when the arguments \<open>xs\<close> have been appended and the append of the next argument
  \<open>x\<close> fails, the processing ends in the state right after \<open>x\<close>, whatever
  arguments \<open>ys\<close> follow.
\<close>

theorem output_fn_arguments:
  "(luserdata \<noteq> NULL \<and> stack L = [] \<longrightarrow>
      output_fn lc eng luserdata L lsb =
        Some (Raise (LString ''output() must have at least one argument''), L, lsb))
   \<and> (luserdata \<noteq> NULL \<and> stack L \<noteq> [] \<longrightarrow>
      output_fn lc eng luserdata L lsb =
        (case output_seq lc eng [1..<Suc (length (stack L))] L lsb of
           None \<Rightarrow> None
         | Some Fault \<Rightarrow> Some (Undef, L, lsb)
         | Some (Ret (result, La, lsba)) \<Rightarrow>
             Some (if result \<noteq> 0 then
                     if c_str (error_message (update_output_stats lsba)) = []
                     then luaL_error ''output_limit exceeded'' []
                     else luaL_error (error_message (update_output_stats lsba)) []
                   else Return 0,
                   La, update_output_stats lsba)))
   \<and> (output_seq lc eng xs L lsb = Some (Ret (0, Lx, lsbx))
        \<and> output_arg lc eng Lx lsbx x = Some (Ret (r, Ly, lsby)) \<and> r \<noteq> 0 \<longrightarrow>
      output_seq lc eng (xs @ x # ys) L lsb = Some (Ret (r, Ly, lsby)))"
  using output_fn_no_argument [of luserdata L lc eng lsb]
    output_fn_by_seq [of luserdata L lc eng lsb]
    output_seq_stops [of lc eng xs L lsb Lx lsbx x r Ly lsby ys]
  by blast

theorem output_fn_arguments_witness:
  "output_fn example_libc example_engine 1 example_lua example_sandbox
     = Some (Raise (LString ''output() must have at least one argument''),
             example_lua, example_sandbox)
   \<and> output_seq example_libc example_engine ([1, 2] @ 3 # [4]) example_lua_args example_sandbox
       = Some (Ret (1, example_lua_args, example_sandbox\<lparr>output' := example_out_nilnil\<rparr>))
   \<and> output_fn example_libc example_engine 1 example_lua_args example_sandbox
       = Some (Raise (LString ''output_limit exceeded''), example_lua_args,
               update_output_stats (example_sandbox\<lparr>output' := example_out_nilnil\<rparr>))"
proof -
  note t = output_fn_arguments [where lc = example_libc and eng = example_engine
      and luserdata = 1 and lsb = example_sandbox and xs = "[1, 2]" and x = 3 and ys = "[4]"
      and r = 1 and Lx = example_lua_args and Ly = example_lua_args
      and lsbx = "example_sandbox\<lparr>output' := example_out_nilnil\<rparr>"
      and lsby = "example_sandbox\<lparr>output' := example_out_nilnil\<rparr>"]
  have a: "output_fn example_libc example_engine 1 example_lua example_sandbox
     = Some (Raise (LString ''output() must have at least one argument''),
             example_lua, example_sandbox)"
    using t [where L = example_lua] by (simp add: NULL_def example_lua_def)
  have b: "output_seq example_libc example_engine ([1, 2] @ 3 # [4]) example_lua_args example_sandbox
       = Some (Ret (1, example_lua_args, example_sandbox\<lparr>output' := example_out_nilnil\<rparr>))"
    using t [where L = example_lua_args] example_seq_two example_arg_third by simp
  have u: "[1..<Suc (length (stack example_lua_args))] = [1, 2] @ 3 # [4]"
    by (simp add: example_lua_args_def example_lua_def upt_rec)
  have e: "c_str (error_message (update_output_stats (example_sandbox\<lparr>output' := example_out_nilnil\<rparr>))) = []"
    by (simp add: update_output_stats_def Let_def set_usage_def example_sandbox_def c_str_def)
  have m: "luaL_error ''output_limit exceeded'' [] = (Raise (LString ''output_limit exceeded'') :: int exec)"
    by (rule luaL_error_plain) (simp_all add: NUL_def)
  have p: "(1 :: ptr) \<noteq> NULL \<and> stack example_lua_args \<noteq> []"
    by (simp add: NULL_def example_lua_args_def)
  note t2 = t [where L = example_lua_args, THEN conjunct2, THEN conjunct1, rule_format, OF p]
  have c: "output_fn example_libc example_engine 1 example_lua_args example_sandbox
       = Some (Raise (LString ''output_limit exceeded''), example_lua_args,
               update_output_stats (example_sandbox\<lparr>output' := example_out_nilnil\<rparr>))"
    by (simp only: t2 u b) (simp add: e m)
  show ?thesis using a b c by simp
qed

section \<open>The guest function output: the error it raises\<close>

lemma update_output_stats_fields:
  "error_message (update_output_stats lsb) = error_message lsb"
  "output' (update_output_stats lsb) = output' lsb"
  "usage (update_output_stats lsb) LSB_UT_OUTPUT LSB_US_CURRENT = ucast (pos (output' lsb))"
  by (simp_all add: update_output_stats_def Let_def set_usage_fields usage_set_usage)

text \<open>
  When an append has failed, the statistics are brought up to date from \<open>pos\<close> and an
  error is raised: \<open>output_limit exceeded\<close> when the error slot is empty, the message
  of the slot when it holds one without a percent sign.
\<close>

lemma output_fn_failure:
  assumes "luserdata \<noteq> NULL" and "stack L \<noteq> []"
    and "output_seq lc eng [1..<Suc (length (stack L))] L lsb = Some (Ret (r, La, lsba))"
    and "r \<noteq> 0"
  shows "(c_str (error_message lsba) = [] \<longrightarrow>
            output_fn lc eng luserdata L lsb =
              Some (Raise (LString ''output_limit exceeded''), La, update_output_stats lsba))
         \<and> (c_str (error_message lsba) \<noteq> [] \<and> CHR ''%'' \<notin> set (c_str (error_message lsba)) \<longrightarrow>
            output_fn lc eng luserdata L lsb =
              Some (Raise (LString (c_str (error_message lsba))), La, update_output_stats lsba))
         \<and> usage (update_output_stats lsba) LSB_UT_OUTPUT LSB_US_CURRENT
             = ucast (pos (output' lsba))"
proof -
  have m: "luaL_error ''output_limit exceeded'' [] = (Raise (LString ''output_limit exceeded'') :: int exec)"
    by (rule luaL_error_plain) (simp_all add: NUL_def)
  have n: "CHR ''%'' \<notin> set (c_str (error_message lsba)) \<Longrightarrow>
      luaL_error (error_message lsba) [] = (Raise (LString (c_str (error_message lsba))) :: int exec)"
    by (simp add: luaL_error_def pushvfstring_plain)
  show ?thesis
    using assms m n
    by (simp add: output_fn_by_seq update_output_stats_fields)
qed

lemma example_arg_full:
  "output_arg example_libc example_engine example_lua_nil example_sandbox_percent (Suc 0)
     = Some (Ret (1, example_lua_nil, example_sandbox_percent))"
  by (simp add: output_arg_def index2adr_def example_lua_nil_def example_lua_def
      LUA_GLOBALSINDEX_def append_result_def appends_def example_sandbox_percent_def
      example_sandbox_def example_libc_def example_full_def strlen_def c_str_def NUL_def
      set_output_def realloc_output_def)

text \<open>
  C4. The error slot is handed to \<open>luaL_error\<close> as the format, not as an argument of
  the format \<open>"%s"\<close>, as \<open>require_library\<close> does with a message that comes from
  elsewhere. A slot with a percent sign is therefore not raised as it stands: with the
  slot \<open>50%% used\<close> and a buffer that is full, \<open>output(nil)\<close> raises \<open>50% used\<close>.
\<close>

theorem output_fn_raises_formatted_slot:
  "output_fn example_libc example_engine 1 example_lua_nil example_sandbox_percent
     = Some (Raise (LString ''50% used''), example_lua_nil,
             update_output_stats example_sandbox_percent)
   \<and> error_message example_sandbox_percent = ''50%% used''"
proof -
  have s: "stack example_lua_nil = [LNil]"
    by (simp add: example_lua_nil_def)
  have e: "error_message example_sandbox_percent = ''50%% used''"
    by (simp add: example_sandbox_percent_def)
  have f: "luaL_error ''50%% used'' [] = (Raise (LString ''50% used'') :: int exec)"
    by (simp add: luaL_error_def c_str_def NUL_def)
  have l: "output_loop example_libc example_engine (Suc 0) (Suc 0) 0 example_lua_nil
             example_sandbox_percent
           = Some (Ret (1, example_lua_nil, example_sandbox_percent))"
    by (simp add: output_loop_seq example_arg_full)
  show ?thesis
    by (simp add: output_fn_def lua_gettop_def s l NULL_def update_output_stats_fields e f
          c_str_def NUL_def)
qed

section \<open>The library gate: what a load leaves behind\<close>

text \<open>One round of the loops of \<open>load_library\<close> on a table.\<close>

lemma setfield_nil:
  assumes "index2adr (lua_push LNil L) idx = Some (LTable t)" and "t < length (tables L)"
  shows "lua_setfield eng (lua_push LNil L) idx d =
           (Return (), L\<lparr>tables := (tables L)[t := (tables L ! t)
                            \<lparr>tfields := (tfields (tables L ! t))(d := LNil)\<rparr>]\<rparr>)"
  using assms by (simp add: lua_setfield_def lua_push_def)

lemma clear_fields_table:
  assumes "idx = LUA_GLOBALSINDEX \<and> t = globals L
           \<or> idx = - 2 \<and> stack L \<noteq> [] \<and> last (stack L) = LTable t"
    and "t < length (tables L)"
  shows "clear_fields eng idx ds L =
           (Return (), L\<lparr>tables := (tables L)[t := clear_denied ds (tables L ! t)]\<rparr>)"
  using assms
proof (induction ds arbitrary: L)
  case Nil
  have "clear_denied [] (tables L ! t) = tables L ! t"
    by (simp add: clear_denied_def)
  then show ?case by simp
next
  case (Cons d ds)
  let ?L1 = "L\<lparr>tables := (tables L)[t := (tables L ! t)
                            \<lparr>tfields := (tfields (tables L ! t))(d := LNil)\<rparr>]\<rparr>"
  have i: "index2adr (lua_push LNil L) idx = Some (LTable t)"
  proof -
    from Cons.prems(1) show ?thesis
    proof
      assume "idx = LUA_GLOBALSINDEX \<and> t = globals L"
      then show ?thesis by (simp add: index2adr_def lua_push_def)
    next
      assume a: "idx = - 2 \<and> stack L \<noteq> [] \<and> last (stack L) = LTable t"
      then obtain xs where "stack L = xs @ [LTable t]"
        by (metis append_butlast_last_id)
      then have "lua_push LNil L = L\<lparr>stack := xs @ [LTable t, LNil]\<rparr>"
        by (simp add: lua_push_def)
      then show ?thesis using a by (simp add: index2adr_below_top)
    qed
  qed
  have s: "lua_setfield eng (lua_push LNil L) idx d = (Return (), ?L1)"
    using i Cons.prems(2) by (rule setfield_nil)
  have p1: "idx = LUA_GLOBALSINDEX \<and> t = globals ?L1
           \<or> idx = - 2 \<and> stack ?L1 \<noteq> [] \<and> last (stack ?L1) = LTable t"
    using Cons.prems(1) by simp
  have p2: "t < length (tables ?L1)" using Cons.prems(2) by simp
  have c: "clear_denied ds ((tables L ! t)\<lparr>tfields := (tfields (tables L ! t))(d := LNil)\<rparr>)
           = clear_denied (d # ds) (tables L ! t)"
    by (auto simp: clear_denied_def fun_eq_iff)
  show ?case
    using Cons.IH [OF p1 p2] Cons.prems(2) by (simp add: s c)
qed

lemma setmetatable_fresh:
  assumes "stack L \<noteq> []" and "last (stack L) = LTable r"
  shows "lua_setmetatable (lua_newtable L) (- 2) =
           (Return (),
            L\<lparr>tables := (tables L @ [empty_table])[r := ((tables L @ [empty_table]) ! r)
                          \<lparr>metatable := Some (length (tables L))\<rparr>]\<rparr>)"
proof -
  obtain xs where xs: "stack L = xs @ [LTable r]"
    using assms by (metis append_butlast_last_id)
  have n: "lua_newtable L = L\<lparr>stack := xs @ [LTable r, LTable (length (tables L))],
                               tables := tables L @ [empty_table]\<rparr>"
    by (simp add: lua_newtable_def xs empty_table_def)
  have i: "index2adr (lua_newtable L) (- 2) = Some (LTable r)"
    unfolding n by (simp add: index2adr_def LUA_GLOBALSINDEX_def nth_append)
  show ?thesis
    by (simp add: lua_setmetatable_def i) (simp add: n set_metatable_of_def lua_pop_def xs)
qed


lemma strlen_zero: "c_str table = [] \<Longrightarrow> strlen table = 0"
  by (simp add: strlen_def)

lemma strlen_nonzero:
  assumes "c_str table \<noteq> []" and "length (c_str table) < 2 ^ 64"
  shows "strlen table \<noteq> 0"
proof -
  have "unat (strlen table) = length (c_str table)"
    using assms(2) by (simp add: strlen_def unat_of_nat)
  then show ?thesis using assms(1) by auto
qed

text \<open>
  C8. Let the loader return a table (reference \<open>r\<close>). When the library name is the
  empty string, \<open>load_library\<close> sets every name of the deny list to nil in the table
  of globals and changes nothing else: no table is made and no metatable is set. For
  any other name it sets every name of the deny list to nil in the table the loader
  returned, makes one new table, empty and without metatable, and sets it as the
  metatable of the library's table. In both cases the library's table is left on top
  of the stack.
\<close>

theorem load_library_gate:
  assumes "cfunction eng f L = (Inr (LTable r), Lc)"
    and "r < length (tables Lc)" and "globals Lc < length (tables Lc)"
  shows "(c_str table = [] \<longrightarrow>
            load_library eng L table f disable =
              (Return (),
               Lc\<lparr>stack := stack L @ [LTable r], events := events L @ [Called f],
                  tables := (tables Lc)[globals Lc :=
                               clear_denied disable (tables Lc ! globals Lc)]\<rparr>))
         \<and> (c_str table \<noteq> [] \<and> length (c_str table) < 2 ^ 64 \<longrightarrow>
            load_library eng L table f disable =
              (Return (),
               Lc\<lparr>stack := stack L @ [LTable r], events := events L @ [Called f],
                  tables := (tables Lc)[r := (clear_denied disable (tables Lc ! r))
                                 \<lparr>metatable := Some (length (tables Lc))\<rparr>]
                            @ [empty_table]\<rparr>))"
proof (intro conjI impI)
  let ?L1 = "Lc\<lparr>stack := stack L @ [LTable r], events := events L @ [Called f]\<rparr>"
  have call: "lua_call_0_1 eng f L = (Return (), ?L1)"
    using assms(1) by (simp add: lua_call_0_1_def)
  {
    assume e: "c_str table = []"
    have "clear_fields eng LUA_GLOBALSINDEX disable ?L1 =
            (Return (), ?L1\<lparr>tables := (tables ?L1)[globals Lc :=
                                  clear_denied disable (tables ?L1 ! globals Lc)]\<rparr>)"
      using assms(3) by (intro clear_fields_table) simp_all
    then show "load_library eng L table f disable =
              (Return (),
               Lc\<lparr>stack := stack L @ [LTable r], events := events L @ [Called f],
                  tables := (tables Lc)[globals Lc :=
                               clear_denied disable (tables Lc ! globals Lc)]\<rparr>)"
      by (simp add: load_library_def call strlen_zero [OF e])
  }
  {
    assume "c_str table \<noteq> [] \<and> length (c_str table) < 2 ^ 64"
    then have nz: "strlen table \<noteq> 0" by (simp add: strlen_nonzero)
    let ?L2 = "?L1\<lparr>tables := (tables ?L1)[r := clear_denied disable (tables ?L1 ! r)]\<rparr>"
    have c: "clear_fields eng (- 2) disable ?L1 = (Return (), ?L2)"
      using assms(2) by (intro clear_fields_table) simp_all
    have m: "lua_setmetatable (lua_newtable ?L2) (- 2) =
           (Return (),
            ?L2\<lparr>tables := (tables ?L2 @ [empty_table])[r := ((tables ?L2 @ [empty_table]) ! r)
                          \<lparr>metatable := Some (length (tables ?L2))\<rparr>]\<rparr>)"
      by (intro setmetatable_fresh) simp_all
    have t: "(tables ?L2 @ [empty_table])[r := ((tables ?L2 @ [empty_table]) ! r)
                          \<lparr>metatable := Some (length (tables ?L2))\<rparr>]
             = (tables Lc)[r := (clear_denied disable (tables Lc ! r))
                                 \<lparr>metatable := Some (length (tables Lc))\<rparr>] @ [empty_table]"
      using assms(2) by (simp add: list_update_append nth_append)
    show "load_library eng L table f disable =
              (Return (),
               Lc\<lparr>stack := stack L @ [LTable r], events := events L @ [Called f],
                  tables := (tables Lc)[r := (clear_denied disable (tables Lc ! r))
                                 \<lparr>metatable := Some (length (tables Lc))\<rparr>]
                            @ [empty_table]\<rparr>)"
      unfolding load_library_def call using nz c m t by simp
  }
qed


theorem load_library_gate_witness:
  "fst (load_library example_engine example_lua ''os'' luaopen_os [''execute'', ''exit''])
     = Return ()
   \<and> tfields (tables (snd (load_library example_engine example_lua ''os'' luaopen_os
         [''execute'', ''exit''])) ! 3) ''execute'' = LNil
   \<and> tfields (tables (snd (load_library example_engine example_lua ''os'' luaopen_os
         [''execute'', ''exit''])) ! 3) ''clock'' = LFunction 2
   \<and> metatable (tables (snd (load_library example_engine example_lua ''os'' luaopen_os
         [''execute'', ''exit''])) ! 3) = Some 4
   \<and> tables (snd (load_library example_engine example_lua ''os'' luaopen_os
         [''execute'', ''exit''])) ! 4 = empty_table
   \<and> fst (load_library example_engine example_lua [] luaopen_os [''package'']) = Return ()
   \<and> tfields (tables (snd (load_library example_engine example_lua [] luaopen_os
         [''package''])) ! 0) ''package'' = LNil
   \<and> map metatable (tables (snd (load_library example_engine example_lua [] luaopen_os
         [''package'']))) = [None, None, None, None]"
proof -
  have c: "cfunction example_engine luaopen_os example_lua = (Inr (LTable 3), example_lua_os)"
    by (simp add: example_engine_def example_lua_os_def example_lua_def)
  have r: "3 < length (tables example_lua_os)"
    by (simp add: example_lua_os_def example_lua_def)
  have g: "globals example_lua_os < length (tables example_lua_os)"
    by (simp add: example_lua_os_def example_lua_def)
  have n1: "c_str ''os'' \<noteq> [] \<and> length (c_str ''os'') < 2 ^ 64"
    by (simp add: c_str_def NUL_def)
  have n2: "c_str [] = []"
    by (simp add: c_str_def)
  note a = load_library_gate [OF c r g, where table = "''os''"
      and disable = "[''execute'', ''exit'']", THEN conjunct2, rule_format, OF n1]
  note b = load_library_gate [OF c r g, where table = "[]"
      and disable = "[''package'']", THEN conjunct1, rule_format, OF n2]
  show ?thesis
    unfolding a b
    by (simp add: example_lua_os_def example_lua_def clear_denied_def nth_append)
qed

section \<open>The require resolver: the way to the loader\<close>

lemma type_of_value_nil: "type_of_value v = LUA_TNIL \<longleftrightarrow> v = LNil"
  by (cases v) simp_all

lemma require_library_start:
  assumes rdy: "package_ready L p l" and arg: "stack L = LString s # rest"
  shows "require_library lc eng luserdata lsb L =
     (if tfields (tables L ! l) (c_str s) \<noteq> LNil
      then (Return 1, L\<lparr>stack := stack L @ [LTable p, LTable l, tfields (tables L ! l) (c_str s)]\<rparr>)
      else
        bind_exec (require_load lc eng luserdata lsb (c_str s) (marked L p l (c_str s))) (\<lambda>u L7.
        bind_exec (lua_pushvalue L7 (- 1)) (\<lambda>u L8.
        bind_exec (lua_setfield eng L8 (int (length (stack L)) + 2) (c_str s)) (\<lambda>u L9.
          (Return 1, L9)))))"
proof -
  let ?name = "c_str s"
  let ?v = "tfields (tables L ! l) ?name"
  have g: "globals L < length (tables L)"
    and gp: "tfields (tables L ! globals L) package_table = LTable p"
    and p: "p < length (tables L)"
    and pl: "tfields (tables L ! p) loaded_table = LTable l"
    and l: "l < length (tables L)"
    using rdy by (simp_all add: package_ready_def)
  have s1: "luaL_checkstring eng L 1 = (Return ?name, L)"
    by (simp add: luaL_checkstring_def index2adr_def LUA_GLOBALSINDEX_def arg)
  let ?L2 = "L\<lparr>stack := stack L @ [LTable p]\<rparr>"
  have s2: "lua_getfield eng L LUA_GLOBALSINDEX package_table = (Return (), ?L2)"
    by (simp add: lua_getfield_def index2adr_globals g gp lua_push_def)
  have t2: "lua_istable ?L2 (- 1)"
    by (simp add: lua_istable_def lua_type_def index2adr_top)
  let ?L3 = "L\<lparr>stack := stack L @ [LTable p, LTable l]\<rparr>"
  have s3: "lua_getfield eng ?L2 (- 1) loaded_table = (Return (), ?L3)"
    by (simp add: lua_getfield_def index2adr_top p pl lua_push_def)
  have i3: "index2adr ?L3 (- 1) = Some (LTable l)"
    using index2adr_top [where L = L and xs = "stack L @ [LTable p]" and v = "LTable l"] by simp
  have t3: "lua_istable ?L3 (- 1)"
    by (simp add: lua_istable_def lua_type_def i3)
  let ?L4 = "L\<lparr>stack := stack L @ [LTable p, LTable l, ?v]\<rparr>"
  have s4: "lua_getfield eng ?L3 (- 1) ?name = (Return (), ?L4)"
    by (simp add: lua_getfield_def i3 l lua_push_def)
  have i4: "index2adr ?L4 (- 1) = Some ?v"
    using index2adr_top [where L = L and xs = "stack L @ [LTable p, LTable l]" and v = ?v] by simp
  have n4: "lua_isnil ?L4 (- 1) \<longleftrightarrow> ?v = LNil"
    by (simp add: lua_isnil_def lua_type_def i4 type_of_value_nil)
  have s5: "lua_pop (L\<lparr>stack := stack L @ [LTable p, LTable l, x]\<rparr>) (Suc 0) = ?L3" for x
    by (simp add: lua_pop_def)
  have top: "lua_gettop ?L3 = int (length (stack L)) + 2"
    by (simp add: lua_gettop_def)
  have i6: "index2adr (lua_push (LBoolean True) ?L3) (int (length (stack L)) + 2) = Some (LTable l)"
  proof -
    have n: "nat (int (length (stack L)) + 2 - 1) = length (stack L) + 1" by simp
    have "(stack L @ [LTable p, LTable l, LBoolean True]) ! (length (stack L) + 1) = LTable l"
      by (simp only: nth_append_length_plus) simp
    then show ?thesis
      by (simp only: index2adr_def n) (simp add: LUA_GLOBALSINDEX_def lua_push_def)
  qed
  have s6: "lua_setfield eng (lua_push (LBoolean True) ?L3) (int (length (stack L)) + 2) ?name
              = (Return (), marked L p l ?name)"
    by (simp add: lua_setfield_def i6 l) (simp add: lua_push_def marked_def l butlast_append)
  show ?thesis
    unfolding require_library_def
    by (simp add: s1 s2 t2 s3 t3 s4 n4 s5 top s6 Let_def)
qed


lemma c_str_no_NUL: "NUL \<notin> set (c_str s)"
  unfolding c_str_def by (induction s) auto

lemma c_str_idem: "c_str (c_str s) = c_str s"
  by (rule c_str_plain) (rule c_str_no_NUL)

lemma name_ok_iff: "name_ok name \<longleftrightarrow> (\<forall>c\<in>set name. isalnum c \<or> c = CHR ''_'')"
  by (induction name) auto

lemma builtin_names_ok: "list_all name_ok builtin_libraries"
  by code_simp

lemma bad_name_not_builtin:
  assumes "\<not> name_ok name"
  shows "name \<notin> set builtin_libraries"
  using assms builtin_names_ok by (auto simp: list_all_iff)

lemma require_load_external:
  assumes "name \<notin> set builtin_libraries"
  shows "require_load lc eng luserdata lsb name L = require_external lc eng luserdata lsb name L"
  using assms by (simp add: require_load_def builtin_libraries_def)

lemma events_set_metatable_of: "events (set_metatable_of obj mt L) = events L"
  by (cases obj) (simp_all add: set_metatable_of_def)

lemma events_api:
  "events (lua_newtable L) = events L"
  "events (lua_push v L) = events L"
  "events (lua_pop L n) = events L"
  "events (snd (lua_pushvalue L i)) = events L"
  "events (snd (lua_setfield eng L i k)) = events L"
  "events (snd (lua_getfield eng L i k)) = events L"
  "events (snd (lua_setmetatable L i)) = events L"
  by (auto simp: lua_newtable_def lua_push_def lua_pop_def lua_pushvalue_def lua_setfield_def
        lua_getfield_def lua_setmetatable_def events_set_metatable_of
        split: option.splits lua_value.splits)

lemma events_bind:
  assumes "\<And>x L'. events (snd (f x L')) = events L'"
  shows "events (snd (bind_exec m f)) = events (snd m)"
proof (cases m)
  case (Pair r L)
  then show ?thesis using assms by (cases r) simp_all
qed

lemma events_require_tail:
  "events (snd (bind_exec m (\<lambda>u L7.
        bind_exec (lua_pushvalue L7 i) (\<lambda>u L8.
        bind_exec (lua_setfield eng L8 j k) (\<lambda>u L9. (Return (1 :: int), L9))))))
   = events (snd m)"
proof -
  have b: "events (snd (bind_exec (lua_setfield eng L8 j k) (\<lambda>u L9. (Return (1 :: int), L9))))
             = events L8" for L8
    by (simp add: events_bind events_api)
  have c: "events (snd (bind_exec (lua_pushvalue L7 i) (\<lambda>u L8.
             bind_exec (lua_setfield eng L8 j k) (\<lambda>u L9. (Return (1 :: int), L9)))))
             = events L7" for L7
    by (simp add: events_bind b events_api)
  show ?thesis
    by (rule events_bind) (rule c)
qed

lemma example_lua_ready: "package_ready (example_lua\<lparr>stack := xs\<rparr>) 1 2"
  by (simp add: package_ready_def example_lua_def package_table_def loaded_table_def)

lemma example_mod_ready: "package_ready example_lua_mod 1 2"
  unfolding example_lua_mod_def by (rule example_lua_ready)

lemma example_mod_name: "name_ok ''mod''"
  by code_simp

lemma example_mod_facts:
  "stack example_lua_mod = LString ''mod'' # []"
  "c_str ''mod'' = ''mod''"
  "tfields (tables example_lua_mod ! 2) ''mod'' = LNil"
  "''mod'' \<notin> set builtin_libraries"
  "(1 :: ptr) \<noteq> NULL"
  by (simp_all add: example_lua_mod_def c_str_def NUL_def example_lua_def
        builtin_libraries_def LUA_STRLIBNAME_def LUA_MATHLIBNAME_def LUA_TABLIBNAME_def
        LUA_OSLIBNAME_def lsb_circular_buffer_table_def lsb_bloom_filter_table_def
        lsb_hyperloglog_table_def NULL_def)

lemma path_mod: "snprintf_path example_libc ''/mods'' ''mod'' = (13, ''/mods/mod.lua'')"
  by (simp add: snprintf_path_def path_text_def PATH_DELIMITER_def example_libc_def c_str_def
        NUL_def INT_MAX_def MAX_PATH_def)

section \<open>The require resolver: names that are not valid\<close>

lemma invalid_name_message:
  "luaL_error (''invalid module name '' @ [squote] @ ''%s'' @ [squote]) [ArgS (Some name)]
     = Raise (LString (''invalid module name '' @ [squote] @ c_str name @ [squote]))"
  by (simp add: luaL_error_def c_str_def NUL_def squote_def)

text \<open>
  The name test on the name as C reads it, \<open>c_str s\<close>: when \<open>package\<close> and
  \<open>package.loaded\<close> are in place, nothing is stored under the name yet, the sandbox is
  in the upvalue and a module root is configured, a character that is neither a
  letter, a digit nor an underscore raises \<open>invalid module name\<close>.
\<close>

lemma require_invalid_c_name:
  assumes "package_ready L p l" and "stack L = LString s # rest"
    and "tfields (tables L ! l) (c_str s) = LNil"
    and "luserdata \<noteq> NULL" and "require_path lsb = Some root"
    and "\<exists>c\<in>set (c_str s). \<not> isalnum c \<and> c \<noteq> CHR ''_''"
  shows "require_library lc eng luserdata lsb L =
           (Raise (LString (''invalid module name '' @ [squote] @ c_str s @ [squote])),
            marked L p l (c_str s))"
proof -
  have bad: "\<not> name_ok (c_str s)"
    using assms(6) by (auto simp: name_ok_iff)
  have ext: "require_load lc eng luserdata lsb (c_str s) (marked L p l (c_str s))
             = require_external lc eng luserdata lsb (c_str s) (marked L p l (c_str s))"
    using bad by (intro require_load_external bad_name_not_builtin)
  have "require_external lc eng luserdata lsb (c_str s) (marked L p l (c_str s))
          = (Raise (LString (''invalid module name '' @ [squote] @ c_str s @ [squote])),
             marked L p l (c_str s))"
    unfolding require_external_def
    using assms(4,5) bad invalid_name_message [of "c_str s"]
    by (simp add: c_str_idem)
  then show ?thesis
    by (simp add: require_library_start [OF assms(1,2)] assms(3) ext)
qed


text \<open>
  C3 (amended). Let the name of the module have no zero byte and hold a character that
  is neither a letter, a digit nor an underscore. When \<open>package\<close> and \<open>package.loaded\<close>
  are tables, \<open>package.loaded[name]\<close> is nil, the sandbox is in the upvalue and a module
  root is configured, \<open>require(name)\<close> raises exactly \<open>invalid module name '<name>'\<close>;
  no loader has run, no file was executed, and \<open>package.loaded[name]\<close> holds the mark
  \<open>true\<close>.
\<close>

theorem require_invalid_name:
  assumes "package_ready L p l" and "stack L = LString s # rest"
    and "NUL \<notin> set s"
    and "\<exists>c\<in>set s. \<not> isalnum c \<and> c \<noteq> CHR ''_''"
    and "tfields (tables L ! l) s = LNil"
    and "luserdata \<noteq> NULL" and "require_path lsb = Some root"
  shows "require_library lc eng luserdata lsb L =
           (Raise (LString (''invalid module name '' @ [squote] @ s @ [squote])),
            marked L p l s)"
proof -
  have c: "c_str s = s"
    using assms(3) by (rule c_str_plain)
  show ?thesis
    using require_invalid_c_name [OF assms(1,2) _ assms(6,7), of lc eng] assms(4,5)
    by (simp add: c)
qed

lemma bad_char: "\<not> isalnum (CHR ''.'') \<and> CHR ''.'' \<noteq> CHR ''_''"
  by (simp add: isalnum_def)

theorem require_invalid_name_witness:
  "package_ready example_lua_bad 1 2
   \<and> NUL \<notin> set ''a.b''
   \<and> tfields (tables example_lua_bad ! 2) ''a.b'' = LNil
   \<and> CHR ''.'' \<in> set ''a.b''
   \<and> require_library example_libc example_engine 1 example_sandbox_root example_lua_bad =
       (Raise (LString (''invalid module name '' @ [squote] @ ''a.b'' @ [squote])),
        marked example_lua_bad 1 2 ''a.b'')"
proof -
  have r: "package_ready example_lua_bad 1 2"
    unfolding example_lua_bad_def by (rule example_lua_ready)
  have s: "stack example_lua_bad = LString ''a.b'' # []"
    by (simp add: example_lua_bad_def)
  have z: "NUL \<notin> set ''a.b''"
    by (simp add: NUL_def)
  have n: "tfields (tables example_lua_bad ! 2) ''a.b'' = LNil"
    by (simp add: example_lua_bad_def example_lua_def)
  have u: "(1 :: ptr) \<noteq> NULL"
    by (simp add: NULL_def)
  have p: "require_path example_sandbox_root = Some ''/mods''"
    by (simp add: example_sandbox_root_def)
  have b: "\<exists>c\<in>set ''a.b''. \<not> isalnum c \<and> c \<noteq> CHR ''_''"
    using bad_char by simp
  show ?thesis
    using require_invalid_name [OF r s z b n u p, of example_libc example_engine] r n z
    by simp
qed

lemma example_nul_facts:
  "c_str example_nul_name = ''mod''"
  "NUL \<in> set example_nul_name"
  "CHR ''.'' \<in> set example_nul_name"
  "\<not> isalnum NUL \<and> NUL \<noteq> CHR ''_''"
  by (simp_all add: example_nul_name_def c_str_def NUL_def isalnum_def)

lemma example_require_nul:
  "fst (require_library example_libc example_engine 1 example_sandbox_root example_lua_nul)
     = Return 1"
  "events (snd (require_library example_libc example_engine 1 example_sandbox_root
     example_lua_nul)) = [DoFile ''/mods/mod.lua'']"
proof -
  note f = example_mod_facts
  have r: "package_ready example_lua_nul 1 2"
    unfolding example_lua_nul_def by (rule example_lua_ready)
  have s: "stack example_lua_nul = LString example_nul_name # []"
    by (simp add: example_lua_nul_def)
  have n: "tfields (tables example_lua_nul ! 2) ''mod'' = LNil"
    by (simp add: example_lua_nul_def example_lua_def)
  note e = require_library_start [OF r s,
      of example_libc example_engine 1 example_sandbox_root,
      unfolded example_nul_facts(1), simplified n require_load_external [OF f(4)], simplified]
  show "fst (require_library example_libc example_engine 1 example_sandbox_root example_lua_nul)
     = Return 1"
    unfolding e
    by (simp add: require_external_def example_sandbox_root_def NULL_def example_mod_name
        path_mod MAX_PATH_def luaL_dofile_def example_engine_def marked_def
          lua_setfield_def lua_push_def index2adr_def
          LUA_GLOBALSINDEX_def lua_setmetatable_def lua_newtable_def set_metatable_of_def
          lua_pop_def lua_pushvalue_def example_lua_nul_def example_lua_def
        del: name_ok.simps)
  show "events (snd (require_library example_libc example_engine 1 example_sandbox_root
     example_lua_nul)) = [DoFile ''/mods/mod.lua'']"
    unfolding e
    by (simp add: require_external_def example_sandbox_root_def NULL_def example_mod_name
        path_mod MAX_PATH_def luaL_dofile_def example_engine_def marked_def
          lua_setfield_def lua_push_def index2adr_def
          LUA_GLOBALSINDEX_def lua_setmetatable_def lua_newtable_def set_metatable_of_def
          lua_pop_def lua_pushvalue_def example_lua_nul_def example_lua_def
        del: name_ok.simps)
qed

lemma example_require_guards:
  "require_library example_libc example_engine NULL example_sandbox_root example_lua_bad =
     (Raise (LString ''require_library() invalid lightuserdata''),
      marked example_lua_bad 1 2 ''a.b'')"
  "require_library example_libc example_engine 1 example_sandbox_root example_lua_no_package =
     (Raise (LString ''package table is missing''),
      example_lua_no_package\<lparr>stack := [LString ''a.b'', LNil]\<rparr>)"
  "require_library example_libc example_engine 1 example_sandbox_root example_lua_no_loaded =
     (Raise (LString ''package.loaded table is missing''),
      example_lua_no_loaded\<lparr>stack := [LString ''a.b'', LTable 1, LNil]\<rparr>)"
proof -
  have r: "package_ready example_lua_bad 1 2"
    unfolding example_lua_bad_def by (rule example_lua_ready)
  have s: "stack example_lua_bad = LString ''a.b'' # []"
    by (simp add: example_lua_bad_def)
  have c: "c_str ''a.b'' = ''a.b''"
    by (simp add: c_str_def NUL_def)
  have n: "tfields (tables example_lua_bad ! 2) ''a.b'' = LNil"
    by (simp add: example_lua_bad_def example_lua_def)
  have nb: "''a.b'' \<notin> set builtin_libraries"
    by (rule bad_name_not_builtin) (simp add: bad_char)
  have m: "luaL_error ''require_library() invalid lightuserdata'' []
             = (Raise (LString ''require_library() invalid lightuserdata'') :: unit exec)"
    by (rule luaL_error_plain) (simp_all add: NUL_def)
  have e: "require_external example_libc example_engine NULL example_sandbox_root ''a.b''
             (marked example_lua_bad 1 2 ''a.b'')
           = (Raise (LString ''require_library() invalid lightuserdata''),
              marked example_lua_bad 1 2 ''a.b'')"
    by (simp add: require_external_def m)
  show "require_library example_libc example_engine NULL example_sandbox_root example_lua_bad =
     (Raise (LString ''require_library() invalid lightuserdata''),
      marked example_lua_bad 1 2 ''a.b'')"
    using e by (simp add: require_library_start [OF r s] c n require_load_external [OF nb])
  have m1: "luaL_error ''%s table is missing'' [ArgS (Some package_table)]
              = (Raise (LString ''package table is missing'') :: int exec)"
    by code_simp
  have m2: "luaL_error ''%s.%s table is missing''
              [ArgS (Some package_table), ArgS (Some loaded_table)]
              = (Raise (LString ''package.loaded table is missing'') :: int exec)"
    by code_simp
  show "require_library example_libc example_engine 1 example_sandbox_root example_lua_no_package =
     (Raise (LString ''package table is missing''),
      example_lua_no_package\<lparr>stack := [LString ''a.b'', LNil]\<rparr>)"
    unfolding require_library_def
    by (simp add: m1 [unfolded package_table_def] luaL_checkstring_def lua_getfield_def index2adr_def LUA_GLOBALSINDEX_def
          lua_istable_def lua_type_def lua_push_def example_lua_no_package_def example_lua_def
          package_table_def c)
  show "require_library example_libc example_engine 1 example_sandbox_root example_lua_no_loaded =
     (Raise (LString ''package.loaded table is missing''),
      example_lua_no_loaded\<lparr>stack := [LString ''a.b'', LTable 1, LNil]\<rparr>)"
    unfolding require_library_def
    by (simp add: m2 [unfolded package_table_def loaded_table_def] luaL_checkstring_def lua_getfield_def index2adr_def LUA_GLOBALSINDEX_def
          lua_istable_def lua_type_def lua_push_def example_lua_no_loaded_def example_lua_def
          package_table_def loaded_table_def c)
qed

text \<open>
  The claim as it was stated fails for a name with such a character. The tests that
  come before the name test decide first: without a sandbox in the upvalue the error
  is \<open>invalid lightuserdata\<close>, without a module root it is
  \<open>external modules are disabled\<close>, without the table \<open>package\<close> or
  \<open>package.loaded\<close> it is \<open>table is missing\<close>, and a second \<open>require\<close> of the same
  name finds the mark the first call left and returns it. And a name with a zero byte
  is read up to that byte: \<open>require\<close> of \<open>mod\<close>, a zero byte and \<open>../x\<close> succeeds
  and executes \<open>mod.lua\<close>.
\<close>

theorem require_bad_name_other_outcomes:
  "CHR ''.'' \<in> set ''a.b'' \<and> \<not> isalnum (CHR ''.'') \<and> CHR ''.'' \<noteq> CHR ''_''
   \<and> require_library example_libc example_engine 1 example_sandbox example_lua_bad =
       (Raise (LString ''require_library() external modules are disabled''),
        marked example_lua_bad 1 2 ''a.b'')
   \<and> take 19 ''require_library() external modules are disabled'' \<noteq> ''invalid module name''
   \<and> require_library example_libc example_engine 1 example_sandbox_root
        ((marked example_lua_bad 1 2 ''a.b'')\<lparr>stack := [LString ''a.b'']\<rparr>) =
       (Return 1,
        (marked example_lua_bad 1 2 ''a.b'')
          \<lparr>stack := [LString ''a.b'', LTable 1, LTable 2, LBoolean True]\<rparr>)
   \<and> require_library example_libc example_engine NULL example_sandbox_root example_lua_bad =
       (Raise (LString ''require_library() invalid lightuserdata''),
        marked example_lua_bad 1 2 ''a.b'')
   \<and> require_library example_libc example_engine 1 example_sandbox_root example_lua_no_package =
       (Raise (LString ''package table is missing''),
        example_lua_no_package\<lparr>stack := [LString ''a.b'', LNil]\<rparr>)
   \<and> require_library example_libc example_engine 1 example_sandbox_root example_lua_no_loaded =
       (Raise (LString ''package.loaded table is missing''),
        example_lua_no_loaded\<lparr>stack := [LString ''a.b'', LTable 1, LNil]\<rparr>)
   \<and> stack example_lua_nul = [LString example_nul_name]
   \<and> NUL \<in> set example_nul_name \<and> \<not> isalnum NUL \<and> NUL \<noteq> CHR ''_''
   \<and> CHR ''.'' \<in> set example_nul_name
   \<and> fst (require_library example_libc example_engine 1 example_sandbox_root example_lua_nul)
       = Return 1
   \<and> events (snd (require_library example_libc example_engine 1 example_sandbox_root
        example_lua_nul)) = [DoFile ''/mods/mod.lua'']"
proof -
  have r: "package_ready example_lua_bad 1 2"
    unfolding example_lua_bad_def by (rule example_lua_ready)
  have s: "stack example_lua_bad = LString ''a.b'' # []"
    by (simp add: example_lua_bad_def)
  have c: "c_str ''a.b'' = ''a.b''"
    by (simp add: c_str_def NUL_def)
  have n: "tfields (tables example_lua_bad ! 2) ''a.b'' = LNil"
    by (simp add: example_lua_bad_def example_lua_def)
  have nb: "''a.b'' \<notin> set builtin_libraries"
    by (rule bad_name_not_builtin) (simp add: bad_char)
  have m: "luaL_error ''require_library() external modules are disabled'' []
             = (Raise (LString ''require_library() external modules are disabled'') :: unit exec)"
    by (rule luaL_error_plain) (simp_all add: NUL_def)
  have e: "require_external example_libc example_engine 1 example_sandbox ''a.b''
             (marked example_lua_bad 1 2 ''a.b'')
           = (Raise (LString ''require_library() external modules are disabled''),
              marked example_lua_bad 1 2 ''a.b'')"
    by (simp add: require_external_def NULL_def example_sandbox_def m)
  have first: "require_library example_libc example_engine 1 example_sandbox example_lua_bad =
       (Raise (LString ''require_library() external modules are disabled''),
        marked example_lua_bad 1 2 ''a.b'')"
    using e by (simp add: require_library_start [OF r s] c n require_load_external [OF nb])
  let ?M = "(marked example_lua_bad 1 2 ''a.b'')\<lparr>stack := [LString ''a.b'']\<rparr>"
  have r2: "package_ready ?M 1 2"
    by (simp add: package_ready_def marked_def example_lua_bad_def example_lua_def
          package_table_def loaded_table_def)
  have s2: "stack ?M = LString ''a.b'' # []"
    by simp
  have n2: "tfields (tables ?M ! 2) ''a.b'' = LBoolean True"
    by (simp add: marked_def example_lua_bad_def example_lua_def)
  have second: "require_library example_libc example_engine 1 example_sandbox_root ?M =
       (Return 1, ?M\<lparr>stack := [LString ''a.b'', LTable 1, LTable 2, LBoolean True]\<rparr>)"
    using require_library_start [OF r2 s2, of example_libc example_engine 1 example_sandbox_root]
      c n2
    by simp
  have t: "stack example_lua_nul = [LString example_nul_name]"
    by (simp add: example_lua_nul_def)
  show ?thesis
    using first second bad_char t example_require_guards example_require_nul
      example_nul_facts(2,3,4)
    by simp
qed


section \<open>The require resolver: the path of a module\<close>

lemma path_too_long:
  "fst (snprintf_path lc root name) < 0 \<or> fst (snprintf_path lc root name) \<ge> MAX_PATH
     \<longleftrightarrow> length (path_text lc root name) \<ge> 255"
  by (auto simp: snprintf_path_def Let_def MAX_PATH_def INT_MAX_def)

lemma path_fits:
  "length (path_text lc root name) < 255 \<Longrightarrow> snd (snprintf_path lc root name) = path_text lc root name"
  by (simp add: snprintf_path_def Let_def MAX_PATH_def)

lemma path_message:
  "luaL_error ''require_path exceeded %d'' [ArgD MAX_PATH]
     = (Raise (LString ''require_path exceeded 255'') :: unit exec)"
  by code_simp


text \<open>
  C7. When \<open>require\<close> resolves a module that is not built in (the name is valid, not
  cached, the sandbox is in the upvalue and a module root is configured), the path is
  the root, the separator of the platform (a backslash on Windows, a slash elsewhere),
  the name and \<open>.lua\<close>. A path of 255 characters or more makes \<open>require\<close> raise
  \<open>require_path exceeded 255\<close> without executing a file; a shorter path is the one
  file the engine is asked to execute.
\<close>

lemma events_marked: "events (marked L p l name) = events L"
  by (simp add: marked_def)

theorem require_path_ceiling:
  assumes "package_ready L p l" and "stack L = LString s # rest"
    and "tfields (tables L ! l) (c_str s) = LNil"
    and "c_str s \<notin> set builtin_libraries"
    and "luserdata \<noteq> NULL" and "require_path lsb = Some root"
    and "name_ok (c_str s)"
  shows "path_text lc root (c_str s)
           = c_str root @ [if win32 lc then CHR 0x5C else CHR ''/''] @ c_str s @ ''.lua''
         \<and> (255 \<le> length (path_text lc root (c_str s)) \<longrightarrow>
              require_library lc eng luserdata lsb L =
                (Raise (LString ''require_path exceeded 255''), marked L p l (c_str s)))
         \<and> (length (path_text lc root (c_str s)) < 255 \<longrightarrow>
              events (snd (require_library lc eng luserdata lsb L))
                = events L @ [DoFile (path_text lc root (c_str s))])"
proof (intro conjI impI)
  let ?name = "c_str s"
  let ?M = "marked L p l ?name"
  show "path_text lc root ?name
          = c_str root @ [if win32 lc then CHR 0x5C else CHR ''/''] @ ?name @ ''.lua''"
    by (simp add: path_text_def PATH_DELIMITER_def c_str_idem)
  have start: "require_library lc eng luserdata lsb L =
        bind_exec (require_external lc eng luserdata lsb ?name ?M) (\<lambda>u L7.
        bind_exec (lua_pushvalue L7 (- 1)) (\<lambda>u L8.
        bind_exec (lua_setfield eng L8 (int (length (stack L)) + 2) ?name) (\<lambda>u L9.
          (Return 1, L9))))"
    by (simp add: require_library_start [OF assms(1,2)] assms(3) require_load_external [OF assms(4)])
  {
    assume long: "255 \<le> length (path_text lc root ?name)"
    then have "fst (snprintf_path lc root ?name) < 0
               \<or> fst (snprintf_path lc root ?name) \<ge> MAX_PATH"
      by (simp only: path_too_long)
    then have "require_external lc eng luserdata lsb ?name ?M
             = (Raise (LString ''require_path exceeded 255''), ?M)"
      using assms(5,6,7) by (auto simp: require_external_def Let_def path_message)
    then show "require_library lc eng luserdata lsb L =
                (Raise (LString ''require_path exceeded 255''), ?M)"
      by (simp add: start)
  }
  {
    assume short: "length (path_text lc root ?name) < 255"
    then have n: "\<not> (fst (snprintf_path lc root ?name) < 0
               \<or> fst (snprintf_path lc root ?name) \<ge> MAX_PATH)"
      by (simp only: path_too_long)
    have ext: "require_external lc eng luserdata lsb ?name ?M =
            (case luaL_dofile eng ?M (path_text lc root ?name) of
               (rc, L1) \<Rightarrow>
                 if rc \<noteq> 0 then (luaL_error ''%s'' [ArgS (lua_tostring eng L1 (- 1))], L1)
                 else lua_setmetatable (lua_newtable L1) (- 2))"
      using assms(5,6,7) n by (simp add: require_external_def Let_def path_fits [OF short])
    have "events (snd (require_external lc eng luserdata lsb ?name ?M))
            = events L @ [DoFile (path_text lc root ?name)]"
      unfolding ext
      by (auto simp: luaL_dofile_def events_api events_marked split: prod.splits sum.splits)
    then show "events (snd (require_library lc eng luserdata lsb L))
                = events L @ [DoFile (path_text lc root ?name)]"
      unfolding start by (simp only: events_require_tail)
  }
qed


theorem require_path_ceiling_witness:
  "length (path_text example_libc (replicate 250 (CHR ''r'')) ''mod'') = 258
   \<and> require_library example_libc example_engine 1 example_sandbox_long example_lua_mod
       = (Raise (LString ''require_path exceeded 255''), marked example_lua_mod 1 2 ''mod'')
   \<and> path_text example_libc ''/mods'' ''mod'' = ''/mods/mod.lua''
   \<and> events (snd (require_library example_libc example_engine 1 example_sandbox_root
         example_lua_mod)) = [DoFile ''/mods/mod.lua'']"
proof -
  note f = example_mod_facts
  note r = example_mod_ready
  have n: "tfields (tables example_lua_mod ! 2) (c_str ''mod'') = LNil"
    and b: "c_str ''mod'' \<notin> set builtin_libraries"
    by (simp_all add: f)
  have k: "name_ok (c_str ''mod'')"
    unfolding f(2) by (rule example_mod_name)
  have p1: "require_path example_sandbox_long = Some (replicate 250 (CHR ''r''))"
    by (simp add: example_sandbox_long_def)
  have p2: "require_path example_sandbox_root = Some ''/mods''"
    by (simp add: example_sandbox_root_def)
  have c: "c_str (replicate 250 (CHR ''r'')) = replicate 250 (CHR ''r'')"
    by (rule c_str_plain) (simp add: NUL_def)
  have l1: "length (path_text example_libc (replicate 250 (CHR ''r'')) ''mod'') = 258"
    by (simp add: path_text_def c f)
  have l2: "path_text example_libc ''/mods'' ''mod'' = ''/mods/mod.lua''"
    by (simp add: path_text_def f PATH_DELIMITER_def example_libc_def c_str_def NUL_def)
  note a = require_path_ceiling [OF r f(1) n b f(5) p1 k,
      where lc = example_libc and eng = example_engine]
  note d = require_path_ceiling [OF r f(1) n b f(5) p2 k,
      where lc = example_libc and eng = example_engine]
  show ?thesis
    using a d l1 l2 by (simp add: f example_lua_mod_def example_lua_def)
qed

section \<open>The require resolver: the cache\<close>

lemma stack_set_metatable_of: "stack (set_metatable_of obj mt L) = stack L"
  by (cases obj) (simp_all add: set_metatable_of_def)

lemma tables_length_set_metatable_of:
  "length (tables (set_metatable_of obj mt L)) = length (tables L)"
  by (cases obj) (simp_all add: set_metatable_of_def)

lemma setfield_Return:
  assumes "lua_setfield eng L idx k = (Return u, L')"
  shows "stack L' = butlast (stack L)"
  using assms
  by (auto simp: lua_setfield_def split: if_splits option.splits lua_value.splits)

lemma clear_fields_stack:
  assumes "clear_fields eng idx ds L = (Return u, L')"
  shows "stack L' = stack L"
  using assms
proof (induction ds arbitrary: L)
  case Nil
  then show ?case by simp
next
  case (Cons d ds)
  obtain r L1 where s: "lua_setfield eng (lua_push LNil L) idx d = (r, L1)"
    by (cases "lua_setfield eng (lua_push LNil L) idx d")
  show ?case
  proof (cases r)
    case (Return x)
    then have "stack L1 = stack L"
      using setfield_Return [of eng "lua_push LNil L" idx d x L1] s by (simp add: lua_push_def)
    moreover have "clear_fields eng idx ds L1 = (Return u, L')"
      using Cons.prems s Return by simp
    ultimately show ?thesis using Cons.IH by simp
  next
    case Undef
    then show ?thesis using Cons.prems s by simp
  next
    case (Raise e)
    then show ?thesis using Cons.prems s by simp
  qed
qed

lemma setmetatable_newtable_stack:
  assumes "lua_setmetatable (lua_newtable L) (- 2) = (Return u, L')"
  shows "stack L' = stack L"
  using assms
  by (auto simp: lua_setmetatable_def lua_newtable_def lua_pop_def stack_set_metatable_of
        split: if_splits option.splits lua_value.splits)

lemma bind_exec_ReturnD:
  assumes "bind_exec m f = (Return y, L')"
  obtains x L1 where "m = (Return x, L1)" and "f x L1 = (Return y, L')"
proof (cases m)
  case (Pair r L1)
  then show ?thesis using assms that by (cases r) simp_all
qed

lemma load_library_stack:
  assumes "load_library eng L table f ds = (Return u, L')"
  shows "\<exists>v. stack L' = stack L @ [v]"
proof -
  from assms obtain x L1 where
      c: "lua_call_0_1 eng f L = (Return x, L1)"
    and k: "(if strlen table = 0 then clear_fields eng LUA_GLOBALSINDEX ds L1
             else bind_exec (clear_fields eng (- 2) ds L1) (\<lambda>u L2.
                    lua_setmetatable (lua_newtable L2) (- 2))) = (Return u, L')"
    unfolding load_library_def by (rule bind_exec_ReturnD)
  have s1: "\<exists>v. stack L1 = stack L @ [v]"
    using c by (auto simp: lua_call_0_1_def split: prod.splits sum.splits)
  show ?thesis
  proof (cases "strlen table = 0")
    case True
    then show ?thesis using k s1 clear_fields_stack by simp
  next
    case False
    then have "bind_exec (clear_fields eng (- 2) ds L1) (\<lambda>u L2.
                    lua_setmetatable (lua_newtable L2) (- 2)) = (Return u, L')"
      using k by simp
    then obtain y L2 where "clear_fields eng (- 2) ds L1 = (Return y, L2)"
      and "lua_setmetatable (lua_newtable L2) (- 2) = (Return u, L')"
      by (rule bind_exec_ReturnD)
    then show ?thesis
      using s1 clear_fields_stack setmetatable_newtable_stack by metis
  qed
qed

lemma require_external_stack:
  assumes "require_external lc eng luserdata lsb name L = (Return u, L')"
  shows "\<exists>vs. stack L' = stack L @ vs"
proof -
  have e: "(luaL_error fmt args :: unit exec) \<noteq> Return u" for fmt args
    by (simp add: luaL_error_def split: option.splits)
  from assms e obtain root where
      k: "(case luaL_dofile eng L (snd (snprintf_path lc root name)) of
             (rc, L1) \<Rightarrow>
               if rc \<noteq> 0 then (luaL_error ''%s'' [ArgS (lua_tostring eng L1 (- 1))], L1)
               else lua_setmetatable (lua_newtable L1) (- 2)) = (Return u, L')"
    by (auto simp: require_external_def Let_def split: if_splits option.splits)
  obtain rc L1 where d: "luaL_dofile eng L (snd (snprintf_path lc root name)) = (rc, L1)"
    by (cases "luaL_dofile eng L (snd (snprintf_path lc root name))")
  have s1: "\<exists>vs. stack L1 = stack L @ vs"
    using d by (auto simp: luaL_dofile_def split: prod.splits sum.splits)
  have "lua_setmetatable (lua_newtable L1) (- 2) = (Return u, L')"
    using k d e by (auto split: if_splits)
  then show ?thesis
    using s1 setmetatable_newtable_stack by metis
qed

lemma pushvalue_Return:
  assumes "lua_pushvalue L idx = (Return u, L')"
  shows "\<exists>v. L' = lua_push v L \<and> index2adr L idx = Some v"
  using assms by (auto simp: lua_pushvalue_def split: option.splits)

lemma require_load_stack:
  assumes "require_load lc eng luserdata lsb name L = (Return u, L')"
  shows "\<exists>vs. stack L' = stack L @ vs"
proof -
  consider (lib) f ds where "load_library eng L name f ds = (Return u, L')"
    | (cjson) ds where "bind_exec (load_library eng L name luaopen_cjson_safe ds)
          (\<lambda>u L1. bind_exec (lua_pushvalue L1 (- 1)) (\<lambda>u L2.
             lua_setfield eng L2 LUA_GLOBALSINDEX name)) = (Return u, L')"
    | (ext) "require_external lc eng luserdata lsb name L = (Return u, L')"
    using assms unfolding require_load_def by (auto split: if_splits)
  then show ?thesis
  proof cases
    case lib
    then show ?thesis using load_library_stack by blast
  next
    case cjson
    then obtain x L1 where a: "load_library eng L name luaopen_cjson_safe ds = (Return x, L1)"
      and b: "bind_exec (lua_pushvalue L1 (- 1)) (\<lambda>u L2.
             lua_setfield eng L2 LUA_GLOBALSINDEX name) = (Return u, L')"
      by (rule bind_exec_ReturnD)
    from b obtain y L2 where c: "lua_pushvalue L1 (- 1) = (Return y, L2)"
      and d: "lua_setfield eng L2 LUA_GLOBALSINDEX name = (Return u, L')"
      by (rule bind_exec_ReturnD)
    have "stack L' = butlast (stack L2)" using d by (rule setfield_Return)
    moreover have "\<exists>v. stack L2 = stack L1 @ [v]"
      using pushvalue_Return [OF c] by (auto simp: lua_push_def)
    ultimately have "stack L' = stack L1" by auto
    then show ?thesis using load_library_stack [OF a] by auto
  next
    case ext
    then show ?thesis by (rule require_external_stack)
  qed
qed


lemma package_ready_stack: "package_ready (L\<lparr>stack := xs\<rparr>) p l = package_ready L p l"
  by (simp add: package_ready_def)

lemma index2adr_last:
  assumes "stack L \<noteq> []"
  shows "index2adr L (- 1) = Some (last (stack L))"
proof -
  obtain xs x where "stack L = xs @ [x]"
    using assms by (metis append_butlast_last_id)
  then show ?thesis
    by (simp add: index2adr_def LUA_GLOBALSINDEX_def)
qed

lemma require_stores:
  assumes rdy: "package_ready L p l" and arg: "stack L = LString s # rest"
    and nil: "tfields (tables L ! l) (c_str s) = LNil"
    and ret: "require_library lc eng luserdata lsb L = (Return n, L')"
  shows "n = 1 \<and> stack L' \<noteq> [] \<and> l < length (tables L')
         \<and> tfields (tables L' ! l) (c_str s) = last (stack L')"
proof -
  let ?name = "c_str s"
  let ?M = "marked L p l ?name"
  let ?pos = "int (length (stack L)) + 2"
  have "bind_exec (require_load lc eng luserdata lsb ?name ?M) (\<lambda>u L7.
        bind_exec (lua_pushvalue L7 (- 1)) (\<lambda>u L8.
        bind_exec (lua_setfield eng L8 ?pos ?name) (\<lambda>u L9.
          (Return 1, L9)))) = (Return n, L')"
    using ret by (simp add: require_library_start [OF rdy arg] nil)
  then obtain u7 L7 where a: "require_load lc eng luserdata lsb ?name ?M = (Return u7, L7)"
    and b: "bind_exec (lua_pushvalue L7 (- 1)) (\<lambda>u L8.
        bind_exec (lua_setfield eng L8 ?pos ?name) (\<lambda>u L9.
          (Return 1, L9))) = (Return n, L')"
    by (rule bind_exec_ReturnD)
  from b obtain u8 L8 where c: "lua_pushvalue L7 (- 1) = (Return u8, L8)"
    and d: "bind_exec (lua_setfield eng L8 ?pos ?name) (\<lambda>u L9. (Return 1, L9)) = (Return n, L')"
    by (rule bind_exec_ReturnD)
  from d obtain u9 L9 where e: "lua_setfield eng L8 ?pos ?name = (Return u9, L9)"
    and f: "(Return 1, L9) = (Return n, L')"
    by (rule bind_exec_ReturnD)
  obtain vs where s7: "stack L7 = stack L @ [LTable p, LTable l] @ vs"
    using require_load_stack [OF a] by (auto simp: marked_def)
  obtain v where l8: "L8 = lua_push v L7" and top: "index2adr L7 (- 1) = Some v"
    using pushvalue_Return [OF c] by auto
  have v: "v = last (stack L7)"
    using top s7 index2adr_last [of L7] by simp
  have s8: "stack L8 = stack L @ [LTable p, LTable l] @ vs @ [v]"
    using l8 s7 by (simp add: lua_push_def)
  have i8: "index2adr L8 ?pos = Some (LTable l)"
  proof -
    have n: "nat (?pos - 1) = length (stack L) + 1" by simp
    have "(stack L @ [LTable p, LTable l] @ vs @ [v]) ! (length (stack L) + 1) = LTable l"
      by (simp only: nth_append_length_plus) simp
    then show ?thesis
      by (simp only: index2adr_def n s8) (simp add: LUA_GLOBALSINDEX_def)
  qed
  have l9: "l < length (tables L8)
            \<and> L9 = L8\<lparr>stack := butlast (stack L8),
                       tables := (tables L8)[l := (tables L8 ! l)
                          \<lparr>tfields := (tfields (tables L8 ! l))(?name := last (stack L8))\<rparr>]\<rparr>"
    using e i8 by (auto simp: lua_setfield_def split: if_splits)
  have "stack L9 = stack L7" using l9 s8 s7 by (simp add: butlast_append)
  moreover have "last (stack L8) = v" using s8 by simp
  moreover have "stack L7 \<noteq> []" using s7 by simp
  ultimately show ?thesis
    using f l9 v by auto
qed

lemma example_require_os_eval:
  "fst (require_library example_libc example_engine 1 example_sandbox example_lua_req_os) = Return 1"
  "stack (snd (require_library example_libc example_engine 1 example_sandbox example_lua_req_os))
     = [LString ''os'', LTable 1, LTable 2, LTable 3]"
  "package_ready
     (snd (require_library example_libc example_engine 1 example_sandbox example_lua_req_os)) 1 2"
  "events (snd (require_library example_libc example_engine 1 example_sandbox example_lua_req_os))
     = [Called luaopen_os]"
proof -
  have r: "package_ready example_lua_req_os 1 2"
    unfolding example_lua_req_os_def by (rule example_lua_ready)
  have s: "stack example_lua_req_os = LString ''os'' # []"
    by (simp add: example_lua_req_os_def)
  have c: "c_str ''os'' = ''os''"
    by (simp add: c_str_def NUL_def)
  have n: "tfields (tables example_lua_req_os ! 2) ''os'' = LNil"
    by (simp add: example_lua_req_os_def example_lua_def)
  have z: "strlen ''os'' \<noteq> 0"
    by (simp add: strlen_def c)
  have l: "require_load example_libc example_engine 1 example_sandbox ''os''
             (marked example_lua_req_os 1 2 ''os'')
           = load_library example_engine (marked example_lua_req_os 1 2 ''os'') ''os'' luaopen_os
               [''execute'', ''exit'', ''remove'', ''rename'', ''setlocale'', ''tmpname'']"
    by (simp add: require_load_def LUA_STRLIBNAME_def LUA_MATHLIBNAME_def LUA_TABLIBNAME_def
          LUA_OSLIBNAME_def)
  note e = require_library_start [OF r s, of example_libc example_engine 1 example_sandbox,
      unfolded c, simplified n l, simplified]
  show "fst (require_library example_libc example_engine 1 example_sandbox example_lua_req_os) = Return 1"
    unfolding e
    by (simp add: load_library_def lua_call_0_1_def example_engine_def marked_def
          example_lua_req_os_def example_lua_def z lua_setfield_def lua_push_def index2adr_def
          LUA_GLOBALSINDEX_def lua_setmetatable_def lua_newtable_def set_metatable_of_def
          lua_pop_def lua_pushvalue_def)
  show "stack (snd (require_library example_libc example_engine 1 example_sandbox example_lua_req_os))
     = [LString ''os'', LTable 1, LTable 2, LTable 3]"
    unfolding e
    by (simp add: load_library_def lua_call_0_1_def example_engine_def marked_def
          example_lua_req_os_def example_lua_def z lua_setfield_def lua_push_def index2adr_def
          LUA_GLOBALSINDEX_def lua_setmetatable_def lua_newtable_def set_metatable_of_def
          lua_pop_def lua_pushvalue_def)
  show "package_ready
     (snd (require_library example_libc example_engine 1 example_sandbox example_lua_req_os)) 1 2"
    unfolding e
    by (simp add: load_library_def lua_call_0_1_def example_engine_def marked_def
          example_lua_req_os_def example_lua_def z lua_setfield_def lua_push_def index2adr_def
          LUA_GLOBALSINDEX_def lua_setmetatable_def lua_newtable_def set_metatable_of_def
          lua_pop_def lua_pushvalue_def package_ready_def package_table_def loaded_table_def)
  show "events (snd (require_library example_libc example_engine 1 example_sandbox example_lua_req_os))
     = [Called luaopen_os]"
    unfolding e
    by (simp add: load_library_def lua_call_0_1_def example_engine_def marked_def
          example_lua_req_os_def example_lua_def z lua_setfield_def lua_push_def index2adr_def
          LUA_GLOBALSINDEX_def lua_setmetatable_def lua_newtable_def set_metatable_of_def
          lua_pop_def lua_pushvalue_def)
qed



lemma example_require_mod:
  "require_library example_libc example_engine 1 example_sandbox_root example_lua_mod
     = (Return 1, example_lua_after_mod)"
proof -
  note f = example_mod_facts
  note e = require_library_start [OF example_mod_ready f(1),
      of example_libc example_engine 1 example_sandbox_root,
      unfolded f(2), simplified f(3) require_load_external [OF f(4)], simplified]
  show ?thesis
    unfolding e
    by (simp add: require_external_def example_sandbox_root_def NULL_def example_mod_name
        path_mod MAX_PATH_def luaL_dofile_def example_engine_def marked_def
          example_lua_mod_def example_lua_def lua_setfield_def lua_push_def index2adr_def
          LUA_GLOBALSINDEX_def lua_setmetatable_def lua_newtable_def set_metatable_of_def
          lua_pop_def lua_pushvalue_def example_lua_after_mod_def numeral_3_eq_3
        del: name_ok.simps)
qed

lemma example_require_mod_again:
  "fst (require_library example_libc example_engine 1 example_sandbox_root
          (example_lua_after_mod\<lparr>stack := [LString ''mod'']\<rparr>)) = Return 1"
  "stack (snd (require_library example_libc example_engine 1 example_sandbox_root
          (example_lua_after_mod\<lparr>stack := [LString ''mod'']\<rparr>)))
     = [LString ''mod'', LTable 1, LTable 2, LBoolean True]"
  "events (snd (require_library example_libc example_engine 1 example_sandbox_root
          (example_lua_after_mod\<lparr>stack := [LString ''mod'']\<rparr>)))
     = [DoFile ''/mods/mod.lua'', DoFile ''/mods/mod.lua'']"
proof -
  let ?L = "example_lua_after_mod\<lparr>stack := [LString ''mod'']\<rparr>"
  note f = example_mod_facts
  have r: "package_ready ?L 1 2"
    by (simp add: package_ready_def example_lua_after_mod_def package_table_def loaded_table_def)
  have s: "stack ?L = LString ''mod'' # []"
    by simp
  have n: "tfields (tables ?L ! 2) ''mod'' = LNil"
    by (simp add: example_lua_after_mod_def)
  note e = require_library_start [OF r s,
      of example_libc example_engine 1 example_sandbox_root,
      unfolded f(2), simplified n require_load_external [OF f(4)], simplified]
  show "fst (require_library example_libc example_engine 1 example_sandbox_root ?L) = Return 1"
    unfolding e
    by (simp add: require_external_def example_sandbox_root_def NULL_def example_mod_name
        path_mod MAX_PATH_def luaL_dofile_def example_engine_def marked_def
          lua_setfield_def lua_push_def index2adr_def
          LUA_GLOBALSINDEX_def lua_setmetatable_def lua_newtable_def set_metatable_of_def
          lua_pop_def lua_pushvalue_def example_lua_after_mod_def
        del: name_ok.simps)
  show "stack (snd (require_library example_libc example_engine 1 example_sandbox_root ?L))
     = [LString ''mod'', LTable 1, LTable 2, LBoolean True]"
    unfolding e
    by (simp add: require_external_def example_sandbox_root_def NULL_def example_mod_name
        path_mod MAX_PATH_def luaL_dofile_def example_engine_def marked_def
          lua_setfield_def lua_push_def index2adr_def
          LUA_GLOBALSINDEX_def lua_setmetatable_def lua_newtable_def set_metatable_of_def
          lua_pop_def lua_pushvalue_def example_lua_after_mod_def
        del: name_ok.simps)
  show "events (snd (require_library example_libc example_engine 1 example_sandbox_root ?L))
     = [DoFile ''/mods/mod.lua'', DoFile ''/mods/mod.lua'']"
    unfolding e
    by (simp add: require_external_def example_sandbox_root_def NULL_def example_mod_name
        path_mod MAX_PATH_def luaL_dofile_def example_engine_def marked_def
          lua_setfield_def lua_push_def index2adr_def
          LUA_GLOBALSINDEX_def lua_setmetatable_def lua_newtable_def set_metatable_of_def
          lua_pop_def lua_pushvalue_def example_lua_after_mod_def
        del: name_ok.simps)
qed

text \<open>
  The cache, under the name as C reads it, \<open>c_str s\<close>: a value that is not nil is
  returned as it is; otherwise the module is loaded in the marked state and what a
  successful call returns is stored under the name.
\<close>

lemma require_cache_c_name:
  assumes "package_ready L p l" and "stack L = LString s # rest"
  shows "(tfields (tables L ! l) (c_str s) \<noteq> LNil \<longrightarrow>
            require_library lc eng luserdata lsb L =
              (Return 1,
               L\<lparr>stack := stack L @ [LTable p, LTable l, tfields (tables L ! l) (c_str s)]\<rparr>))
         \<and> (tfields (tables L ! l) (c_str s) = LNil \<longrightarrow>
              require_library lc eng luserdata lsb L =
                bind_exec (require_load lc eng luserdata lsb (c_str s) (marked L p l (c_str s)))
                  (\<lambda>u L7. bind_exec (lua_pushvalue L7 (- 1))
                  (\<lambda>u L8. bind_exec (lua_setfield eng L8 (int (length (stack L)) + 2) (c_str s))
                  (\<lambda>u L9. (Return 1, L9))))
              \<and> tfields (tables (marked L p l (c_str s)) ! l) (c_str s) = LBoolean True)
         \<and> (tfields (tables L ! l) (c_str s) = LNil
              \<and> require_library lc eng luserdata lsb L = (Return n, La) \<longrightarrow>
              n = 1 \<and> stack La \<noteq> [] \<and> l < length (tables La)
              \<and> tfields (tables La ! l) (c_str s) = last (stack La)
              \<and> (last (stack La) \<noteq> LNil \<and> package_ready La pa l \<longrightarrow>
                    require_library lcb engb luserdatab lsbb (La\<lparr>stack := LString s # restb\<rparr>) =
                      (Return 1,
                       La\<lparr>stack := (LString s # restb) @ [LTable pa, LTable l, last (stack La)]\<rparr>)))"
proof (intro conjI impI)
  assume "tfields (tables L ! l) (c_str s) \<noteq> LNil"
  then show "require_library lc eng luserdata lsb L =
              (Return 1,
               L\<lparr>stack := stack L @ [LTable p, LTable l, tfields (tables L ! l) (c_str s)]\<rparr>)"
    by (simp add: require_library_start [OF assms])
next
  assume "tfields (tables L ! l) (c_str s) = LNil"
  then show "require_library lc eng luserdata lsb L =
                bind_exec (require_load lc eng luserdata lsb (c_str s) (marked L p l (c_str s)))
                  (\<lambda>u L7. bind_exec (lua_pushvalue L7 (- 1))
                  (\<lambda>u L8. bind_exec (lua_setfield eng L8 (int (length (stack L)) + 2) (c_str s))
                  (\<lambda>u L9. (Return 1, L9))))"
    by (simp add: require_library_start [OF assms])
next
  have "l < length (tables L)" using assms(1) by (simp add: package_ready_def)
  then show "tfields (tables (marked L p l (c_str s)) ! l) (c_str s) = LBoolean True"
    by (simp add: marked_def)
next
  assume a: "tfields (tables L ! l) (c_str s) = LNil
              \<and> require_library lc eng luserdata lsb L = (Return n, La)"
  note st = require_stores [OF assms, of lc eng luserdata lsb n La]
  show "n = 1" and "stack La \<noteq> []" and "l < length (tables La)"
    and "tfields (tables La ! l) (c_str s) = last (stack La)"
    using a st by simp_all
  assume b: "last (stack La) \<noteq> LNil \<and> package_ready La pa l"
  let ?Lb = "La\<lparr>stack := LString s # restb\<rparr>"
  have r: "package_ready ?Lb pa l" using b by (simp add: package_ready_stack)
  have s: "stack ?Lb = LString s # restb" by simp
  have v: "tfields (tables ?Lb ! l) (c_str s) = last (stack La)" using a st by simp
  show "require_library lcb engb luserdatab lsbb ?Lb =
          (Return 1, La\<lparr>stack := (LString s # restb) @ [LTable pa, LTable l, last (stack La)]\<rparr>)"
    using b v by (simp add: require_library_start [OF r s])
qed


text \<open>
  C5 (amended). For a name without a zero byte: when \<open>package.loaded[name]\<close> holds a
  value that is not nil, \<open>require(name)\<close> returns it and changes nothing but the stack:
  no loader runs and no file is executed. Otherwise the module is loaded in a state
  where \<open>package.loaded[name]\<close> holds the mark \<open>true\<close>, and after a successful
  \<open>require(name)\<close> the value returned stands at \<open>name\<close> in the table that was
  \<open>package.loaded\<close> when the call began. When that value is not nil and
  \<open>package.loaded\<close> is still that table (\<open>package\<close> may be another table by then), a
  second \<open>require(name)\<close> returns the same value, again without loading.
\<close>

theorem require_cache:
  assumes "package_ready L p l" and "stack L = LString s # rest" and "NUL \<notin> set s"
  shows "(tfields (tables L ! l) s \<noteq> LNil \<longrightarrow>
            require_library lc eng luserdata lsb L =
              (Return 1,
               L\<lparr>stack := stack L @ [LTable p, LTable l, tfields (tables L ! l) s]\<rparr>))
         \<and> (tfields (tables L ! l) s = LNil \<longrightarrow>
              require_library lc eng luserdata lsb L =
                bind_exec (require_load lc eng luserdata lsb s (marked L p l s))
                  (\<lambda>u L7. bind_exec (lua_pushvalue L7 (- 1))
                  (\<lambda>u L8. bind_exec (lua_setfield eng L8 (int (length (stack L)) + 2) s)
                  (\<lambda>u L9. (Return 1, L9))))
              \<and> tfields (tables (marked L p l s) ! l) s = LBoolean True)
         \<and> (tfields (tables L ! l) s = LNil
              \<and> require_library lc eng luserdata lsb L = (Return n, La) \<longrightarrow>
              n = 1 \<and> stack La \<noteq> [] \<and> l < length (tables La)
              \<and> tfields (tables La ! l) s = last (stack La)
              \<and> (last (stack La) \<noteq> LNil \<and> package_ready La pa l \<longrightarrow>
                    require_library lcb engb luserdatab lsbb (La\<lparr>stack := LString s # restb\<rparr>) =
                      (Return 1,
                       La\<lparr>stack := (LString s # restb) @ [LTable pa, LTable l, last (stack La)]\<rparr>)))"
proof -
  have c: "c_str s = s"
    using assms(3) by (rule c_str_plain)
  show ?thesis
    by (rule require_cache_c_name [OF assms(1,2), unfolded c])
qed

theorem require_cache_witness:
  "package_ready example_lua_req_os 1 2 \<and> NUL \<notin> set ''os''
   \<and> tfields (tables example_lua_req_os ! 2) ''os'' = LNil
   \<and> fst (require_library example_libc example_engine 1 example_sandbox example_lua_req_os)
       = Return 1
   \<and> last (stack (snd (require_library example_libc example_engine 1 example_sandbox
         example_lua_req_os))) = LTable 3
   \<and> tfields (tables (snd (require_library example_libc example_engine 1 example_sandbox
         example_lua_req_os)) ! 2) ''os'' = LTable 3
   \<and> require_library example_libc example_engine 1 example_sandbox
        ((snd (require_library example_libc example_engine 1 example_sandbox example_lua_req_os))
           \<lparr>stack := [LString ''os'']\<rparr>)
       = (Return 1,
          (snd (require_library example_libc example_engine 1 example_sandbox example_lua_req_os))
            \<lparr>stack := [LString ''os'', LTable 1, LTable 2, LTable 3]\<rparr>)"
proof -
  let ?R = "require_library example_libc example_engine 1 example_sandbox example_lua_req_os"
  note v = example_require_os_eval
  have r: "package_ready example_lua_req_os 1 2"
    unfolding example_lua_req_os_def by (rule example_lua_ready)
  have s: "stack example_lua_req_os = LString ''os'' # []"
    by (simp add: example_lua_req_os_def)
  have z: "NUL \<notin> set ''os''"
    by (simp add: NUL_def)
  have n: "tfields (tables example_lua_req_os ! 2) ''os'' = LNil"
    by (simp add: example_lua_req_os_def example_lua_def)
  have eq: "?R = (Return 1, snd ?R)"
    using v(1) by (simp add: prod_eq_iff)
  have top: "last (stack (snd ?R)) = LTable 3"
    by (simp add: v(2))
  note t = require_cache [OF r s z, where lc = example_libc and eng = example_engine
      and luserdata = 1 and lsb = example_sandbox and n = 1 and La = "snd ?R"
      and lcb = example_libc and engb = example_engine and luserdatab = 1
      and lsbb = example_sandbox and restb = "[]" and pa = 1, THEN conjunct2, THEN conjunct2, rule_format,
      OF conjI [OF n eq]]
  show ?thesis
    using t v(3) top r n z v(1) by simp
qed

lemma example_require_nul_cached:
  "fst (require_library example_libc example_engine 1 example_sandbox_root
     example_lua_nul_cached) = Return 1"
  "last (stack (snd (require_library example_libc example_engine 1 example_sandbox_root
     example_lua_nul_cached))) = LNil"
  "events (snd (require_library example_libc example_engine 1 example_sandbox_root
     example_lua_nul_cached)) = [DoFile ''/mods/mod.lua'']"
proof -
  note f = example_mod_facts
  have r: "package_ready example_lua_nul_cached 1 2"
    by (simp add: package_ready_def example_lua_nul_cached_def example_lua_def
          package_table_def loaded_table_def)
  have s: "stack example_lua_nul_cached = LString example_nul_name # []"
    by (simp add: example_lua_nul_cached_def)
  have d: "example_nul_name \<noteq> ''mod''"
    by (simp add: example_nul_name_def)
  have n: "tfields (tables example_lua_nul_cached ! 2) ''mod'' = LNil"
    using d by (simp add: example_lua_nul_cached_def)
  note e = require_library_start [OF r s,
      of example_libc example_engine 1 example_sandbox_root,
      unfolded example_nul_facts(1), simplified n require_load_external [OF f(4)], simplified]
  show "fst (require_library example_libc example_engine 1 example_sandbox_root
     example_lua_nul_cached) = Return 1"
    unfolding e
    by (simp add: require_external_def example_sandbox_root_def NULL_def example_mod_name
        path_mod MAX_PATH_def luaL_dofile_def example_engine_def marked_def
          lua_setfield_def lua_push_def index2adr_def
          LUA_GLOBALSINDEX_def lua_setmetatable_def lua_newtable_def set_metatable_of_def
          lua_pop_def lua_pushvalue_def example_lua_nul_cached_def example_lua_def
        del: name_ok.simps)
  show "last (stack (snd (require_library example_libc example_engine 1 example_sandbox_root
     example_lua_nul_cached))) = LNil"
    unfolding e
    by (simp add: require_external_def example_sandbox_root_def NULL_def example_mod_name
        path_mod MAX_PATH_def luaL_dofile_def example_engine_def marked_def
          lua_setfield_def lua_push_def index2adr_def
          LUA_GLOBALSINDEX_def lua_setmetatable_def lua_newtable_def set_metatable_of_def
          lua_pop_def lua_pushvalue_def example_lua_nul_cached_def example_lua_def
        del: name_ok.simps)
  show "events (snd (require_library example_libc example_engine 1 example_sandbox_root
     example_lua_nul_cached)) = [DoFile ''/mods/mod.lua'']"
    unfolding e
    by (simp add: require_external_def example_sandbox_root_def NULL_def example_mod_name
        path_mod MAX_PATH_def luaL_dofile_def example_engine_def marked_def
          lua_setfield_def lua_push_def index2adr_def
          LUA_GLOBALSINDEX_def lua_setmetatable_def lua_newtable_def set_metatable_of_def
          lua_pop_def lua_pushvalue_def example_lua_nul_cached_def example_lua_def
        del: name_ok.simps)
qed

lemma example_require_swap:
  "require_library example_libc example_engine_swap 1 example_sandbox_root example_lua_mod
     = (Return 1, example_lua_after_swap)"
proof -
  note f = example_mod_facts
  note e = require_library_start [OF example_mod_ready f(1),
      of example_libc example_engine_swap 1 example_sandbox_root,
      unfolded f(2), simplified f(3) require_load_external [OF f(4)], simplified]
  show ?thesis
    unfolding e
    by (simp add: require_external_def example_sandbox_root_def NULL_def example_mod_name
        path_mod MAX_PATH_def luaL_dofile_def example_engine_def marked_def
          lua_setfield_def lua_push_def index2adr_def
          LUA_GLOBALSINDEX_def lua_setmetatable_def lua_newtable_def set_metatable_of_def
          lua_pop_def lua_pushvalue_def example_engine_swap_def
          example_lua_mod_def example_lua_def example_lua_after_swap_def numeral_3_eq_3
        del: name_ok.simps)
qed

lemma example_require_swap_again:
  "fst (require_library example_libc example_engine_swap 1 example_sandbox_root
          (example_lua_after_swap\<lparr>stack := [LString ''mod'']\<rparr>)) = Return 1"
  "stack (snd (require_library example_libc example_engine_swap 1 example_sandbox_root
          (example_lua_after_swap\<lparr>stack := [LString ''mod'']\<rparr>)))
     = [LString ''mod'', LTable 1, LTable 3, LTable 5]"
  "events (snd (require_library example_libc example_engine_swap 1 example_sandbox_root
          (example_lua_after_swap\<lparr>stack := [LString ''mod'']\<rparr>)))
     = [DoFile ''/mods/mod.lua'', DoFile ''/mods/mod.lua'']"
proof -
  let ?L = "example_lua_after_swap\<lparr>stack := [LString ''mod'']\<rparr>"
  note f = example_mod_facts
  have r: "package_ready ?L 1 3"
    by (simp add: package_ready_def example_lua_after_swap_def package_table_def
          loaded_table_def)
  have s: "stack ?L = LString ''mod'' # []"
    by simp
  have n: "tfields (tables ?L ! 3) ''mod'' = LNil"
    by (simp add: example_lua_after_swap_def)
  note e = require_library_start [OF r s,
      of example_libc example_engine_swap 1 example_sandbox_root,
      unfolded f(2), simplified n require_load_external [OF f(4)], simplified]
  show "fst (require_library example_libc example_engine_swap 1 example_sandbox_root ?L)
          = Return 1"
    unfolding e
    by (simp add: require_external_def example_sandbox_root_def NULL_def example_mod_name
        path_mod MAX_PATH_def luaL_dofile_def example_engine_def marked_def
          lua_setfield_def lua_push_def index2adr_def
          LUA_GLOBALSINDEX_def lua_setmetatable_def lua_newtable_def set_metatable_of_def
          lua_pop_def lua_pushvalue_def example_engine_swap_def example_lua_after_swap_def
        del: name_ok.simps)
  show "stack (snd (require_library example_libc example_engine_swap 1 example_sandbox_root ?L))
     = [LString ''mod'', LTable 1, LTable 3, LTable 5]"
    unfolding e
    by (simp add: require_external_def example_sandbox_root_def NULL_def example_mod_name
        path_mod MAX_PATH_def luaL_dofile_def example_engine_def marked_def
          lua_setfield_def lua_push_def index2adr_def
          LUA_GLOBALSINDEX_def lua_setmetatable_def lua_newtable_def set_metatable_of_def
          lua_pop_def lua_pushvalue_def example_engine_swap_def example_lua_after_swap_def
        del: name_ok.simps)
  show "events (snd (require_library example_libc example_engine_swap 1 example_sandbox_root ?L))
     = [DoFile ''/mods/mod.lua'', DoFile ''/mods/mod.lua'']"
    unfolding e
    by (simp add: require_external_def example_sandbox_root_def NULL_def example_mod_name
        path_mod MAX_PATH_def luaL_dofile_def example_engine_def marked_def
          lua_setfield_def lua_push_def index2adr_def
          LUA_GLOBALSINDEX_def lua_setmetatable_def lua_newtable_def set_metatable_of_def
          lua_pop_def lua_pushvalue_def example_engine_swap_def example_lua_after_swap_def
        del: name_ok.simps)
qed

text \<open>
  The claim as it was stated fails in three ways. A module whose chunk returns nil:
  the first \<open>require\<close> succeeds and returns nil, \<open>package.loaded[name]\<close> is nil
  afterwards, and the second \<open>require\<close> executes the file again and returns another
  value. A name with a zero byte is read up to that byte: with a value stored under the
  whole name, \<open>require\<close> looks under \<open>mod\<close>, executes \<open>mod.lua\<close> and returns what
  the chunk returns. And a chunk that puts another table in \<open>package.loaded\<close>: what
  the first \<open>require\<close> returns is stored in the table that was \<open>package.loaded\<close>
  before, the second \<open>require\<close> does not find it, executes the file again and returns
  another value.
\<close>

theorem require_nil_module_not_cached:
  "require_library example_libc example_engine 1 example_sandbox_root example_lua_mod
     = (Return 1, example_lua_after_mod)
   \<and> last (stack example_lua_after_mod) = LNil
   \<and> tfields (tables example_lua_after_mod ! 2) ''mod'' = LNil
   \<and> fst (require_library example_libc example_engine 1 example_sandbox_root
          (example_lua_after_mod\<lparr>stack := [LString ''mod'']\<rparr>)) = Return 1
   \<and> last (stack (snd (require_library example_libc example_engine 1 example_sandbox_root
          (example_lua_after_mod\<lparr>stack := [LString ''mod'']\<rparr>)))) = LBoolean True
   \<and> events (snd (require_library example_libc example_engine 1 example_sandbox_root
          (example_lua_after_mod\<lparr>stack := [LString ''mod'']\<rparr>)))
       = [DoFile ''/mods/mod.lua'', DoFile ''/mods/mod.lua'']
   \<and> stack example_lua_nul_cached = [LString example_nul_name]
   \<and> tfields (tables example_lua_nul_cached ! 2) example_nul_name = LBoolean True
   \<and> fst (require_library example_libc example_engine 1 example_sandbox_root
          example_lua_nul_cached) = Return 1
   \<and> last (stack (snd (require_library example_libc example_engine 1 example_sandbox_root
          example_lua_nul_cached))) = LNil
   \<and> events (snd (require_library example_libc example_engine 1 example_sandbox_root
          example_lua_nul_cached)) = [DoFile ''/mods/mod.lua'']
   \<and> require_library example_libc example_engine_swap 1 example_sandbox_root example_lua_mod
       = (Return 1, example_lua_after_swap)
   \<and> last (stack example_lua_after_swap) = LTable 3
   \<and> tfields (tables example_lua_after_swap ! 2) ''mod'' = LTable 3
   \<and> tfields (tables example_lua_after_swap ! 1) ''loaded'' = LTable 3
   \<and> fst (require_library example_libc example_engine_swap 1 example_sandbox_root
          (example_lua_after_swap\<lparr>stack := [LString ''mod'']\<rparr>)) = Return 1
   \<and> last (stack (snd (require_library example_libc example_engine_swap 1 example_sandbox_root
          (example_lua_after_swap\<lparr>stack := [LString ''mod'']\<rparr>)))) = LTable 5
   \<and> events (snd (require_library example_libc example_engine_swap 1 example_sandbox_root
          (example_lua_after_swap\<lparr>stack := [LString ''mod'']\<rparr>)))
       = [DoFile ''/mods/mod.lua'', DoFile ''/mods/mod.lua'']"
proof -
  have a: "stack example_lua_nul_cached = [LString example_nul_name]"
    "tfields (tables example_lua_nul_cached ! 2) example_nul_name = LBoolean True"
    by (simp_all add: example_lua_nul_cached_def)
  have b: "last (stack example_lua_after_swap) = LTable 3"
    "tfields (tables example_lua_after_swap ! 2) ''mod'' = LTable 3"
    "tfields (tables example_lua_after_swap ! 1) ''loaded'' = LTable 3"
    by (simp_all add: example_lua_after_swap_def)
  have c: "last (stack example_lua_after_mod) = LNil"
    "tfields (tables example_lua_after_mod ! 2) ''mod'' = LNil"
    by (simp_all add: example_lua_after_mod_def)
  show ?thesis
    using example_require_mod example_require_mod_again example_require_nul_cached
      example_require_swap example_require_swap_again a b c
    by simp
qed
section \<open>C2: the invariants of the quota table\<close>

lemma sint_le_uint: "sint w \<le> uint w" for w :: "32 word"
proof -
  have "sint w = take_bit 32 (uint w) - 2 ^ 32 * of_bool (bit (uint w) 31)"
    by (simp add: sint_uint signed_take_bit_eq_take_bit_minus)
  moreover have "take_bit 32 (uint w) = uint w"
    by (simp add: take_bit_int_eq_self_iff) (use unsigned_less [of w, where 'a = int] in simp)
  ultimately show ?thesis by simp
qed

lemma positive_remaining:
  fixes d :: size_t
  shows "sint (ucast d :: 32 word) \<le> int (unat d)"
proof -
  let ?w = "ucast d :: 32 word"
  have "sint ?w \<le> uint ?w" by (rule sint_le_uint)
  moreover have "uint ?w = take_bit 32 (uint d)"
    by (simp add: unsigned_ucast_eq)
  moreover have "take_bit 32 (uint d) \<le> uint d"
    by (simp add: take_bit_int_less_eq_self_iff)
  ultimately show ?thesis by simp
qed

lemma unat_add_nat:
  fixes p :: size_t
  assumes "unat p + n < 2 ^ 64"
  shows "unat (p + of_nat n) = unat p + n"
proof -
  have "n < 2 ^ 64" using assms by simp
  then have "unat (of_nat n :: size_t) = n" by (simp add: unat_of_nat)
  then show ?thesis using assms by (simp add: unat_add_lem [THEN iffD1])
qed

lemma advance_within:
  fixes p sz :: size_t
  assumes le: "p \<le> sz" and n0: "0 \<le> needed"
    and lt: "needed < sint (ucast (sz - p) :: 32 word)"
  shows "p + of_int needed \<le> sz"
proof -
  have r: "sint (ucast (sz - p) :: 32 word) \<le> int (unat (sz - p))"
    by (rule positive_remaining)
  have d: "unat (sz - p) = unat sz - unat p" using le by (simp add: unat_sub)
  have ps: "unat p \<le> unat sz" using le by (simp add: word_le_nat_alt)
  have b: "unat p + nat needed < unat sz" using r d ps lt n0 by linarith
  have "unat sz < 2 ^ 64" using unsigned_less [of sz] by simp
  then have "unat p + nat needed < 2 ^ 64" using b by simp
  then have "unat (p + of_nat (nat needed)) = unat p + nat needed"
    by (rule unat_add_nat)
  moreover have "(of_int needed :: size_t) = of_nat (nat needed)" using n0 by simp
  ultimately show ?thesis using b by (simp add: word_le_nat_alt)
qed

lemma write_at_length: "write_at d i bs = Some d' \<Longrightarrow> length d' = length d"
  by (auto simp: write_at_def split: if_splits)

lemma vsnprintf_ret:
  "snd (vsnprintf_s lc n s) = - 1 \<or> 0 \<le> snd (vsnprintf_s lc n s)"
  by (simp add: vsnprintf_s_def Let_def)

lemma output_keeps_refl: "output_keeps out out"
  by (simp add: output_keeps_def)

lemma output_keeps_trans:
  "output_keeps a b \<Longrightarrow> output_keeps b c \<Longrightarrow> output_keeps a c"
  by (simp add: output_keeps_def)

lemma output_keeps_data:
  "length d = length (data out) \<Longrightarrow> output_keeps out (out\<lparr>data := d\<rparr>)"
  by (simp add: output_keeps_def out_inv_def)

lemma output_keeps_grown:
  assumes "unat (pos out) \<le> unat newsize" and "unat (pos out) \<le> length (data out)"
    and "maxsize out \<noteq> 0 \<longrightarrow> newsize \<le> maxsize out"
  shows "output_keeps out
           (out\<lparr>data := take (unat (pos out)) (data out)
                            @ replicate (unat newsize - unat (pos out)) c,
                 size' := newsize\<rparr>)"
  using assms by (simp add: output_keeps_def out_inv_def word_le_nat_alt)

lemma output_keeps_advance:
  assumes "0 \<le> needed" and "needed < sint (ucast (size' out - pos out) :: 32 word)"
  shows "output_keeps out (out\<lparr>pos := pos out + of_int needed\<rparr>)"
  using assms advance_within [of "pos out" "size' out" needed]
  by (simp add: output_keeps_def out_inv_def)

lemma appendf_round_keeps:
  assumes "appendf_round lc out s = Some rd"
  shows "case rd of Again out' \<Rightarrow> output_keeps out out'
                  | Stop Fault \<Rightarrow> True
                  | Stop (Ret (r, out')) \<Rightarrow> (r = 0 \<or> r = 1) \<and> output_keeps out out'"
proof -
  let ?remaining = "sint (ucast (size' out - pos out) :: 32 word)"
  let ?pr = "vsnprintf_s lc (unat (of_int ?remaining :: size_t)) s"
  let ?needed = "if snd ?pr = - 1 then ?remaining else snd ?pr"
  show ?thesis
  proof (cases "write_at (data out) (unat (pos out)) (fst ?pr)")
    case None
    then have "rd = Stop Fault" using assms by (simp add: appendf_round_def Let_def)
    then show ?thesis by simp
  next
    case (Some d)
    let ?out1 = "out\<lparr>data := d\<rparr>"
    have k1: "output_keeps out ?out1"
      using write_at_length [OF Some] by (rule output_keeps_data)
    show ?thesis
    proof (cases "?needed \<ge> ?remaining")
      case False
      then have y: "rd = Stop (Ret (0, ?out1\<lparr>pos := pos ?out1 + of_int ?needed\<rparr>))"
        using assms Some by (simp add: appendf_round_def Let_def)
      have n0: "0 \<le> ?needed"
        using False vsnprintf_ret [of lc "unat (of_int ?remaining :: size_t)" s]
        by (auto split: if_splits)
      have "output_keeps ?out1 (?out1\<lparr>pos := pos ?out1 + of_int ?needed\<rparr>)"
        using n0 False by (intro output_keeps_advance) simp_all
      then have "output_keeps out (?out1\<lparr>pos := pos ?out1 + of_int ?needed\<rparr>)"
        using k1 output_keeps_trans by blast
      then show ?thesis unfolding y by simp
    next
      case True
      have shape: "rd = Stop (Ret (1, ?out1)) \<or> rd = Stop Fault
            \<or> (\<exists>newsize. unat (pos ?out1) \<le> unat newsize
                   \<and> unat (pos ?out1) \<le> length (data ?out1)
                   \<and> (maxsize ?out1 \<noteq> 0 \<longrightarrow> newsize \<le> maxsize ?out1)
                   \<and> rd = Again (?out1\<lparr>data := take (unat (pos ?out1)) (data ?out1)
                                  @ replicate (unat newsize - unat (pos ?out1)) (junk lc),
                              size' := newsize\<rparr>))"
        using assms Some True
        by (auto simp: appendf_round_def Let_def not_less split: option.splits if_splits)
      then show ?thesis
      proof (elim disjE exE conjE)
        assume "rd = Stop (Ret (1, ?out1))"
        then show ?thesis using k1 by simp
      next
        assume "rd = Stop Fault"
        then show ?thesis by simp
      next
        fix newsize
        let ?out2 = "?out1\<lparr>data := take (unat (pos ?out1)) (data ?out1)
                                  @ replicate (unat newsize - unat (pos ?out1)) (junk lc),
                              size' := newsize\<rparr>"
        assume c: "unat (pos ?out1) \<le> unat newsize" "unat (pos ?out1) \<le> length (data ?out1)"
          "maxsize ?out1 \<noteq> 0 \<longrightarrow> newsize \<le> maxsize ?out1"
          and r: "rd = Again ?out2"
        have "output_keeps ?out1 ?out2"
          using c by (rule output_keeps_grown)
        then have "output_keeps out ?out2"
          using k1 output_keeps_trans by blast
        then show ?thesis unfolding r by simp
      qed
    qed
  qed
qed

lemma appendf_keeps:
  assumes "appendf lc out s = Some y"
  shows "keeps_on_return out y"
proof (rule appendf.raw_induct [where P = "\<lambda>lc out s y. keeps_on_return out y", OF _ assms])
  fix f lc out s y
  assume IH: "\<And>a b c z. f a b c = Some z \<Longrightarrow> keeps_on_return b z"
    and body: "(case appendf_round lc out s of
                  None \<Rightarrow> None
                | Some (Stop r) \<Rightarrow> Some r
                | Some (Again out') \<Rightarrow> f lc out' s) = Some y"
  show "keeps_on_return out y"
  proof (cases "appendf_round lc out s")
    case None
    then show ?thesis using body by simp
  next
    case (Some rd)
    note rk = appendf_round_keeps [OF Some]
    show ?thesis
    proof (cases rd)
      case (Again out')
      then have "f lc out' s = Some y" using body Some by simp
      then have "keeps_on_return out' y" by (rule IH)
      moreover have "output_keeps out out'" using rk Again by simp
      ultimately show ?thesis
        using output_keeps_trans unfolding keeps_on_return_def by blast
    next
      case (Stop r)
      then have "y = r" using body Some by simp
      then show ?thesis
        using rk Stop by (auto simp: keeps_on_return_def split: res.splits)
    qed
  qed
qed


lemma realloc_output_keeps:
  assumes "realloc_output lc out needed = Some (r, out')"
  shows "maxsize out' = maxsize out \<and> pos out' = pos out
         \<and> (r = 0 \<or> r = 1)
         \<and> (r \<noteq> 0 \<longrightarrow> out' = out)
         \<and> (r = 0 \<longrightarrow> length (data out') = unat (size' out')
                        \<and> (maxsize out \<noteq> 0 \<longrightarrow> size' out' \<le> maxsize out))"
  using assms
  by (auto simp: realloc_output_def Let_def not_less split: if_splits option.splits)

lemma appends_keeps:
  assumes a: "appends lc out s = Some y" and len: "length (c_str s) + 1 < 2 ^ 64"
  shows "keeps_on_return out y"
  unfolding keeps_on_return_def
proof (intro allI impI)
  fix r out'
  assume y: "y = Ret (r, out')"
  let ?needed = "strlen s + 1"
  show "output_keeps out out'"
  proof (cases "r = 0")
    case False
    then have "out' = out" using appends_failure [of lc out s r out'] a y by simp
    then show ?thesis by (simp add: output_keeps_refl)
  next
    case True
    obtain r0 out0 where
      pre: "(if size' out - pos out < ?needed then realloc_output lc out ?needed else Some (0, out))
              = Some (r0, out0)"
      using a by (auto simp: appends_def Let_def split: option.splits prod.splits)
    have r0: "r0 = 0"
      using a y True pre by (auto simp: appends_def Let_def split: option.splits if_splits)
    obtain d where res: "out' = out0\<lparr>data := d, pos := pos out0 + (?needed - 1)\<rparr>"
      and wr: "write_at (data out0) (unat (pos out0)) (take (unat ?needed) (c_str s @ [NUL])) = Some d"
      using a y True pre r0
      by (auto simp: appends_def Let_def split: option.splits if_splits)
    have m: "maxsize out0 = maxsize out"
      using pre realloc_output_keeps [of lc out ?needed r0 out0] by (auto split: if_splits)
    have inv: "out_inv out'" if i: "out_inv out"
    proof -
      have le: "pos out \<le> size' out" using i by (simp add: out_inv_def)
      have ok: "appends lc out s = Some (Ret (0, out'))" using a y True by simp
      have p: "unat (pos out') < length (data out')"
        using appends_success [OF le len ok] by simp
      have l0: "length (data out0) = unat (size' out0)
                \<and> (maxsize out \<noteq> 0 \<longrightarrow> size' out0 \<le> maxsize out)"
      proof (cases "size' out - pos out < ?needed")
        case True
        then show ?thesis
          using pre r0 realloc_output_keeps [of lc out ?needed r0 out0] by simp
      next
        case False
        then have "out0 = out" using pre by simp
        then show ?thesis using i by (simp add: out_inv_def)
      qed
      have "length d = length (data out0)" using wr by (rule write_at_length)
      then show ?thesis
        using p l0 res m by (simp add: out_inv_def word_le_nat_alt)
    qed
    show ?thesis using inv res m by (simp add: output_keeps_def)
  qed
qed

lemma appendc_keeps:
  assumes a: "appendc lc out ch = Some y"
  shows "keeps_on_return out y"
  unfolding keeps_on_return_def
proof (intro allI impI)
  fix r out'
  assume y: "y = Ret (r, out')"
  show "output_keeps out out'"
  proof (cases "r = 0")
    case False
    then have "out' = out" using appendc_failure [of lc out ch r out'] a y by simp
    then show ?thesis by (simp add: output_keeps_refl)
  next
    case True
    obtain r0 out0 where
      pre: "(if size' out - pos out < 2 then realloc_output lc out 2 else Some (0, out))
              = Some (r0, out0)"
      using a by (auto simp: appendc_def Let_def split: option.splits prod.splits)
    have r0: "r0 = 0"
      using a y True pre by (auto simp: appendc_def Let_def split: option.splits if_splits)
    obtain d1 d2 where res: "out' = out0\<lparr>data := d2, pos := pos out0 + 1\<rparr>"
      and wr1: "write_at (data out0) (unat (pos out0)) [ch] = Some d1"
      and wr2: "write_at d1 (unat (pos out0 + 1)) [NUL] = Some d2"
      using a y True pre r0
      by (auto simp: appendc_def Let_def split: option.splits if_splits)
    have m: "maxsize out0 = maxsize out"
      using pre realloc_output_keeps [of lc out 2 r0 out0] by (auto split: if_splits)
    have inv: "out_inv out'" if i: "out_inv out"
    proof -
      have le: "pos out \<le> size' out" using i by (simp add: out_inv_def)
      have ok: "appendc lc out ch = Some (Ret (0, out'))" using a y True by simp
      have p: "unat (pos out') < length (data out')"
        using appendc_success [OF le ok] by simp
      have l0: "length (data out0) = unat (size' out0)
                \<and> (maxsize out \<noteq> 0 \<longrightarrow> size' out0 \<le> maxsize out)"
      proof (cases "size' out - pos out < 2")
        case True
        then show ?thesis
          using pre r0 realloc_output_keeps [of lc out 2 r0 out0] by simp
      next
        case False
        then have "out0 = out" using pre by simp
        then show ?thesis using i by (simp add: out_inv_def)
      qed
      have "length d2 = length (data out0)"
        using write_at_length [OF wr1] write_at_length [OF wr2] by simp
      then show ?thesis
        using p l0 res m by (simp add: out_inv_def word_le_nat_alt)
    qed
    show ?thesis using inv res m by (simp add: output_keeps_def)
  qed
qed


lemma append_result_keeps:
  assumes "append_result L lsb x = Some (Ret (r, L', lsb'))"
    and "\<And>y. x = Some y \<Longrightarrow> keeps_on_return (output' lsb) y"
  shows "usage lsb' = usage lsb \<and> output_keeps (output' lsb) (output' lsb')"
  using assms
  by (auto simp: append_result_def set_output_def keeps_on_return_def
        split: option.splits res.splits prod.splits)

lemma nil_length: "length (c_str ''nil'') + 1 < 2 ^ 64"
  by (simp add: c_str_def NUL_def)

lemma output_arg_keeps:
  assumes ok: "serializers_ok eng"
    and a: "output_arg lc eng L lsb i = Some (Ret (r, L', lsb'))"
  shows "usage lsb' = usage lsb \<and> output_keeps (output' lsb) (output' lsb')"
proof -
  have same: "lsb' = lsb \<Longrightarrow> ?thesis"
    by (simp add: output_keeps_refl)
  have dbl: "keeps_on_return out (Ret (serialize_double eng out x))" for out x
  proof -
    have "output_keeps out (snd (serialize_double eng out x))"
      using ok by (simp add: serializers_ok_def)
    then show ?thesis
      by (cases "serialize_double eng out x") (simp add: keeps_on_return_def)
  qed
  have cb: "keeps_on_return out (Ret (output_circular_buffer eng La p out))" for La p out
  proof -
    have "output_keeps out (snd (output_circular_buffer eng La p out))"
      using ok by (simp add: serializers_ok_def)
    then show ?thesis
      by (cases "output_circular_buffer eng La p out") (simp add: keeps_on_return_def)
  qed
  have js: "usage (snd (snd (serialize_kvp_as_json eng La lsba))) = usage lsba
            \<and> output_keeps (output' lsba) (output' (snd (snd (serialize_kvp_as_json eng La lsba))))"
    for La lsba
    using ok by (simp add: serializers_ok_def)
  show ?thesis
  proof (cases "index2adr L (int i)")
    case None
    then show ?thesis using a same by (simp add: output_arg_def)
  next
    case (Some v)
    show ?thesis
    proof (cases v)
      case LNil
      then show ?thesis
        using a Some appends_keeps [OF _ nil_length]
        by (auto simp: output_arg_def intro!: append_result_keeps)
    next
      case (LBoolean b)
      then show ?thesis
        using a Some appendf_keeps
        by (auto simp: output_arg_def intro!: append_result_keeps)
    next
      case (LNumber x)
      then show ?thesis
        using a Some dbl
        by (auto simp: output_arg_def intro!: append_result_keeps)
    next
      case (LString str)
      then show ?thesis
        using a Some appendf_keeps
        by (auto simp: output_arg_def intro!: append_result_keeps)
    next
      case (LUserdata u)
      then show ?thesis
        using a Some cb same
        by (auto simp: output_arg_def Let_def intro!: append_result_keeps split: if_splits)
    next
      case (LTable t)
      show ?thesis
      proof (cases "malloc_ok lc (64 * sizeof_table_ref eng)")
        case False
        then show ?thesis
          using a Some LTable by (auto simp: output_arg_def output_keeps_refl)
      next
        case True
        obtain u Lb where pv: "lua_pushvalue (lua_push LNil L) (int i) = (Return u, Lb)"
          using a Some LTable True
          by (auto simp: output_arg_def split: prod.splits exec.splits)
        obtain rc Lc lsbc where sj: "serialize_kvp_as_json eng Lb lsb = (rc, Lc, lsbc)"
          by (cases "serialize_kvp_as_json eng Lb lsb") auto
        have k1: "usage lsbc = usage lsb \<and> output_keeps (output' lsb) (output' lsbc)"
          using js [of Lb lsb] sj by simp
        show ?thesis
        proof (cases "rc = 0")
          case False
          then have "lsb' = lsbc"
            using a Some LTable True pv sj by (auto simp: output_arg_def)
          then show ?thesis using k1 by simp
        next
          case rc0: True
          obtain rc' out where ac: "appendc lc (output' lsbc) (CHR 0x0A) = Some (Ret (rc', out))"
            and l: "lsb' = set_output lsbc out"
            using a Some LTable True pv sj rc0
            by (auto simp: output_arg_def split: option.splits res.splits)
          have "output_keeps (output' lsbc) out"
            using appendc_keeps [OF ac] by (simp add: keeps_on_return_def)
          then show ?thesis
            using k1 l output_keeps_trans by (auto simp: set_output_def)
        qed
      qed
    qed (use a Some same in \<open>auto simp: output_arg_def\<close>)
  qed
qed

lemma output_seq_keeps:
  assumes "serializers_ok eng"
    and "output_seq lc eng xs L lsb = Some (Ret (r, L', lsb'))"
  shows "usage lsb' = usage lsb \<and> output_keeps (output' lsb) (output' lsb')"
  using assms(2)
proof (induction xs arbitrary: L lsb)
  case Nil
  then show ?case by (simp add: output_keeps_refl)
next
  case (Cons i xs)
  from Cons.prems obtain ra La lsba where
      a: "output_arg lc eng L lsb i = Some (Ret (ra, La, lsba))"
    by (auto split: option.splits res.splits)
  note k = output_arg_keeps [OF assms(1) a]
  show ?case
  proof (cases "ra = 0")
    case True
    then have "output_seq lc eng xs La lsba = Some (Ret (r, L', lsb'))"
      using Cons.prems a by simp
    then show ?thesis
      using Cons.IH k output_keeps_trans by metis
  next
    case False
    then have "lsb' = lsba" using Cons.prems a by simp
    then show ?thesis using k by simp
  qed
qed


lemma unat_ucast_down: "unat (ucast p :: unsigned) = unat p mod 2 ^ 32" for p :: size_t
  by (simp add: unsigned_ucast_eq take_bit_eq_mod)

lemma unat_ucast_up: "unat (ucast lim :: size_t) = unat lim" for lim :: unsigned
proof -
  have "unat lim < 2 ^ 64"
    using unsigned_less [of lim, where 'a = nat] by simp
  then show ?thesis
    by (simp add: unsigned_ucast_eq take_bit_eq_mod)
qed

lemma below_limit:
  fixes p :: size_t and lim :: unsigned
  assumes "p \<le> ucast lim"
  shows "(ucast p :: unsigned) \<le> lim"
proof -
  have a: "unat p \<le> unat lim"
    using assms by (simp add: word_le_nat_alt unat_ucast_up)
  have "unat lim < 2 ^ 32"
    using unsigned_less [of lim, where 'a = nat] by simp
  then have "unat p mod 2 ^ 32 = unat p" using a by simp
  then show ?thesis using a by (simp add: word_le_nat_alt unat_ucast_down)
qed

lemma limit_nonzero:
  fixes lim :: unsigned
  assumes "lim \<noteq> 0"
  shows "(ucast lim :: size_t) \<noteq> 0"
proof
  assume "(ucast lim :: size_t) = 0"
  then have "unat (ucast lim :: size_t) = 0" by simp
  then have "unat lim = 0" by (simp only: unat_ucast_up)
  then show False using assms by (simp add: unat_eq_0)
qed

lemma update_output_stats_usage:
  "usage (update_output_stats lsb) t s =
     (if t = LSB_UT_OUTPUT \<and> s = LSB_US_CURRENT then ucast (pos (output' lsb))
      else if t = LSB_UT_OUTPUT \<and> s = LSB_US_MAXIMUM
      then max (usage lsb LSB_UT_OUTPUT LSB_US_MAXIMUM) (ucast (pos (output' lsb)))
      else usage lsb t s)"
  by (auto simp: update_output_stats_def Let_def usage_set_usage max_def)

lemma quota_after_output:
  assumes q: "quota_inv lsb" and ok: "output_limit_ok lsb"
    and u: "usage lsbb = usage lsb" and k: "output_keeps (output' lsb) (output' lsbb)"
  shows "quota_inv (update_output_stats lsbb) \<and> output_limit_ok (update_output_stats lsbb)"
proof -
  let ?lim = "usage lsb LSB_UT_OUTPUT LSB_US_LIMIT"
  have i: "out_inv (output' lsbb)" and m: "maxsize (output' lsbb) = ucast ?lim"
    using ok k by (simp_all add: output_limit_ok_def output_keeps_def)
  have lim: "ucast (pos (output' lsbb)) \<le> ?lim" if "?lim \<noteq> 0"
  proof -
    have "maxsize (output' lsbb) \<noteq> 0" using that m limit_nonzero by simp
    then have "pos (output' lsbb) \<le> maxsize (output' lsbb)"
      using i by (auto simp: out_inv_def)
    then show ?thesis using m by (simp add: below_limit)
  qed
  have "quota_inv (update_output_stats lsbb)"
    using q u lim by (simp add: quota_inv_def update_output_stats_usage)
  moreover have "output_limit_ok (update_output_stats lsbb)"
    using i m u
    by (simp add: output_limit_ok_def update_output_stats_fields update_output_stats_usage)
  ultimately show ?thesis by simp
qed

lemma output_fn_state:
  assumes "output_fn lc eng luserdata L lsb = Some (r, La, lsba)" and "r \<noteq> Undef"
    and ok: "serializers_ok eng"
  shows "lsba = lsb
         \<or> (\<exists>lsbb. lsba = update_output_stats lsbb \<and> usage lsbb = usage lsb
                    \<and> output_keeps (output' lsb) (output' lsbb))"
proof (cases "NULL = luserdata \<or> stack L = []")
  case True
  have "\<exists>e. output_fn lc eng luserdata L lsb = Some (e, L, lsb)"
  proof (cases "NULL = luserdata")
    case True
    then show ?thesis by (simp add: output_fn_def)
  next
    case False
    then have "stack L = []" using \<open>NULL = luserdata \<or> stack L = []\<close> by simp
    then show ?thesis using False by (simp add: output_fn_def lua_gettop_def)
  qed
  then show ?thesis using assms(1) by auto
next
  case False
  then obtain result Lb lsbb where
      l: "output_seq lc eng [1..<Suc (length (stack L))] L lsb = Some (Ret (result, Lb, lsbb))"
    and s: "lsba = update_output_stats lsbb"
    using assms(1,2)
    by (auto simp: output_fn_def Let_def output_loop_seq lua_gettop_def
          split: option.splits res.splits if_splits)
  show ?thesis
    using output_seq_keeps [OF ok l] s by auto
qed

lemma word_sub_within: "y \<le> x \<Longrightarrow> x - y \<le> x" for x y :: unsigned
  by (simp add: word_le_nat_alt unat_sub)

text \<open>
  The steps that keep the invariants. From a quota table with \<open>CURRENT \<le> MAXIMUM\<close> and,
  where \<open>LIMIT\<close> is not zero, \<open>CURRENT \<le> LIMIT\<close>, for the memory and the output
  resource: a step of the allocation interposer with a new size that is not zero gives
  such a table again (the counter it writes has passed the test against the limit, and
  \<open>MAXIMUM\<close> follows it); a free step does when what it takes from \<open>CURRENT\<close> is not
  above \<open>CURRENT\<close>; \<open>sandbox_terminate\<close> does; and every call of \<open>output\<close> that
  returns or raises does, also one that fails partway, when the ceiling of the output
  buffer is the output limit, the buffer is well-formed and the serializers of the
  other files keep it so. None of these steps lowers a \<open>MAXIMUM\<close> counter.
\<close>

lemma quota_steps:
  assumes "quota_inv lsb"
  shows "(nsize \<noteq> 0 \<longrightarrow> quota_inv (fst (snd (memory_manager realloc lsb p osize nsize))))
       \<and> (nsize = 0 \<and> ucast osize \<le> usage lsb LSB_UT_MEMORY LSB_US_CURRENT \<longrightarrow>
            quota_inv (fst (snd (memory_manager realloc lsb p osize nsize))))
       \<and> quota_inv (sandbox_terminate blocks lsb)
       \<and> (output_limit_ok lsb \<and> serializers_ok eng
            \<and> output_fn lc eng luserdata L lsb = Some (r, La, lsba) \<and> r \<noteq> Undef \<longrightarrow>
            quota_inv lsba \<and> output_limit_ok lsba)
       \<and> (\<forall>t. usage lsb t LSB_US_MAXIMUM
                 \<le> usage (fst (snd (memory_manager realloc lsb p osize nsize))) t LSB_US_MAXIMUM
               \<and> usage lsb t LSB_US_MAXIMUM
                   \<le> usage (sandbox_terminate blocks lsb) t LSB_US_MAXIMUM)
       \<and> (serializers_ok eng
            \<and> output_fn lc eng luserdata L lsb = Some (r, La, lsba) \<and> r \<noteq> Undef \<longrightarrow>
            (\<forall>t. usage lsb t LSB_US_MAXIMUM \<le> usage lsba t LSB_US_MAXIMUM))"
proof (intro conjI impI allI)
  assume "nsize \<noteq> 0"
  then show "quota_inv (fst (snd (memory_manager realloc lsb p osize nsize)))"
    using assms
    by (auto simp: memory_manager_def Let_def quota_inv_def usage_set_usage)
next
  assume "nsize = 0 \<and> ucast osize \<le> usage lsb LSB_UT_MEMORY LSB_US_CURRENT"
  then show "quota_inv (fst (snd (memory_manager realloc lsb p osize nsize)))"
    using assms word_sub_within [of "ucast osize" "usage lsb LSB_UT_MEMORY LSB_US_CURRENT"]
    by (auto simp: memory_manager_def quota_inv_def usage_set_usage)
next
  have "usage (sandbox_terminate blocks lsb) t s =
          (if t = LSB_UT_MEMORY \<and> s = LSB_US_CURRENT then 0 else usage lsb t s)" for t s
    using lua_close_usage [of blocks lsb t s]
    by (cases "lua lsb") (auto simp: sandbox_terminate_def Let_def usage_set_usage set_usage_def)
  then show "quota_inv (sandbox_terminate blocks lsb)"
    and "usage lsb t LSB_US_MAXIMUM \<le> usage (sandbox_terminate blocks lsb) t LSB_US_MAXIMUM" for t
    using assms by (simp_all add: quota_inv_def)
next
  assume a: "output_limit_ok lsb \<and> serializers_ok eng
            \<and> output_fn lc eng luserdata L lsb = Some (r, La, lsba) \<and> r \<noteq> Undef"
  then have "lsba = lsb
         \<or> (\<exists>lsbb. lsba = update_output_stats lsbb \<and> usage lsbb = usage lsb
                    \<and> output_keeps (output' lsb) (output' lsbb))"
    by (intro output_fn_state) auto
  then show "quota_inv lsba" and "output_limit_ok lsba"
    using assms a quota_after_output by auto
next
  fix t
  show "usage lsb t LSB_US_MAXIMUM
          \<le> usage (fst (snd (memory_manager realloc lsb p osize nsize))) t LSB_US_MAXIMUM"
    by (auto simp: memory_manager_def Let_def usage_set_usage)
next
  fix t
  assume a: "serializers_ok eng
            \<and> output_fn lc eng luserdata L lsb = Some (r, La, lsba) \<and> r \<noteq> Undef"
  then have "lsba = lsb
         \<or> (\<exists>lsbb. lsba = update_output_stats lsbb \<and> usage lsbb = usage lsb
                    \<and> output_keeps (output' lsb) (output' lsbb))"
    by (intro output_fn_state) auto
  then show "usage lsb t LSB_US_MAXIMUM \<le> usage lsba t LSB_US_MAXIMUM"
    by (auto simp: update_output_stats_usage)
qed


lemma example_output_fails:
  "output_fn example_libc example_engine 1 example_lua_args example_sandbox
     = Some (Raise (LString ''output_limit exceeded''), example_lua_args,
             update_output_stats (example_sandbox\<lparr>output' := example_out_nilnil\<rparr>))"
proof -
  have p: "(1 :: ptr) \<noteq> NULL" and q: "stack example_lua_args \<noteq> []"
    by (simp_all add: NULL_def example_lua_args_def)
  have u: "[1..<Suc (length (stack example_lua_args))] = [1, 2, 3, 4]"
    by (simp add: example_lua_args_def example_lua_def upt_rec)
  have b: "output_seq example_libc example_engine [1, 2, 3, 4] example_lua_args example_sandbox
       = Some (Ret (1, example_lua_args, example_sandbox\<lparr>output' := example_out_nilnil\<rparr>))"
    using output_seq_stops [of example_libc example_engine "[1, 2]" example_lua_args
        example_sandbox example_lua_args "example_sandbox\<lparr>output' := example_out_nilnil\<rparr>"
        3 1 example_lua_args "example_sandbox\<lparr>output' := example_out_nilnil\<rparr>" "[4]"]
      example_seq_two example_arg_third
    by simp
  have e: "c_str (error_message (update_output_stats (example_sandbox\<lparr>output' := example_out_nilnil\<rparr>))) = []"
    by (simp add: update_output_stats_fields example_sandbox_def c_str_def)
  have m: "luaL_error ''output_limit exceeded'' [] = (Raise (LString ''output_limit exceeded'') :: int exec)"
    by (rule luaL_error_plain) (simp_all add: NUL_def)
  show ?thesis
    by (simp only: output_fn_by_seq [OF p q] u b) (simp add: e m)
qed

lemma example_serializers: "serializers_ok example_engine"
  by (simp add: serializers_ok_def example_engine_def output_keeps_def)

lemma example_quota:
  "quota_inv example_sandbox" "output_limit_ok example_sandbox"
  by (simp_all add: quota_inv_def output_limit_ok_def out_inv_def example_sandbox_def
        example_usage_def example_output_def)

text \<open>
  The steps of the statement above on the example sandbox: an allocation of 30 bytes
  that raises the maximum to 70, a free of 10 bytes, the termination, and a call of
  \<open>output\<close> that fails at its third argument with six bytes written.
\<close>

lemma quota_steps_example:
  "quota_inv example_sandbox \<and> output_limit_ok example_sandbox \<and> serializers_ok example_engine
   \<and> quota_inv (fst (snd (memory_manager (\<lambda>p n. 7) example_sandbox 0 0 30)))
   \<and> usage (fst (snd (memory_manager (\<lambda>p n. 7) example_sandbox 0 0 30)))
        LSB_UT_MEMORY LSB_US_MAXIMUM = 70
   \<and> quota_inv (fst (snd (memory_manager (\<lambda>p n. 7) example_sandbox 0 10 0)))
   \<and> quota_inv (sandbox_terminate [(8, 16)] example_sandbox)
   \<and> output_fn example_libc example_engine 1 example_lua_args example_sandbox
       = Some (Raise (LString ''output_limit exceeded''), example_lua_args,
               update_output_stats (example_sandbox\<lparr>output' := example_out_nilnil\<rparr>))
   \<and> quota_inv (update_output_stats (example_sandbox\<lparr>output' := example_out_nilnil\<rparr>))
   \<and> usage (update_output_stats (example_sandbox\<lparr>output' := example_out_nilnil\<rparr>))
        LSB_UT_OUTPUT LSB_US_CURRENT = 6"
proof -
  note q = example_quota
  let ?S = "update_output_stats (example_sandbox\<lparr>output' := example_out_nilnil\<rparr>)"
  note t = quota_steps [OF q(1), where realloc = "\<lambda>p n. 7" and p = 0
      and lc = example_libc and eng = example_engine and luserdata = 1 and L = example_lua_args
      and r = "Raise (LString ''output_limit exceeded'')" and La = example_lua_args
      and lsba = ?S and blocks = "[(8, 16)]"]
  have a: "quota_inv (fst (snd (memory_manager (\<lambda>p n. 7) example_sandbox 0 0 30)))"
    using t [where osize = 0 and nsize = 30] by simp
  have b: "quota_inv (fst (snd (memory_manager (\<lambda>p n. 7) example_sandbox 0 10 0)))"
    using t [where osize = 10 and nsize = 0]
    by (simp add: example_sandbox_def example_usage_def)
  have c: "quota_inv (sandbox_terminate [(8, 16)] example_sandbox)"
    using t [where osize = 0 and nsize = 0] by simp
  have d: "quota_inv ?S"
    using t [where osize = 0 and nsize = 0] q(2) example_serializers example_output_fails
    by simp
  have m: "usage (fst (snd (memory_manager (\<lambda>p n. 7) example_sandbox 0 0 30)))
        LSB_UT_MEMORY LSB_US_MAXIMUM = 70"
    by (simp add: memory_manager_def Let_def usage_set_usage example_sandbox_def
          example_usage_def NULL_def)
  have o: "usage ?S LSB_UT_OUTPUT LSB_US_CURRENT = 6"
    by (simp add: update_output_stats_fields example_out_nilnil_def)
  show ?thesis
    using q example_serializers a b c d m o example_output_fails by simp
qed

lemma example_allocations:
  "usage example_after_first LSB_UT_MEMORY LSB_US_LIMIT = 1073741824"
  "usage example_after_first LSB_UT_MEMORY LSB_US_CURRENT = 1073741824"
  "usage example_after_first LSB_UT_MEMORY LSB_US_MAXIMUM = 1073741824"
  "usage example_after_second LSB_UT_MEMORY LSB_US_LIMIT = 1073741824"
  "usage example_after_second LSB_UT_MEMORY LSB_US_CURRENT = 0"
  "usage example_after_second LSB_UT_MEMORY LSB_US_MAXIMUM = 1073741824"
  "usage example_after_free LSB_UT_MEMORY LSB_US_LIMIT = 1073741824"
  "usage example_after_free LSB_UT_MEMORY LSB_US_CURRENT = 3221225472"
  "usage example_after_free LSB_UT_MEMORY LSB_US_MAXIMUM = 1073741824"
  "usage example_after_first LSB_UT_OUTPUT = (\<lambda>s. 0)"
  "usage example_after_second LSB_UT_OUTPUT = (\<lambda>s. 0)"
  "usage example_after_free LSB_UT_OUTPUT = (\<lambda>s. 0)"
proof -
  have f: "usage example_fresh = (\<lambda>t s. 0)(LSB_UT_MEMORY := (\<lambda>s. 0)(LSB_US_LIMIT := 1073741824))"
    by (simp add: example_fresh_def)
  have r1: "example_realloc 0 1073741824 \<noteq> NULL" and r2: "example_realloc 0 3221225472 \<noteq> NULL"
    by (simp_all add: example_realloc_def NULL_def)
  show a: "usage example_after_first LSB_UT_MEMORY LSB_US_LIMIT = 1073741824"
    "usage example_after_first LSB_UT_MEMORY LSB_US_CURRENT = 1073741824"
    "usage example_after_first LSB_UT_MEMORY LSB_US_MAXIMUM = 1073741824"
    "usage example_after_first LSB_UT_OUTPUT = (\<lambda>s. 0)"
    using r1
    by (simp_all add: example_after_first_def memory_manager_def Let_def usage_set_usage f
          set_usage_def)
  show b: "usage example_after_second LSB_UT_MEMORY LSB_US_LIMIT = 1073741824"
    "usage example_after_second LSB_UT_MEMORY LSB_US_CURRENT = 0"
    "usage example_after_second LSB_UT_MEMORY LSB_US_MAXIMUM = 1073741824"
    "usage example_after_second LSB_UT_OUTPUT = (\<lambda>s. 0)"
    using r2
    by (simp_all add: example_after_second_def memory_manager_def Let_def usage_set_usage a
          set_usage_def)
  show "usage example_after_free LSB_UT_MEMORY LSB_US_LIMIT = 1073741824"
    "usage example_after_free LSB_UT_MEMORY LSB_US_CURRENT = 3221225472"
    "usage example_after_free LSB_UT_MEMORY LSB_US_MAXIMUM = 1073741824"
    "usage example_after_free LSB_UT_OUTPUT = (\<lambda>s. 0)"
    by (simp_all add: example_after_free_def memory_manager_def Let_def usage_set_usage b
          set_usage_def)
qed

text \<open>
  C2. The claim: after every step of the allocation interposer the quota table has
  \<open>CURRENT \<le> MAXIMUM\<close> and, for a limit that is not zero, \<open>CURRENT \<le> LIMIT\<close>. The
  interposer breaks it. On a fresh sandbox with a memory limit of 1 GiB a block of
  1 GiB is allocated; a request for a second block of 3 GiB brings the total to 4 GiB,
  four times the limit, but the total is cut to the 32 bits of the counter before it is
  tested, so the request is granted and \<open>CURRENT[MEMORY]\<close> is 0; when the first block is
  freed, 1 GiB is taken from 0, and \<open>CURRENT[MEMORY]\<close> is 3 GiB, above
  \<open>MAXIMUM[MEMORY]\<close> and above \<open>LIMIT[MEMORY]\<close>, which are both 1 GiB.
\<close>

theorem quota_wraps_on_free:
  "usage example_fresh LSB_UT_MEMORY LSB_US_LIMIT = 1073741824
   \<and> usage example_fresh LSB_UT_MEMORY LSB_US_CURRENT = 0
   \<and> usage example_fresh LSB_UT_MEMORY LSB_US_MAXIMUM = 0
   \<and> fst (memory_manager example_realloc example_fresh 0 0 1073741824) = 4096
   \<and> usage example_after_first LSB_UT_MEMORY LSB_US_CURRENT = 1073741824
   \<and> fst (memory_manager example_realloc example_after_first 0 0 3221225472) = 2147483648
   \<and> usage example_after_second LSB_UT_MEMORY LSB_US_CURRENT = 0
   \<and> usage example_after_free LSB_UT_MEMORY LSB_US_CURRENT = 3221225472
   \<and> usage example_after_free LSB_UT_MEMORY LSB_US_MAXIMUM = 1073741824
   \<and> usage example_after_free LSB_UT_MEMORY LSB_US_LIMIT = 1073741824
   \<and> usage example_after_free LSB_UT_MEMORY LSB_US_MAXIMUM
        < usage example_after_free LSB_UT_MEMORY LSB_US_CURRENT
   \<and> usage example_after_free LSB_UT_MEMORY LSB_US_LIMIT
        < usage example_after_free LSB_UT_MEMORY LSB_US_CURRENT"
proof -
  have f: "usage example_fresh LSB_UT_MEMORY LSB_US_LIMIT = 1073741824"
    "usage example_fresh LSB_UT_MEMORY LSB_US_CURRENT = 0"
    "usage example_fresh LSB_UT_MEMORY LSB_US_MAXIMUM = 0"
    by (simp_all add: example_fresh_def)
  have g: "fst (memory_manager example_realloc example_fresh 0 0 1073741824) = 4096"
    by (simp add: memory_manager_def Let_def f example_realloc_def NULL_def)
  have h: "fst (memory_manager example_realloc example_after_first 0 0 3221225472) = 2147483648"
    by (simp add: memory_manager_def Let_def example_allocations example_realloc_def NULL_def)
  show ?thesis
    using f g h by (simp add: example_allocations)
qed

text \<open>
  In the words of the invariant: it holds on the fresh sandbox and after each of the
  two allocations, and it does not hold after the free.
\<close>

lemma quota_inv_lost:
  "quota_inv example_fresh \<and> quota_inv example_after_first \<and> quota_inv example_after_second
   \<and> \<not> quota_inv example_after_free"
  by (simp add: quota_inv_def example_allocations) (simp add: example_fresh_def)
end
